(* ===== verification/Prelude.thy ===== *)
theory Prelude
  imports Main "HOL-Library.Word"
begin

text \<open>
  What every component of the development shares: bytes and byte slices, Go's panic as a value,
  truncated integer division, the collections of simplification rules, and a few generic lemmas on
  lists and words.
\<close>

unbundle bit_operations_syntax

named_theorems go_simps \<open>unfolding rules for the plumbing of the Go model\<close>

section \<open>Bytes and slices\<close>

type_synonym byte = "8 word"
type_synonym bytes = "byte list"

text \<open>
  A Go byte slice distinguishes \<open>nil\<close> from an empty slice, and the program tests for it
  (\<open>ip == nil\<close>, \<open>hwaddr != nil\<close>): \<open>None\<close> is \<open>nil\<close>.
\<close>

type_synonym slice = "bytes option"

definition bs :: "slice \<Rightarrow> bytes" where
  "bs s = (case s of None \<Rightarrow> [] | Some b \<Rightarrow> b)"

lemma bs_simps [simp]: "bs None = []" "bs (Some b) = b"
  by (simp_all add: bs_def)

section \<open>Results that may panic\<close>

text \<open>
  A Go function that indexes, slices or dereferences may panic, which ends the process: the
  program never recovers. \<open>Ret v\<close> is a normal return.
\<close>

datatype 'a go = Ret (go_val: 'a) | Panic

definition go_bind :: "'a go \<Rightarrow> ('a \<Rightarrow> 'b go) \<Rightarrow> 'b go" where
  "go_bind m f = (case m of Ret v \<Rightarrow> f v | Panic \<Rightarrow> Panic)"

lemma go_bind_simps [simp]:
  "go_bind (Ret v) f = f v"
  "go_bind Panic f = Panic"
  by (simp_all add: go_bind_def)

lemma go_bind_Ret_iff: "go_bind m f = Ret w \<longleftrightarrow> (\<exists>v. m = Ret v \<and> f v = Ret w)"
  by (cases m) auto

lemma go_bind_assoc [go_simps]: "go_bind (go_bind m f) g = go_bind m (\<lambda>v. go_bind (f v) g)"
  by (cases m) auto

text \<open>Indexing a slice with a non-negative index: the run-time bounds check.\<close>

definition go_index :: "'a list \<Rightarrow> nat \<Rightarrow> 'a go" where
  "go_index xs i = (if i < length xs then Ret (xs ! i) else Panic)"

text \<open>
  \<open>xs[i:j]\<close> of a slice whose backing array holds \<open>spare\<close> beyond its length: Go
  checks \<open>j\<close> against the capacity, not against the length.
\<close>

definition go_slice :: "'a list \<Rightarrow> 'a list \<Rightarrow> nat \<Rightarrow> nat \<Rightarrow> 'a list go" where
  "go_slice xs spare i j =
     (if i \<le> j \<and> j \<le> length xs + length spare then Ret (take (j - i) (drop i (xs @ spare)))
      else Panic)"

lemma go_slice_within:
  "i \<le> j \<Longrightarrow> j \<le> length xs \<Longrightarrow> go_slice xs spare i j = Ret (take (j - i) (drop i xs))"
  by (simp add: go_slice_def)

section \<open>Integers\<close>

text \<open>
  Go's \<open>/\<close> and \<open>%\<close> truncate towards zero. An \<open>int\<close> has 32 or 64 bits,
  depending on the platform the program is built for (\<open>docker-build.sh\<close> builds for a 32-bit
  one): where it matters the width is a parameter \<open>iw\<close>. \<open>wrap w\<close> is the value of a
  \<open>w\<close>-bit two's complement integer.
\<close>

definition go_div :: "int \<Rightarrow> int \<Rightarrow> int" where
  "go_div a b = sgn a * sgn b * (\<bar>a\<bar> div \<bar>b\<bar>)"

definition go_mod :: "int \<Rightarrow> int \<Rightarrow> int" where
  "go_mod a b = a - b * go_div a b"

definition wrap :: "nat \<Rightarrow> int \<Rightarrow> int" where
  "wrap w a = (a + 2 ^ (w - 1)) mod 2 ^ w - 2 ^ (w - 1)"

lemma go_div_nonneg: "0 \<le> a \<Longrightarrow> 0 < b \<Longrightarrow> go_div a b = a div b"
  by (cases "a = 0") (auto simp: go_div_def)

lemma go_mod_nonneg: "0 \<le> a \<Longrightarrow> 0 < b \<Longrightarrow> go_mod a b = a mod b"
  by (simp add: go_mod_def go_div_nonneg minus_mult_div_eq_mod)

lemma wrap_id:
  assumes "0 < w" "- (2 ^ (w - 1)) \<le> a" "a < 2 ^ (w - 1)"
  shows "wrap w a = a"
proof -
  have "(2::int) ^ w = 2 * 2 ^ (w - 1)"
    using assms(1) by (cases w) auto
  then have "(a + 2 ^ (w - 1)) mod 2 ^ w = a + 2 ^ (w - 1)"
    using assms(2,3) by (intro mod_pos_pos_trivial) linarith+
  then show ?thesis by (simp add: wrap_def)
qed

lemma go_div_mult_cancel: "0 < b \<Longrightarrow> go_div (b * a) b = a"
proof -
  assume b: "0 < b"
  have "\<bar>b * a\<bar> div \<bar>b\<bar> = \<bar>a\<bar>"
    using b by (simp add: abs_mult)
  with b show "go_div (b * a) b = a"
    by (simp add: go_div_def sgn_mult mult_sgn_abs)
qed

lemma unat_byte: "unat (x::byte) < 256"
  using unsigned_less [of x] by simp

section \<open>Lists\<close>

lemma takeWhile_stop:
  "list_all P xs \<Longrightarrow> (ys = [] \<or> \<not> P (hd ys)) \<Longrightarrow> takeWhile P (xs @ ys) = xs"
  by (induction xs) (auto simp: takeWhile_eq_Nil_iff)

lemma list_all_takeWhile: "list_all P (takeWhile P xs)"
  by (induction xs) auto

end
