(* ===== verification/GoText.thy ===== *)
theory GoText
  imports Prelude
begin

text \<open>
  The part of Go's text packages the program uses: \<open>strings.Split\<close>, \<open>strings.Join\<close>,
  \<open>strings.HasPrefix\<close>, \<open>strings.TrimPrefix\<close>, \<open>strconv.Atoi\<close>,
  \<open>strconv.FormatBool\<close> and the verbs of \<open>fmt.Sprintf\<close> it prints numbers with. A
  Go string is a sequence of bytes, which is Isabelle's type \<open>string\<close>.
\<close>

section \<open>Splitting and joining\<close>

fun Split :: "char \<Rightarrow> string \<Rightarrow> string list" where
  "Split c [] = [[]]"
| "Split c (x # xs) =
     (if x = c then [] # Split c xs
      else (case Split c xs of [] \<Rightarrow> [[x]] | p # ps \<Rightarrow> (x # p) # ps))"

fun Join :: "string list \<Rightarrow> char \<Rightarrow> string" where
  "Join [] c = []"
| "Join [p] c = p"
| "Join (p # q # ps) c = p @ c # Join (q # ps) c"

lemma Split_not_Nil [simp]: "Split c s \<noteq> []"
  by (cases s) (auto split: list.splits)

lemma Join_Cons_ne: "ps \<noteq> [] \<Longrightarrow> Join (p # ps) c = p @ c # Join ps c"
  by (cases ps) auto

lemma Join_Split [simp]: "Join (Split c s) c = s"
proof (induction s)
  case Nil
  then show ?case by simp
next
  case (Cons x xs)
  obtain p ps where "Split c xs = p # ps"
    by (cases "Split c xs") auto
  with Cons show ?case
    by (cases ps) auto
qed

lemma Split_free: "p \<in> set (Split c s) \<Longrightarrow> c \<notin> set p"
proof (induction s arbitrary: p)
  case Nil
  then show ?case by simp
next
  case (Cons x xs)
  then show ?case
    by (cases "Split c xs") (auto split: if_splits)
qed

lemma Split_no_sep: "c \<notin> set s \<Longrightarrow> Split c s = [s]"
  by (induction s) auto

lemma Split_append_sep: "c \<notin> set p \<Longrightarrow> Split c (p @ c # s) = p # Split c s"
  by (induction p) auto

lemma Split_Join:
  "ps \<noteq> [] \<Longrightarrow> (\<forall>p\<in>set ps. c \<notin> set p) \<Longrightarrow> Split c (Join ps c) = ps"
proof (induction ps c rule: Join.induct)
  case (1 c)
  then show ?case by simp
next
  case (2 p c)
  then show ?case by (simp add: Split_no_sep)
next
  case (3 p q ps c)
  then show ?case by (simp add: Split_append_sep)
qed

section \<open>Prefixes\<close>

definition HasPrefix :: "string \<Rightarrow> string \<Rightarrow> bool" where
  "HasPrefix s p \<longleftrightarrow> take (length p) s = p"

definition TrimPrefix :: "string \<Rightarrow> string \<Rightarrow> string" where
  "TrimPrefix s p = (if HasPrefix s p then drop (length p) s else s)"

lemma HasPrefix_append [simp]: "HasPrefix (p @ s) p"
  by (simp add: HasPrefix_def)

lemma TrimPrefix_append [simp]: "TrimPrefix (p @ s) p = s"
  by (simp add: TrimPrefix_def)

lemma HasPrefixE:
  assumes "HasPrefix s p"
  obtains t where "s = p @ t"
  using assms append_take_drop_id [of "length p" s] by (metis HasPrefix_def)

section \<open>Digits\<close>

text \<open>The value of a digit in bases up to sixteen; 99 stands for a byte that is no digit.\<close>

definition digval :: "char \<Rightarrow> nat" where
  "digval c = (let n = of_char c in
     if 48 \<le> n \<and> n \<le> 57 then n - 48
     else if 97 \<le> n \<and> n \<le> 102 then n - 87
     else if 65 \<le> n \<and> n \<le> 70 then n - 55
     else 99)"

definition is_dig :: "nat \<Rightarrow> char \<Rightarrow> bool" where
  "is_dig b c \<longleftrightarrow> digval c < b"

definition digch :: "nat \<Rightarrow> char" where
  "digch d = char_of (if d < 10 then 48 + d else 87 + d)"

lemma digval_digch [simp]: "d < 16 \<Longrightarrow> digval (digch d) = d"
  by (simp add: digval_def digch_def of_char_of Let_def)

lemma digch_0: "digch 0 = CHR ''0''"
  by code_simp

lemma digch_inj: "d < 16 \<Longrightarrow> e < 16 \<Longrightarrow> digch d = digch e \<longleftrightarrow> d = e"
  by (metis digval_digch)

lemma is_dig_digch: "d < b \<Longrightarrow> b \<le> 16 \<Longrightarrow> is_dig b (digch d)"
  by (simp add: is_dig_def)

fun show_base :: "nat \<Rightarrow> nat \<Rightarrow> string" where
  "show_base b n =
     (if n < b \<or> b < 2 then [digch n] else show_base b (n div b) @ [digch (n mod b)])"

declare show_base.simps [simp del]

definition val_base :: "nat \<Rightarrow> string \<Rightarrow> nat" where
  "val_base b s = foldl (\<lambda>a c. a * b + digval c) 0 s"

lemma val_base_snoc: "val_base b (s @ [c]) = val_base b s * b + digval c"
  by (simp add: val_base_def)

lemma show_base_not_Nil [simp]: "show_base b n \<noteq> []"
  by (subst show_base.simps) simp

lemma show_base_digits: "2 \<le> b \<Longrightarrow> b \<le> 16 \<Longrightarrow> list_all (is_dig b) (show_base b n)"
proof (induction b n rule: show_base.induct)
  case (1 b n)
  then show ?case
    by (subst show_base.simps) (auto simp: is_dig_digch)
qed

lemma val_show_base: "2 \<le> b \<Longrightarrow> b \<le> 16 \<Longrightarrow> val_base b (show_base b n) = n"
proof (induction b n rule: show_base.induct)
  case (1 b n)
  show ?case
  proof (cases "n < b")
    case True
    with 1 show ?thesis
      by (subst show_base.simps) (simp add: val_base_def)
  next
    case False
    with 1 have "val_base b (show_base b (n div b)) = n div b"
      by auto
    moreover have "n mod b < 16"
      using 1 mod_less_divisor [of b n] by linarith
    ultimately show ?thesis
      using False 1 by (subst show_base.simps) (simp add: val_base_snoc)
  qed
qed

lemma show_base_inj: "2 \<le> b \<Longrightarrow> b \<le> 16 \<Longrightarrow> show_base b m = show_base b n \<longleftrightarrow> m = n"
  by (metis val_show_base)

lemma show_base_long: "2 \<le> b \<Longrightarrow> b \<le> n \<Longrightarrow> 1 < length (show_base b n)"
  by (subst show_base.simps) simp

lemma show_base_leading_zero:
  "2 \<le> b \<Longrightarrow> b \<le> 16 \<Longrightarrow> 1 < length (show_base b n) \<Longrightarrow> hd (show_base b n) \<noteq> digch 0"
proof (induction b n rule: show_base.induct)
  case (1 b n)
  then have ge: "b \<le> n"
    by (subst (asm) (2) show_base.simps) (auto split: if_splits)
  then have eq: "show_base b n = show_base b (n div b) @ [digch (n mod b)]"
    using 1 by (subst show_base.simps) auto
  show ?case
  proof (cases "n div b < b")
    case True
    moreover have "n div b \<noteq> 0"
      using ge 1 by (simp add: div_eq_0_iff)
    moreover have "show_base b (n div b) = [digch (n div b)]"
      using True by (subst show_base.simps) simp
    ultimately show ?thesis
      using eq 1 by (simp add: digch_inj)
  next
    case False
    then have "1 < length (show_base b (n div b))"
      using 1 by (intro show_base_long) auto
    with 1 ge have "hd (show_base b (n div b)) \<noteq> digch 0" by auto
    with eq show ?thesis by simp
  qed
qed

section \<open>Numbers in text\<close>

text \<open>\<open>fmt.Sprintf("%d", n)\<close> and \<open>%0wd\<close>, whose width counts the sign.\<close>

definition print_int :: "int \<Rightarrow> string" where
  "print_int n = (if n < 0 then CHR ''-'' # show_base 10 (nat (- n)) else show_base 10 (nat n))"

definition zero_pad :: "nat \<Rightarrow> string \<Rightarrow> string" where
  "zero_pad w s = replicate (w - length s) CHR ''0'' @ s"

definition print_int_pad :: "nat \<Rightarrow> int \<Rightarrow> string" where
  "print_int_pad w n =
     (if n < 0 then CHR ''-'' # zero_pad (w - 1) (show_base 10 (nat (- n)))
      else zero_pad w (show_base 10 (nat n)))"

definition FormatBool :: "bool \<Rightarrow> string" where
  "FormatBool b = (if b then ''true'' else ''false'')"

lemma FormatBool_inj [simp]: "FormatBool a = FormatBool b \<longleftrightarrow> a = b"
  by (auto simp: FormatBool_def)

text \<open>
  \<open>strconv.Atoi\<close> for an \<open>int\<close> of \<open>iw\<close> bits: the value and the error. The
  unsigned value is read digit by digit; it overflows at the first prefix beyond \<open>2 ^ iw - 1\<close>,
  even if a byte that is no digit follows. Out of range, the value is the nearest representable one.
\<close>

datatype num_error = ErrSyntax | ErrRange

fun parse_uint :: "int \<Rightarrow> int \<Rightarrow> string \<Rightarrow> num_error + int" where
  "parse_uint maxval n [] = Inr n"
| "parse_uint maxval n (c # s) =
     (if \<not> is_dig 10 c then Inl ErrSyntax
      else if maxval < n * 10 + int (digval c) then Inl ErrRange
      else parse_uint maxval (n * 10 + int (digval c)) s)"

definition Atoi :: "nat \<Rightarrow> string \<Rightarrow> int \<times> num_error option" where
  "Atoi iw s =
     (let neg = (s \<noteq> [] \<and> hd s = CHR ''-'');
          body = (if s \<noteq> [] \<and> (hd s = CHR ''-'' \<or> hd s = CHR ''+'') then tl s else s);
          cutoff = 2 ^ (iw - 1)
      in if body = [] then (0, Some ErrSyntax)
         else (case parse_uint (2 ^ iw - 1) 0 body of
             Inl ErrSyntax \<Rightarrow> (0, Some ErrSyntax)
           | Inl ErrRange \<Rightarrow> (if neg then - cutoff else cutoff - 1, Some ErrRange)
           | Inr u \<Rightarrow>
               (if \<not> neg \<and> cutoff \<le> u then (cutoff - 1, Some ErrRange)
                else if neg \<and> cutoff < u then (- cutoff, Some ErrRange)
                else (if neg then - u else u, None))))"

lemma parse_uint_nonneg: "0 \<le> n \<Longrightarrow> parse_uint m n s = Inr u \<Longrightarrow> 0 \<le> u"
  by (induction m n s rule: parse_uint.induct) (auto split: if_splits)

lemma Atoi_range:
  assumes "0 < iw"
  shows "- (2 ^ (iw - 1)) \<le> fst (Atoi iw s) \<and> fst (Atoi iw s) < 2 ^ (iw - 1)"
proof -
  define c :: int where "c = 2 ^ (iw - Suc 0)"
  have c: "0 < c" by (simp add: c_def)
  have u: "- c \<le> u" "- u < c" if "parse_uint m 0 t = Inr u" for m t u
    using c parse_uint_nonneg [OF _ that] by auto
  show ?thesis
    using c u by (auto simp: Atoi_def Let_def c_def [symmetric] split: sum.splits num_error.splits)
qed

lemma foldl_digits_ge: "n \<le> foldl (\<lambda>a c. a * 10 + digval c) n s"
proof (induction s arbitrary: n)
  case Nil
  then show ?case by simp
next
  case (Cons c s)
  have "n \<le> n * 10 + digval c" by simp
  also have "\<dots> \<le> foldl (\<lambda>a c. a * 10 + digval c) (n * 10 + digval c) s"
    by (rule Cons.IH)
  finally show ?case by simp
qed

lemma parse_uint_ok:
  "list_all (is_dig 10) s \<Longrightarrow> int (foldl (\<lambda>a c. a * 10 + digval c) n s) \<le> m \<Longrightarrow>
   parse_uint m (int n) s = Inr (int (foldl (\<lambda>a c. a * 10 + digval c) n s))"
proof (induction s arbitrary: n)
  case Nil
  then show ?case by simp
next
  case (Cons c s)
  have "int (n * 10 + digval c) \<le> m"
    using foldl_digits_ge [of "n * 10 + digval c" s] Cons.prems(2) by simp
  moreover have "parse_uint m (int (n * 10 + digval c)) s =
      Inr (int (foldl (\<lambda>a c. a * 10 + digval c) (n * 10 + digval c) s))"
    using Cons by (intro Cons.IH) auto
  ultimately show ?case
    using Cons.prems(1) by simp
qed

lemma digit_not_sign: "is_dig b c \<Longrightarrow> b \<le> 16 \<Longrightarrow> c \<noteq> CHR ''-'' \<and> c \<noteq> CHR ''+''"
  by (auto simp: is_dig_def digval_def Let_def)

lemma Atoi_print_int:
  assumes "0 < iw" "0 \<le> n" "n < 2 ^ (iw - 1)"
  shows "Atoi iw (print_int n) = (n, None)"
proof -
  let ?s = "show_base 10 (nat n)"
  have dig: "list_all (is_dig 10) ?s" by (simp add: show_base_digits)
  then have hd: "hd ?s \<noteq> CHR ''-''" "hd ?s \<noteq> CHR ''+''"
    using digit_not_sign [of 10 "hd ?s"] by (cases ?s; simp)+
  have val: "foldl (\<lambda>a c. a * 10 + digval c) 0 ?s = nat n"
    using val_show_base [of 10 "nat n"] by (simp add: val_base_def)
  have "(2::int) ^ (iw - 1) \<le> 2 ^ iw - 1"
    using assms(1) by (cases iw) auto
  then have "n \<le> 2 ^ iw - 1"
    using assms(3) by linarith
  then have "parse_uint (2 ^ iw - 1) 0 ?s = Inr n"
    using parse_uint_ok [OF dig, of 0 "2 ^ iw - 1"] val assms by simp
  with hd assms show ?thesis
    by (simp add: Atoi_def print_int_def Let_def)
qed

end
