(* ===== verification/GoNet.thy ===== *)
theory GoNet
  imports GoText
begin

text \<open>
  The part of Go's package \<open>net\<close> (release 1.19, which the Dockerfile builds with) that the
  program uses: addresses, masks and networks, their text forms, and hardware addresses. An address
  is a byte slice; a result that may be \<open>nil\<close> is an \<open>option\<close>.
\<close>

section \<open>Addresses, masks and networks\<close>

record IPNet =
  net_IP :: slice
  net_Mask :: slice

definition v4InV6Prefix :: bytes where
  "v4InV6Prefix = replicate 10 0 @ [0xff, 0xff]"

definition To4 :: "bytes \<Rightarrow> slice" where
  "To4 ip =
     (if length ip = 4 then Some ip
      else if length ip = 16 \<and> take 12 ip = v4InV6Prefix then Some (drop 12 ip)
      else None)"

definition To16 :: "bytes \<Rightarrow> slice" where
  "To16 ip =
     (if length ip = 4 then Some (v4InV6Prefix @ ip)
      else if length ip = 16 then Some ip
      else None)"

definition IP_Equal :: "bytes \<Rightarrow> bytes \<Rightarrow> bool" where
  "IP_Equal ip x =
     (if length ip = length x then ip = x
      else if length ip = 4 \<and> length x = 16 then take 12 x = v4InV6Prefix \<and> ip = drop 12 x
      else if length ip = 16 \<and> length x = 4 then take 12 ip = v4InV6Prefix \<and> drop 12 ip = x
      else False)"

definition IsLinkLocalUnicast :: "bytes \<Rightarrow> bool" where
  "IsLinkLocalUnicast ip =
     (case To4 ip of
        Some ip4 \<Rightarrow> ip4 ! 0 = 169 \<and> ip4 ! 1 = 254
      | None \<Rightarrow> length ip = 16 \<and> ip ! 0 = 0xfe \<and> ip ! 1 AND 0xc0 = 0x80)"

text \<open>\<open>CIDRMask\<close> fills the bytes from the left; out of range it returns \<open>nil\<close>.\<close>

fun mask_bytes :: "nat \<Rightarrow> nat \<Rightarrow> bytes" where
  "mask_bytes 0 n = []"
| "mask_bytes (Suc l) n =
     (if 8 \<le> n then 0xff # mask_bytes l (n - 8) else NOT (drop_bit n 0xff) # mask_bytes l 0)"

definition CIDRMask :: "int \<Rightarrow> int \<Rightarrow> slice" where
  "CIDRMask ones bits =
     (if bits \<noteq> 32 \<and> bits \<noteq> 128 then None
      else if ones < 0 \<or> bits < ones then None
      else Some (mask_bytes (nat (bits div 8)) (nat ones)))"

text \<open>
  \<open>simpleMaskLength\<close>: the number of leading one bits, if nothing else is set. The inner loop
  shifts a byte to the left while its top bit is set, at most eight times.
\<close>

fun lead_ones :: "nat \<Rightarrow> byte \<Rightarrow> nat \<times> byte" where
  "lead_ones 0 v = (0, v)"
| "lead_ones (Suc k) v =
     (if v AND 0x80 \<noteq> 0 then (let (n, w) = lead_ones k (push_bit 1 v) in (Suc n, w)) else (0, v))"

fun simpleMaskLength :: "bytes \<Rightarrow> nat option" where
  "simpleMaskLength [] = Some 0"
| "simpleMaskLength (v # m) =
     (if v = 0xff then map_option (\<lambda>n. n + 8) (simpleMaskLength m)
      else (let (n, w) = lead_ones 8 v in
        if w \<noteq> 0 then None else if list_all (\<lambda>b. b = 0) m then Some n else None))"

definition Mask_Size :: "bytes \<Rightarrow> nat \<times> nat" where
  "Mask_Size m =
     (case simpleMaskLength m of None \<Rightarrow> (0, 0) | Some ones \<Rightarrow> (ones, length m * 8))"

definition IP_Mask :: "bytes \<Rightarrow> bytes \<Rightarrow> slice" where
  "IP_Mask ip m =
     (let m = (if length m = 16 \<and> length ip = 4 \<and> list_all (\<lambda>b. b = 0xff) (take 12 m)
               then drop 12 m else m);
          ip = (if length m = 4 \<and> length ip = 16 \<and> take 12 ip = v4InV6Prefix
                then drop 12 ip else ip)
      in if length ip \<noteq> length m then None else Some (map2 (AND) ip m))"

text \<open>
  \<open>networkNumberAndMask\<close> returns \<open>nil, nil\<close> for a malformed network.
\<close>

definition networkNumberAndMask :: "IPNet \<Rightarrow> (bytes \<times> bytes) option" where
  "networkNumberAndMask n =
     (let m = bs (net_Mask n) in
      case To4 (bs (net_IP n)) of
        Some ip \<Rightarrow>
          (if length m = 4 then Some (ip, m)
           else if length m = 16 then Some (ip, drop 12 m) else None)
      | None \<Rightarrow>
          (if length (bs (net_IP n)) = 16 \<and> length m = 16 then Some (bs (net_IP n), m)
           else None))"

definition Contains :: "IPNet \<Rightarrow> bytes \<Rightarrow> bool" where
  "Contains n ip =
     (let ip = (case To4 ip of Some x \<Rightarrow> x | None \<Rightarrow> ip) in
      case networkNumberAndMask n of
        None \<Rightarrow> ip = []
      | Some (nn, m) \<Rightarrow> length ip = length nn \<and> map2 (AND) nn m = map2 (AND) ip m)"

section \<open>Text forms\<close>

fun groups :: "bytes \<Rightarrow> nat list" where
  "groups (x # y # r) = (unat x * 256 + unat y) # groups r"
| "groups _ = []"

text \<open>
  The first longest run of zero groups: \<open>i\<close> is the group looked at, \<open>(e0, n)\<close> the best
  run so far.
\<close>

function longest_run :: "nat list \<Rightarrow> nat \<Rightarrow> nat \<times> nat \<Rightarrow> nat \<times> nat" where
  "longest_run gs i best =
     (if length gs \<le> i then best
      else (let r = length (takeWhile (\<lambda>g. g = 0) (drop i gs)) in
        if snd best < r then longest_run gs (i + r + 1) (i, r) else longest_run gs (i + 1) best))"
  by pat_completeness auto
termination
  by (relation "measure (\<lambda>(gs, i, best). length gs - i)") auto

declare longest_run.simps [simp del]

definition colon_hex :: "nat list \<Rightarrow> string" where
  "colon_hex gs = Join (map (show_base 16) gs) CHR '':''"

definition hexString :: "bytes \<Rightarrow> string" where
  "hexString b = concat (map (\<lambda>x. [digch (unat x div 16), digch (unat x mod 16)]) b)"

definition IP_String :: "bytes \<Rightarrow> string" where
  "IP_String ip =
     (if ip = [] then ''<nil>''
      else case To4 ip of
        Some p4 \<Rightarrow> Join (map (\<lambda>b. show_base 10 (unat b)) p4) CHR ''.''
      | None \<Rightarrow>
          if length ip \<noteq> 16 then CHR ''?'' # hexString ip
          else (let gs = groups ip; (e0, n) = longest_run gs 0 (0, 0) in
            if n \<le> 1 then colon_hex gs
            else colon_hex (take e0 gs) @ ''::'' @ colon_hex (drop (e0 + n) gs)))"

definition IPNet_String :: "IPNet \<Rightarrow> string" where
  "IPNet_String n =
     (case networkNumberAndMask n of
        None \<Rightarrow> ''<nil>''
      | Some (nn, m) \<Rightarrow>
          IP_String nn @ ''/'' @
          (case simpleMaskLength m of None \<Rightarrow> hexString m | Some l \<Rightarrow> show_base 10 l))"

section \<open>Parsing\<close>

text \<open>
  \<open>dtoi\<close> and \<open>xtoi\<close> read the leading digits of a string: the number and how many bytes
  it took. They fail on no digit and on numbers from \<open>0xFFFFFF\<close>.
\<close>

definition read_num :: "nat \<Rightarrow> string \<Rightarrow> (nat \<times> nat) option" where
  "read_num b s =
     (let ds = takeWhile (is_dig b) s in
      if ds = [] \<or> 0xFFFFFF \<le> val_base b ds then None else Some (val_base b ds, length ds))"

abbreviation dtoi :: "string \<Rightarrow> (nat \<times> nat) option" where "dtoi \<equiv> read_num 10"
abbreviation xtoi :: "string \<Rightarrow> (nat \<times> nat) option" where "xtoi \<equiv> read_num 16"

text \<open>The loop of \<open>parseIPv4\<close>: \<open>p\<close> is what it has read.\<close>

fun parseIPv4_loop :: "nat \<Rightarrow> string \<Rightarrow> bytes \<Rightarrow> slice" where
  "parseIPv4_loop 0 s p = (if s = [] then Some p else None)"
| "parseIPv4_loop (Suc k) s p =
     (if s = [] then None
      else if p \<noteq> [] \<and> hd s \<noteq> CHR ''.'' then None
      else (let s = (if p \<noteq> [] then tl s else s) in
        case dtoi s of
          None \<Rightarrow> None
        | Some (n, c) \<Rightarrow>
            if 0xFF < n then None
            else if 1 < c \<and> hd s = CHR ''0'' then None
            else parseIPv4_loop k (drop c s) (p @ [of_nat n])))"

definition parseIPv4 :: "string \<Rightarrow> slice" where
  "parseIPv4 s = map_option (\<lambda>p. v4InV6Prefix @ p) (parseIPv4_loop 4 s [])"

text \<open>
  The loop of \<open>parseIPv6\<close>: \<open>acc\<close> holds the bytes read (its length is the code's
  \<open>i\<close>), \<open>ell\<close> the position of the ellipsis.
\<close>

function parseIPv6_loop :: "string \<Rightarrow> bytes \<Rightarrow> nat option \<Rightarrow> (bytes \<times> nat option) option" where
  "parseIPv6_loop s acc ell =
     (if 16 \<le> length acc then (if s = [] then Some (acc, ell) else None)
      else case xtoi s of
        None \<Rightarrow> None
      | Some (n, c) \<Rightarrow>
          if 0xFFFF < n then None
          else if c < length s \<and> s ! c = CHR ''.'' then
            (if ell = None \<and> length acc \<noteq> 12 then None
             else if 16 < length acc + 4 then None
             else map_option (\<lambda>ip4. (acc @ drop 12 ip4, ell)) (parseIPv4 s))
          else (let acc' = acc @ [of_nat (n div 256), of_nat n]; s' = drop c s in
            if s' = [] then Some (acc', ell)
            else if hd s' \<noteq> CHR '':'' \<or> length s' = 1 then None
            else if hd (tl s') = CHR '':'' then
              (if ell \<noteq> None then None
               else if tl (tl s') = [] then Some (acc', Some (length acc'))
               else parseIPv6_loop (tl (tl s')) acc' (Some (length acc')))
            else parseIPv6_loop (tl s') acc' ell))"
  by pat_completeness auto
termination
  by (relation "measure (\<lambda>(s, acc, ell). 16 - length acc)") auto

declare parseIPv6_loop.simps [simp del]

definition parseIPv6_finish :: "bytes \<times> nat option \<Rightarrow> slice" where
  "parseIPv6_finish r =
     (case r of (acc, ell) \<Rightarrow>
        if length acc < 16 then
          (case ell of None \<Rightarrow> None
           | Some e \<Rightarrow> Some (take e acc @ replicate (16 - length acc) 0 @ drop e acc))
        else if ell \<noteq> None then None else Some acc)"

definition parseIPv6 :: "string \<Rightarrow> slice" where
  "parseIPv6 s =
     (if take 2 s = ''::'' then
        (if drop 2 s = [] then Some (replicate 16 0)
         else Option.bind (parseIPv6_loop (drop 2 s) [] (Some 0)) parseIPv6_finish)
      else Option.bind (parseIPv6_loop s [] None) parseIPv6_finish)"

text \<open>\<open>ParseIP\<close> decides by the first dot or colon.\<close>

definition ParseIP :: "string \<Rightarrow> slice" where
  "ParseIP s =
     (case dropWhile (\<lambda>c. c \<noteq> CHR ''.'' \<and> c \<noteq> CHR '':'') s of
        [] \<Rightarrow> None
      | c # _ \<Rightarrow> if c = CHR ''.'' then parseIPv4 s else parseIPv6 s)"

definition ParseCIDR :: "string \<Rightarrow> (bytes \<times> IPNet) option" where
  "ParseCIDR s =
     (if CHR ''/'' \<notin> set s then None
      else (let addr = takeWhile (\<lambda>c. c \<noteq> CHR ''/'') s;
                msk = tl (dropWhile (\<lambda>c. c \<noteq> CHR ''/'') s);
                (ip, iplen) = (case parseIPv4 addr of
                    Some ip \<Rightarrow> (Some ip, 4) | None \<Rightarrow> (parseIPv6 addr, 16 :: nat))
        in case (ip, dtoi msk) of
             (Some ip, Some (n, i)) \<Rightarrow>
               (if i \<noteq> length msk \<or> 8 * iplen < n then None
                else (let m = CIDRMask (int n) (8 * int iplen) in
                  Some (ip, \<lparr>net_IP = IP_Mask ip (bs m), net_Mask = m\<rparr>)))
           | _ \<Rightarrow> None))"

text \<open>Hardware addresses: \<open>xtoi2\<close> reads two digits, followed by \<open>e\<close> or by nothing.\<close>

definition xtoi2 :: "string \<Rightarrow> char \<Rightarrow> byte option" where
  "xtoi2 s e =
     (if 2 < length s \<and> s ! 2 \<noteq> e then None
      else case xtoi (take 2 s) of
        Some (n, c) \<Rightarrow> if c = 2 then Some (of_nat n) else None
      | None \<Rightarrow> None)"

fun mac_pairs :: "nat \<Rightarrow> string \<Rightarrow> char \<Rightarrow> slice" where
  "mac_pairs 0 s e = Some []"
| "mac_pairs (Suc k) s e =
     (case xtoi2 s e of None \<Rightarrow> None
      | Some b \<Rightarrow> map_option (\<lambda>r. b # r) (mac_pairs k (drop 3 s) e))"

fun mac_quads :: "nat \<Rightarrow> string \<Rightarrow> char \<Rightarrow> slice" where
  "mac_quads 0 s e = Some []"
| "mac_quads (Suc k) s e =
     (case (xtoi2 (take 2 s) (CHR 0x00), xtoi2 (drop 2 s) e) of
        (Some b, Some d) \<Rightarrow> map_option (\<lambda>r. b # d # r) (mac_quads k (drop 5 s) e)
      | _ \<Rightarrow> None)"

definition ParseMAC :: "string \<Rightarrow> slice" where
  "ParseMAC s =
     (if length s < 14 then None
      else if s ! 2 = CHR '':'' \<or> s ! 2 = CHR ''-'' then
        (let n = (length s + 1) div 3 in
         if (length s + 1) mod 3 \<noteq> 0 \<or> n \<notin> {6, 8, 20} then None else mac_pairs n s (s ! 2))
      else if s ! 4 = CHR ''.'' then
        (let n = 2 * (length s + 1) div 5 in
         if (length s + 1) mod 5 \<noteq> 0 \<or> n \<notin> {6, 8, 20} then None
         else mac_quads (n div 2) s (s ! 4))
      else None)"

end
