(* ===== verification/GoNetText.thy ===== *)
theory GoNetText
  imports GoNet
begin

text \<open>
  The text forms of addresses and networks read back as what was printed: the facts about package
  \<open>net\<close> that the reconciliation of the router's state with the wanted state rests on.
\<close>

section \<open>Numbers\<close>

lemma read_num_show:
  assumes "2 \<le> b" "b \<le> 16" "n < 0xFFFFFF" "r = [] \<or> \<not> is_dig b (hd r)"
  shows "read_num b (show_base b n @ r) = Some (n, length (show_base b n))"
proof -
  have "takeWhile (is_dig b) (show_base b n @ r) = show_base b n"
    using assms by (intro takeWhile_stop show_base_digits) auto
  with assms show ?thesis
    by (simp add: read_num_def val_show_base Let_def)
qed

lemma not_is_dig_sep [simp]:
  "b \<le> 16 \<Longrightarrow> \<not> is_dig b CHR '':''" "b \<le> 16 \<Longrightarrow> \<not> is_dig b CHR ''.''" "b \<le> 16 \<Longrightarrow> \<not> is_dig b CHR ''/''"
  by (simp_all add: is_dig_def digval_def)

lemma show_base_free:
  "2 \<le> b \<Longrightarrow> b \<le> 16 \<Longrightarrow> \<not> is_dig b c \<Longrightarrow> c \<notin> set (show_base b n)"
  using show_base_digits [of b n] by (auto simp: list_all_iff)

lemma Join_concat: "Join (p # ps) c = p @ concat (map (\<lambda>q. c # q) ps)"
  by (induction ps arbitrary: p) auto

lemma dropWhile_stop:
  "list_all P xs \<Longrightarrow> \<not> P y \<Longrightarrow> dropWhile P (xs @ y # ys) = y # ys"
  by (induction xs) auto

section \<open>Groups\<close>

definition ungroups :: "nat list \<Rightarrow> bytes" where
  "ungroups gs = concat (map (\<lambda>g. [of_nat (g div 256), of_nat g]) gs)"

lemma ungroups_simps [simp]:
  "ungroups [] = []"
  "ungroups (g # gs) = of_nat (g div 256) # of_nat g # ungroups gs"
  "ungroups (gs @ hs) = ungroups gs @ ungroups hs"
  by (simp_all add: ungroups_def)

lemma length_ungroups [simp]: "length (ungroups gs) = 2 * length gs"
  by (induction gs) auto

lemma group_low: "of_nat (unat (x::byte) * 256 + unat y) = (y::byte)"
proof -
  have "(256::byte) = 0" by simp
  then have "x * 256 = 0" by (simp only: mult_zero_right)
  then show ?thesis by simp
qed

lemma group_high: "(unat (x::byte) * 256 + unat (y::byte)) div 256 = unat x"
  using unat_byte [of y] by simp

lemma ungroups_groups: "even (length ip) \<Longrightarrow> ungroups (groups ip) = ip"
proof (induction ip rule: groups.induct)
  case (1 x y r)
  then show ?case
    using group_low [of x y] group_high [of x y] by simp
qed auto

lemma length_groups: "length (groups ip) = length ip div 2"
  by (induction ip rule: groups.induct) auto

lemma groups_bound: "g \<in> set (groups ip) \<Longrightarrow> g < 65536"
proof (induction ip rule: groups.induct)
  case (1 x y r)
  then show ?case
    using unat_byte [of x] unat_byte [of y] by auto
qed auto

lemma ungroups_zeros: "(\<forall>g\<in>set gs. g = 0) \<Longrightarrow> ungroups gs = replicate (2 * length gs) 0"
  by (induction gs) auto

section \<open>The run of zero groups\<close>

definition zero_run :: "nat list \<Rightarrow> nat \<times> nat \<Rightarrow> bool" where
  "zero_run gs best \<longleftrightarrow>
     (case best of (e0, n) \<Rightarrow> e0 + n \<le> length gs \<and> (\<forall>g\<in>set (take n (drop e0 gs)). g = 0))"

lemma zero_run_here: "i < length gs \<Longrightarrow> zero_run gs (i, length (takeWhile (\<lambda>g. g = 0) (drop i gs)))"
proof -
  assume "i < length gs"
  have "length (takeWhile (\<lambda>g. g = 0) (drop i gs)) \<le> length gs - i"
    using length_takeWhile_le [of "\<lambda>g. g = 0" "drop i gs"] by simp
  moreover have "\<forall>g\<in>set (takeWhile (\<lambda>g. g = 0) (drop i gs)). g = 0"
    by (auto dest: set_takeWhileD)
  ultimately show ?thesis
    using \<open>i < length gs\<close> by (simp add: zero_run_def takeWhile_eq_take [symmetric])
qed

lemma longest_run_zero: "zero_run gs best \<Longrightarrow> zero_run gs (longest_run gs i best)"
proof (induction gs i best rule: longest_run.induct)
  case (1 gs i best)
  then show ?case
    by (subst longest_run.simps) (auto simp: Let_def zero_run_here)
qed

section \<open>Addresses\<close>

lemma parseIPv4_loop_print:
  "length qs = k \<Longrightarrow> p \<noteq> [] \<Longrightarrow>
   parseIPv4_loop k (concat (map (\<lambda>b. CHR ''.'' # show_base 10 (unat b)) qs)) p = Some (p @ qs)"
proof (induction qs arbitrary: k p)
  case Nil
  then show ?case by simp
next
  case (Cons q qs)
  let ?r = "concat (map (\<lambda>b. CHR ''.'' # show_base 10 (unat b)) qs)"
  have r: "?r = [] \<or> \<not> is_dig 10 (hd ?r)"
    by (cases qs) auto
  have "unat q < 256" by (rule unat_byte)
  then have num: "read_num 10 (show_base 10 (unat q) @ ?r) = Some (unat q, length (show_base 10 (unat q)))"
    using r by (intro read_num_show) auto
  have lead: "1 < length (show_base 10 (unat q)) \<Longrightarrow> hd (show_base 10 (unat q) @ ?r) \<noteq> CHR ''0''"
    using show_base_leading_zero [of 10 "unat q"] by (simp add: digch_0)
  from Cons show ?case
    using num lead \<open>unat q < 256\<close> by auto
qed

lemma parseIPv4_print:
  assumes "length qs = 4"
  shows "parseIPv4 (Join (map (\<lambda>b. show_base 10 (unat b)) qs) CHR ''.'') = Some (v4InV6Prefix @ qs)"
proof -
  obtain q qs' where qs: "qs = q # qs'" "length qs' = 3"
    using assms by (cases qs) auto
  let ?r = "concat (map (\<lambda>b. CHR ''.'' # show_base 10 (unat b)) qs')"
  have r: "?r = [] \<or> \<not> is_dig 10 (hd ?r)"
    by (cases qs') auto
  have "unat q < 256" by (rule unat_byte)
  then have num: "read_num 10 (show_base 10 (unat q) @ ?r) = Some (unat q, length (show_base 10 (unat q)))"
    using r by (intro read_num_show) auto
  have lead: "1 < length (show_base 10 (unat q)) \<Longrightarrow> hd (show_base 10 (unat q)) \<noteq> CHR ''0''"
    using show_base_leading_zero [of 10 "unat q"] by (simp add: digch_0)
  have join: "Join (map (\<lambda>b. show_base 10 (unat b)) qs) CHR ''.'' = show_base 10 (unat q) @ ?r"
    by (simp add: qs Join_concat comp_def)
  have "parseIPv4_loop 3 ?r [q] = Some qs"
    using parseIPv4_loop_print [of qs' 3 "[q]"] qs by simp
  then have "parseIPv4_loop (Suc 3) (show_base 10 (unat q) @ ?r) [] = Some qs"
    using num lead \<open>unat q < 256\<close> unfolding parseIPv4_loop.simps by simp
  then show ?thesis
    by (simp add: parseIPv4_def join del: parseIPv4_loop.simps)
qed

lemma parseIPv6_loop_step:
  assumes "length acc < 16" "g < 65536" "r = [] \<or> hd r = CHR '':''"
  defines "acc' \<equiv> acc @ [of_nat (g div 256), of_nat g]"
  shows "parseIPv6_loop (show_base 16 g @ r) acc ell =
     (if r = [] then Some (acc', ell)
      else if length r = 1 then None
      else if hd (tl r) = CHR '':'' then
        (if ell \<noteq> None then None
         else if tl (tl r) = [] then Some (acc', Some (length acc'))
         else parseIPv6_loop (tl (tl r)) acc' (Some (length acc')))
      else parseIPv6_loop (tl r) acc' ell)"
proof -
  have "read_num 16 (show_base 16 g @ r) = Some (g, length (show_base 16 g))"
    using assms by (intro read_num_show) auto
  moreover have "(show_base 16 g @ r) ! length (show_base 16 g) \<noteq> CHR ''.''" if "r \<noteq> []"
    using that assms(3) by (simp add: nth_append hd_conv_nth)
  ultimately show ?thesis
    using assms(1-3) unfolding acc'_def
    by (subst parseIPv6_loop.simps) (auto simp: Let_def)
qed

lemma colon_hex_Cons: "colon_hex (g # gs) = show_base 16 g @ (if gs = [] then [] else CHR '':'' # colon_hex gs)"
  by (cases gs) (auto simp: colon_hex_def)

lemma colon_hex_Nil [simp]: "colon_hex [] = []"
  by (simp add: colon_hex_def)

lemma colon_hex_eq_Nil [simp]: "colon_hex gs = [] \<longleftrightarrow> gs = []"
  by (cases gs) (auto simp: colon_hex_Cons)

lemma hd_show_base: "hd (show_base 16 g) \<noteq> CHR '':''"
proof -
  have "CHR '':'' \<notin> set (show_base 16 g)"
    by (rule show_base_free) simp_all
  then show ?thesis
    by (metis hd_in_set show_base_not_Nil)
qed

lemma hd_colon_hex: "gs \<noteq> [] \<Longrightarrow> hd (colon_hex gs) \<noteq> CHR '':''"
  by (cases gs) (auto simp: colon_hex_Cons hd_show_base)

lemma parseIPv6_loop_groups:
  assumes "gs \<noteq> []" "length acc + 2 * length gs \<le> 16" "\<forall>g\<in>set gs. g < 65536"
  shows "parseIPv6_loop (colon_hex gs) acc ell = Some (acc @ ungroups gs, ell)"
  using assms
proof (induction gs arbitrary: acc)
  case Nil
  then show ?case by simp
next
  case (Cons g gs)
  show ?case
  proof (cases "gs = []")
    case True
    with Cons.prems show ?thesis
      using parseIPv6_loop_step [of acc g "[]" ell] by (simp add: colon_hex_Cons)
  next
    case False
    with Cons show ?thesis
      using parseIPv6_loop_step [of acc g "CHR '':'' # colon_hex gs" ell]
      by (simp add: colon_hex_Cons hd_colon_hex)
  qed
qed

lemma parseIPv6_loop_ellipsis:
  assumes "gs \<noteq> []" "length acc + 2 * length gs \<le> 16" "\<forall>g\<in>set gs. g < 65536"
  shows "parseIPv6_loop (colon_hex gs @ ''::'' @ r) acc None =
     (if r = [] then Some (acc @ ungroups gs, Some (length (acc @ ungroups gs)))
      else parseIPv6_loop r (acc @ ungroups gs) (Some (length (acc @ ungroups gs))))"
  using assms
proof (induction gs arbitrary: acc)
  case Nil
  then show ?case by simp
next
  case (Cons g gs)
  show ?case
  proof (cases "gs = []")
    case True
    with Cons.prems show ?thesis
      using parseIPv6_loop_step [of acc g "''::'' @ r" None] by (simp add: colon_hex_Cons)
  next
    case False
    with Cons show ?thesis
      using parseIPv6_loop_step [of acc g "CHR '':'' # colon_hex gs @ ''::'' @ r" None]
      by (simp add: colon_hex_Cons hd_colon_hex)
  qed
qed

lemma parseIPv6_full:
  assumes "length gs = 8" "\<forall>g\<in>set gs. g < 65536"
  shows "parseIPv6 (colon_hex gs) = Some (ungroups gs)"
proof -
  have "gs \<noteq> []" using assms(1) by auto
  then have "take 2 (colon_hex gs) \<noteq> ''::''"
    using hd_colon_hex [of gs] by (cases "colon_hex gs") auto
  with \<open>gs \<noteq> []\<close> assms show ?thesis
    by (simp add: parseIPv6_def parseIPv6_loop_groups parseIPv6_finish_def)
qed

lemma parseIPv6_compressed:
  assumes "length gs + 2 \<le> 8 - length hs" "length hs \<le> 6"
    and "\<forall>g\<in>set gs. g < 65536" "\<forall>g\<in>set hs. g < 65536"
  shows "parseIPv6 (colon_hex gs @ ''::'' @ colon_hex hs) =
     Some (ungroups gs @ replicate (16 - 2 * length gs - 2 * length hs) 0 @ ungroups hs)"
proof (cases "gs = []")
  case True
  with assms show ?thesis
    by (auto simp: parseIPv6_def parseIPv6_loop_groups parseIPv6_finish_def)
next
  case False
  have "take 2 (colon_hex gs @ ''::'' @ colon_hex hs) \<noteq> ''::''"
    using False hd_colon_hex [of gs] by (cases "colon_hex gs") auto
  then have *: "parseIPv6 (colon_hex gs @ ''::'' @ colon_hex hs) =
      Option.bind (parseIPv6_loop (colon_hex gs @ ''::'' @ colon_hex hs) [] None) parseIPv6_finish"
    by (simp add: parseIPv6_def)
  show ?thesis
    unfolding *
    using False assms
    by (auto simp: parseIPv6_loop_ellipsis [of gs "[]", simplified] parseIPv6_loop_groups
        parseIPv6_finish_def)
qed


text \<open>Every sixteen byte address is read back from its text form.\<close>

lemma groups_split:
  assumes "length ip = 16" "zero_run (groups ip) (e0, n)"
  shows "ip = ungroups (take e0 (groups ip)) @ replicate (2 * n) 0 @ ungroups (drop (e0 + n) (groups ip))"
proof -
  let ?gs = "groups ip"
  have z: "ungroups (take n (drop e0 ?gs)) = replicate (2 * n) 0"
    using assms by (subst ungroups_zeros) (auto simp: zero_run_def length_groups)
  have "?gs = take e0 ?gs @ take n (drop e0 ?gs) @ drop (e0 + n) ?gs"
    by (metis add.commute append_take_drop_id drop_drop)
  then have "ungroups ?gs = ungroups (take e0 ?gs) @ replicate (2 * n) 0 @ ungroups (drop (e0 + n) ?gs)"
    by (metis ungroups_simps(3) z)
  then show ?thesis
    using assms(1) by (simp add: ungroups_groups)
qed

lemma parseIPv6_print:
  assumes "length ip = 16" "To4 ip = None"
  shows "parseIPv6 (IP_String ip) = Some ip"
proof -
  let ?gs = "groups ip"
  obtain e0 n where run: "longest_run ?gs 0 (0, 0) = (e0, n)" by fastforce
  have len: "length ?gs = 8" and bound: "\<forall>g\<in>set ?gs. g < 65536"
    using assms(1) groups_bound by (auto simp: length_groups)
  have "zero_run ?gs (e0, n)"
    using longest_run_zero [of ?gs "(0, 0)" 0] run by (simp add: zero_run_def)
  note split = groups_split [OF assms(1) this] and zr = this
  show ?thesis
  proof (cases "n \<le> 1")
    case True
    then have "IP_String ip = colon_hex ?gs"
      using assms run by (auto simp: IP_String_def Let_def)
    then show ?thesis
      using len bound assms(1) by (simp add: parseIPv6_full ungroups_groups)
  next
    case False
    have "e0 + n \<le> 8" using zr len by (simp add: zero_run_def)
    then have "parseIPv6 (colon_hex (take e0 ?gs) @ ''::'' @ colon_hex (drop (e0 + n) ?gs)) = Some ip"
      using False bound len split
      by (subst parseIPv6_compressed) (auto dest: in_set_takeD in_set_dropD simp: algebra_simps)
    moreover have "IP_String ip = colon_hex (take e0 ?gs) @ ''::'' @ colon_hex (drop (e0 + n) ?gs)"
      using False assms run by (auto simp: IP_String_def Let_def)
    ultimately show ?thesis by simp
  qed
qed

text \<open>The bytes of the text: dotted decimal has no colon, the other form has a colon and no dot.\<close>

lemma set_Join: "x \<in> set (Join ps c) \<Longrightarrow> x = c \<or> (\<exists>p\<in>set ps. x \<in> set p)"
  by (induction ps c rule: Join.induct) auto

lemma colon_hex_free: "\<not> is_dig 16 c \<Longrightarrow> c \<noteq> CHR '':'' \<Longrightarrow> c \<notin> set (colon_hex gs)"
  using show_base_free [of 16 c] by (auto simp: colon_hex_def dest!: set_Join)

lemma IP_String_v6_chars:
  assumes "length ip = 16" "To4 ip = None"
  shows "CHR '':'' \<in> set (IP_String ip)" "CHR ''.'' \<notin> set (IP_String ip)"
    "CHR ''/'' \<notin> set (IP_String ip)"
proof -
  obtain x y r where gs: "groups ip = x # y # r"
    using length_groups [of ip] assms(1) by (cases "groups ip" rule: remdups_adj.cases) auto
  then have "CHR '':'' \<in> set (colon_hex (groups ip))"
    by (simp add: colon_hex_def)
  moreover obtain e0 n where "longest_run (groups ip) 0 (0, 0) = (e0, n)" by fastforce
  ultimately show "CHR '':'' \<in> set (IP_String ip)" "CHR ''.'' \<notin> set (IP_String ip)"
    "CHR ''/'' \<notin> set (IP_String ip)"
    using assms colon_hex_free [of "CHR ''.''"] colon_hex_free [of "CHR ''/''"]
    by (auto simp: IP_String_def Let_def)
qed

lemma IP_String_v4:
  assumes "length ip = 16" "To4 ip = Some p4"
  shows "IP_String ip = Join (map (\<lambda>b. show_base 10 (unat b)) p4) CHR ''.''"
    "length p4 = 4" "ip = v4InV6Prefix @ p4"
proof -
  have "p4 = drop 12 ip" "take 12 ip = v4InV6Prefix" "ip \<noteq> []"
    using assms by (auto simp: To4_def split: if_splits)
  with assms show "IP_String ip = Join (map (\<lambda>b. show_base 10 (unat b)) p4) CHR ''.''"
    "length p4 = 4" "ip = v4InV6Prefix @ p4"
    using append_take_drop_id [of 12 ip] by (auto simp: IP_String_def)
qed

lemma IP_String_v4_chars:
  assumes "length ip = 16" "To4 ip = Some p4"
  shows "CHR ''/'' \<notin> set (IP_String ip)"
  using IP_String_v4(1) [OF assms] show_base_free [of 10 "CHR ''/''"]
  by (auto dest!: set_Join)

lemma ParseIP_v6: "CHR '':'' \<in> set s \<Longrightarrow> CHR ''.'' \<notin> set s \<Longrightarrow> ParseIP s = parseIPv6 s"
proof -
  assume *: "CHR '':'' \<in> set s" "CHR ''.'' \<notin> set s"
  let ?P = "\<lambda>c. c \<noteq> CHR ''.'' \<and> c \<noteq> CHR '':''"
  obtain c r where d: "dropWhile ?P s = c # r"
    using * by (cases "dropWhile ?P s") (auto simp: dropWhile_eq_Nil_conv)
  then have "\<not> ?P c" "c \<in> set s"
    using hd_dropWhile [of ?P s] set_dropWhileD [of c ?P s] by auto
  with * d show ?thesis
    by (auto simp: ParseIP_def)
qed

lemma ParseIP_v4_print:
  "length p4 = 4 \<Longrightarrow> ParseIP (Join (map (\<lambda>b. show_base 10 (unat b)) p4) CHR ''.'') = Some (v4InV6Prefix @ p4)"
proof -
  assume len: "length p4 = 4"
  let ?P = "\<lambda>c. c \<noteq> CHR ''.'' \<and> c \<noteq> CHR '':''" and ?s = "\<lambda>b::byte. show_base 10 (unat b)"
  obtain q r qs where p4: "p4 = q # r # qs"
    using len by (cases p4 rule: remdups_adj.cases) auto
  have "list_all ?P (?s q)"
    using show_base_free [of 10 "CHR ''.''" "unat q"] show_base_free [of 10 "CHR '':''" "unat q"]
    by (auto simp: list_all_iff)
  then have "\<exists>t. dropWhile ?P (Join (map ?s p4) CHR ''.'') = CHR ''.'' # t"
    using dropWhile_stop [of ?P "?s q" "CHR ''.''"] by (simp add: p4)
  with len show ?thesis
    by (auto simp: ParseIP_def parseIPv4_print)
qed

theorem ParseIP_String: "length ip = 16 \<Longrightarrow> ParseIP (IP_String ip) = Some ip"
proof (cases "To4 ip")
  case None
  assume "length ip = 16"
  with None show ?thesis
    using IP_String_v6_chars [of ip] by (simp add: ParseIP_v6 parseIPv6_print)
next
  case (Some p4)
  assume "length ip = 16"
  from IP_String_v4 [OF this Some] show ?thesis
    by (simp add: ParseIP_v4_print)
qed

lemma IP_String_inj: "length a = 16 \<Longrightarrow> length b = 16 \<Longrightarrow> IP_String a = IP_String b \<longleftrightarrow> a = b"
  by (metis ParseIP_String option.inject)

section \<open>What the parsers return\<close>

lemma read_num_split:
  "read_num b s = Some (n, c) \<Longrightarrow> set s = set (takeWhile (is_dig b) s) \<union> set (drop c s)"
  by (auto simp: read_num_def Let_def dropWhile_eq_drop [symmetric] split: if_splits
      simp del: set_append simp flip: set_append)

lemma parseIPv4_loop_chars:
  "parseIPv4_loop k s p = Some r \<Longrightarrow> length r = length p + k \<and> CHR '':'' \<notin> set s"
proof (induction k s p rule: parseIPv4_loop.induct)
  case (1 s p)
  then show ?case by (auto split: if_splits)
next
  case (2 k s p)
  let ?s = "if p \<noteq> [] then tl s else s"
  from "2.prems" obtain n c where *: "dtoi ?s = Some (n, c)" "s \<noteq> []" "p \<noteq> [] \<Longrightarrow> hd s = CHR ''.''"
    "parseIPv4_loop k (drop c ?s) (p @ [of_nat n]) = Some r"
    by (auto simp: Let_def split: if_splits option.splits)
  have "length r = Suc (length p) + k" "CHR '':'' \<notin> set (drop c ?s)"
    using 2 * by (auto simp: Let_def split: if_splits)
  moreover have "CHR '':'' \<notin> set (takeWhile (is_dig 10) ?s)"
    by (auto dest: set_takeWhileD)
  ultimately show ?case
    using read_num_split [OF *(1)] *(2,3) by (cases s) (auto split: if_splits)
qed

lemma parseIPv4_length: "parseIPv4 s = Some ip \<Longrightarrow> length ip = 16"
  using parseIPv4_loop_chars [of 4 s "[]"] by (auto simp: parseIPv4_def v4InV6Prefix_def)

lemma parseIPv4_colon: "CHR '':'' \<in> set s \<Longrightarrow> parseIPv4 s = None"
  using parseIPv4_loop_chars [of 4 s "[]"] by (cases "parseIPv4 s") (auto simp: parseIPv4_def)

definition loop_shape :: "bytes \<Rightarrow> nat option \<Rightarrow> bool" where
  "loop_shape acc ell \<longleftrightarrow> even (length acc) \<and> length acc \<le> 16 \<and> (\<forall>e. ell = Some e \<longrightarrow> e \<le> length acc)"

lemma loop_shape_grow:
  assumes "loop_shape acc ell" "length acc < 16"
  shows "loop_shape (acc @ [x, y]) ell" "loop_shape (acc @ [x, y]) (Some (length (acc @ [x, y])))"
proof -
  have "length acc + 2 \<le> 16"
    using assms by (auto simp: loop_shape_def elim!: evenE)
  with assms show "loop_shape (acc @ [x, y]) ell"
    "loop_shape (acc @ [x, y]) (Some (length (acc @ [x, y])))"
    by (auto simp: loop_shape_def)
qed

lemma parseIPv6_loop_shape:
  "parseIPv6_loop s acc ell = Some (r, e) \<Longrightarrow> loop_shape acc ell \<Longrightarrow> loop_shape r e"
proof (induction s acc ell rule: parseIPv6_loop.induct)
  case (1 s acc ell)
  show ?case
  proof (cases "16 \<le> length acc")
    case True
    with 1 show ?thesis
      by (subst (asm) parseIPv6_loop.simps) (auto split: if_splits)
  next
    case False
    then have short: "length acc < 16" by simp
    obtain n c where num: "xtoi s = Some (n, c)" "\<not> 0xFFFF < n"
      using "1.prems"(1) False by (subst (asm) parseIPv6_loop.simps) (auto split: option.splits if_splits)
    let ?acc = "acc @ [of_nat (n div 256), of_nat n]"
    note grow = loop_shape_grow [OF "1.prems"(2) short]
    show ?thesis
    proof (cases "c < length s \<and> s ! c = CHR ''.''")
      case True
      then show ?thesis
        using "1.prems" num False
        by (subst (asm) parseIPv6_loop.simps)
          (auto simp: loop_shape_def parseIPv4_length split: if_splits)
    next
      case dot: False
      show ?thesis
        using "1.prems"(1) num False dot grow
          "1.IH"(1) [OF False num(1) _ num(2) dot refl refl]
          "1.IH"(2) [OF False num(1) _ num(2) dot refl refl]
        by (subst (asm) parseIPv6_loop.simps) (auto simp: Let_def split: if_splits)
    qed
  qed
qed

lemma parseIPv6_finish_length: "loop_shape r e \<Longrightarrow> parseIPv6_finish (r, e) = Some ip \<Longrightarrow> length ip = 16"
  by (auto simp: parseIPv6_finish_def loop_shape_def split: if_splits option.splits)

lemma parseIPv6_length: "parseIPv6 s = Some ip \<Longrightarrow> length ip = 16"
  using parseIPv6_loop_shape [of s "[]" None] parseIPv6_loop_shape [of "drop 2 s" "[]" "Some 0"]
  by (auto simp: parseIPv6_def bind_eq_Some_conv loop_shape_def
      intro: parseIPv6_finish_length split: if_splits)

lemma ParseIP_length: "ParseIP s = Some ip \<Longrightarrow> length ip = 16"
  by (auto simp: ParseIP_def dest: parseIPv4_length parseIPv6_length split: list.splits if_splits)

section \<open>Masks\<close>

lemma length_mask_bytes [simp]: "length (mask_bytes l n) = l"
  by (induction l n rule: mask_bytes.induct) auto

lemma mask_bytes_zero: "mask_bytes l 0 = replicate l 0"
  by (induction l) (auto simp: not_eq_complement)

lemma lead_ones_partial:
  "n < 8 \<Longrightarrow> lead_ones 8 (NOT (drop_bit n 0xff)) = (n, 0) \<and> NOT (drop_bit n 0xff :: byte) \<noteq> 0xff"
proof -
  have "\<forall>n\<in>{0,1,2,3,4,5,6,7}.
      lead_ones 8 (NOT (drop_bit n 0xff)) = (n, 0) \<and> NOT (drop_bit n 0xff :: byte) \<noteq> 0xff"
    by code_simp
  moreover assume "n < 8"
  then have "n \<in> {0,1,2,3,4,5,6,7}" by auto
  ultimately show ?thesis by blast
qed

lemma simpleMaskLength_mask_bytes: "n \<le> 8 * l \<Longrightarrow> simpleMaskLength (mask_bytes l n) = Some n"
proof (induction l n rule: mask_bytes.induct)
  case (1 n)
  then show ?case by simp
next
  case (2 l n)
  show ?case
  proof (cases "8 \<le> n")
    case True
    with 2 show ?thesis by simp
  next
    case False
    then show ?thesis
      using lead_ones_partial [of n] by (simp add: mask_bytes_zero list_all_iff)
  qed
qed

lemma drop_mask_bytes: "drop k (mask_bytes l n) = mask_bytes (l - k) (n - 8 * k)"
proof (induction k arbitrary: l n)
  case 0
  then show ?case by simp
next
  case (Suc k)
  then show ?case
    by (cases l) (auto simp: mask_bytes_zero algebra_simps)
qed

lemma CIDRMask_128: "k \<le> 128 \<Longrightarrow> CIDRMask (int k) 128 = Some (mask_bytes 16 k)"
  by (simp add: CIDRMask_def)

lemma CIDRMask_32: "k \<le> 32 \<Longrightarrow> CIDRMask (int k) 32 = Some (mask_bytes 4 k)"
  by (simp add: CIDRMask_def)

section \<open>Networks\<close>

lemma read_num_print_all:
  assumes "k \<le> 128"
  shows "dtoi (show_base 10 k) = Some (k, length (show_base 10 k))"
  using read_num_show [of 10 k "[]"] assms by simp

lemma ParseCIDR_slash:
  assumes "CHR ''/'' \<notin> set a"
  shows "takeWhile (\<lambda>c. c \<noteq> CHR ''/'') (a @ CHR ''/'' # b) = a"
    "dropWhile (\<lambda>c. c \<noteq> CHR ''/'') (a @ CHR ''/'' # b) = CHR ''/'' # b"
  using assms by (auto intro: takeWhile_stop dropWhile_stop simp: list_all_iff)

lemma ParseCIDR_print6:
  assumes "length ip = 16" "To4 ip = None" "k \<le> 128"
  shows "ParseCIDR (IP_String ip @ CHR ''/'' # show_base 10 k) =
     Some (ip, \<lparr>net_IP = IP_Mask ip (mask_bytes 16 k), net_Mask = Some (mask_bytes 16 k)\<rparr>)"
  using assms IP_String_v6_chars [OF assms(1,2)]
  by (simp add: ParseCIDR_def ParseCIDR_slash parseIPv4_colon parseIPv6_print read_num_print_all
      CIDRMask_128 Let_def)

lemma ParseCIDR_print4:
  assumes "length ip = 16" "To4 ip = Some p4" "k \<le> 32"
  shows "ParseCIDR (IP_String ip @ CHR ''/'' # show_base 10 k) =
     Some (ip, \<lparr>net_IP = IP_Mask ip (mask_bytes 4 k), net_Mask = Some (mask_bytes 4 k)\<rparr>)"
  using assms IP_String_v4 [OF assms(1,2)] IP_String_v4_chars [OF assms(1,2)]
  by (simp add: ParseCIDR_def ParseCIDR_slash parseIPv4_print read_num_print_all
      CIDRMask_32 Let_def)

text \<open>The networks the program builds: sixteen address bytes and a mask from \<open>CIDRMask\<close>.\<close>

definition wf_net :: "IPNet \<Rightarrow> bool" where
  "wf_net n \<longleftrightarrow>
     (\<exists>ip k. length ip = 16 \<and> k \<le> 128 \<and> n = \<lparr>net_IP = Some ip, net_Mask = Some (mask_bytes 16 k)\<rparr>)"

lemma IPNet_String_v6:
  "length ip = 16 \<Longrightarrow> To4 ip = None \<Longrightarrow> k \<le> 128 \<Longrightarrow>
   IPNet_String \<lparr>net_IP = Some ip, net_Mask = Some (mask_bytes 16 k)\<rparr> =
   IP_String ip @ CHR ''/'' # show_base 10 k"
  by (simp add: IPNet_String_def networkNumberAndMask_def simpleMaskLength_mask_bytes)

lemma To4_idem: "To4 ip = Some p4 \<Longrightarrow> To4 p4 = Some p4 \<and> length p4 = 4"
  by (auto simp: To4_def split: if_splits)

lemma IP_String_To4: "To4 ip = Some p4 \<Longrightarrow> IP_String p4 = IP_String ip"
  by (auto simp: IP_String_def dest: To4_idem simp: To4_def split: if_splits)

lemma IPNet_String_v4:
  assumes "To4 ip = Some p4" "l = 4 \<and> k \<le> 32 \<or> l = 16 \<and> k \<le> 128"
  shows "IPNet_String \<lparr>net_IP = Some ip, net_Mask = Some (mask_bytes l k)\<rparr> =
     IP_String ip @ CHR ''/'' # show_base 10 (if l = 4 then k else k - 96)"
proof -
  have "simpleMaskLength (mask_bytes 4 (k - 96)) = Some (k - 96)" if "k \<le> 128"
    using that by (intro simpleMaskLength_mask_bytes) auto
  then show ?thesis
    using assms IP_String_To4 [OF assms(1)]
    by (auto simp: IPNet_String_def networkNumberAndMask_def simpleMaskLength_mask_bytes drop_mask_bytes)
qed

lemma parseIPv4_To4: "parseIPv4 s = Some ip \<Longrightarrow> \<exists>p4. To4 ip = Some p4"
  using parseIPv4_length [of s ip] by (auto simp: parseIPv4_def To4_def v4InV6Prefix_def)

lemma ParseCIDR_shape:
  assumes "ParseCIDR s = Some (ip, n)"
  shows "length ip = 16"
    "\<exists>l k. net_Mask n = Some (mask_bytes l k) \<and>
      (l = 16 \<and> k \<le> 128 \<or> l = 4 \<and> k \<le> 32 \<and> To4 ip \<noteq> None)"
proof -
  let ?a = "takeWhile (\<lambda>c. c \<noteq> CHR ''/'') s"
  consider (v4) a where "parseIPv4 ?a = Some ip" "\<not> 32 < a"
        "n = \<lparr>net_IP = IP_Mask ip (mask_bytes 4 a), net_Mask = Some (mask_bytes 4 a)\<rparr>"
    | (v6) a where "parseIPv6 ?a = Some ip" "\<not> 128 < a"
        "n = \<lparr>net_IP = IP_Mask ip (mask_bytes 16 a), net_Mask = Some (mask_bytes 16 a)\<rparr>"
    using assms
    by (auto simp: ParseCIDR_def Let_def CIDRMask_32 CIDRMask_128 split: option.splits if_splits)
  then show "length ip = 16"
    "\<exists>l k. net_Mask n = Some (mask_bytes l k) \<and>
      (l = 16 \<and> k \<le> 128 \<or> l = 4 \<and> k \<le> 32 \<and> To4 ip \<noteq> None)"
    by (cases; use parseIPv4_length parseIPv6_length parseIPv4_To4 in \<open>fastforce simp: not_less\<close>)+
qed

lemma mask_bytes_inj: "j \<le> 8 * l \<Longrightarrow> k \<le> 8 * l \<Longrightarrow> mask_bytes l j = mask_bytes l k \<longleftrightarrow> j = k"
  by (metis simpleMaskLength_mask_bytes option.inject)

lemma IP_String_no_slash: "length ip = 16 \<Longrightarrow> CHR ''/'' \<notin> set (IP_String ip)"
  using IP_String_v6_chars(3) IP_String_v4_chars by (cases "To4 ip") auto

text \<open>Texts of networks agree exactly when the parts before and after the slash do.\<close>

lemma IPNet_text_eq:
  assumes "length a = 16" "length b = 16"
  shows "IP_String a @ CHR ''/'' # s = IP_String b @ CHR ''/'' # t \<longleftrightarrow>
     IP_String a = IP_String b \<and> s = t"
  using ParseCIDR_slash(1) [OF IP_String_no_slash [OF assms(1)], of s]
    ParseCIDR_slash(1) [OF IP_String_no_slash [OF assms(2)], of t] by auto

section \<open>Evaluation\<close>

text \<open>The equations with which the simplifier computes on closed texts and addresses.\<close>

lemma numeral_loops:
  "parseIPv4_loop (numeral k) s p =
     (if s = [] then None
      else if p \<noteq> [] \<and> hd s \<noteq> CHR ''.'' then None
      else (let s = (if p \<noteq> [] then tl s else s) in
        case dtoi s of
          None \<Rightarrow> None
        | Some (n, c) \<Rightarrow>
            if 0xFF < n then None
            else if 1 < c \<and> hd s = CHR ''0'' then None
            else parseIPv4_loop (pred_numeral k) (drop c s) (p @ [of_nat n])))"
  "mask_bytes (numeral k) n =
     (if 8 \<le> n then 0xff # mask_bytes (pred_numeral k) (n - 8)
      else NOT (drop_bit n 0xff) # mask_bytes (pred_numeral k) 0)"
  "lead_ones (numeral k) v =
     (if v AND 0x80 \<noteq> 0 then (let (n, w) = lead_ones (pred_numeral k) (push_bit 1 v) in (Suc n, w)) else (0, v))"
  "mac_pairs (numeral k) t e =
     (case xtoi2 t e of None \<Rightarrow> None
      | Some b \<Rightarrow> map_option (\<lambda>r. b # r) (mac_pairs (pred_numeral k) (drop 3 t) e))"
  by (simp_all add: numeral_eq_Suc)

lemmas text_eval =
  Let_def read_num_def val_base_def digval_def is_dig_def digch_0 show_base.simps print_int_def
  HasPrefix_def TrimPrefix_def parseIPv4_def parseIPv6_loop.simps parseIPv6_finish_def parseIPv6_def
  ParseIP_def ParseCIDR_def CIDRMask_def IP_Mask_def Mask_Size_def To4_def v4InV6Prefix_def
  ParseMAC_def xtoi2_def numeral_loops

lemma digch_lits:
  "digch (Suc 0) = CHR ''1''" "digch 1 = CHR ''1''" "digch 2 = CHR ''2''" "digch 3 = CHR ''3''"
  "digch 4 = CHR ''4''" "digch 5 = CHR ''5''"
  "digch 6 = CHR ''6''" "digch 7 = CHR ''7''" "digch 8 = CHR ''8''" "digch 9 = CHR ''9''" "digch 10 = CHR ''a''"
  "digch 11 = CHR ''b''" "digch 12 = CHR ''c''" "digch 13 = CHR ''d''" "digch 14 = CHR ''e''" "digch 15 = CHR ''f''"
  by code_simp+

lemma numeral_replicate: "replicate (numeral k) x = x # replicate (pred_numeral k) x"
  by (simp add: numeral_eq_Suc)

lemmas print_eval =
  digch_0 digch_lits numeral_replicate show_base.simps longest_run.simps To4_def v4InV6Prefix_def
  IP_String_def colon_hex_def

end
