(* ===== verification/Util.thy ===== *)
theory Util
  imports GoNetText
begin

text \<open>
  \<open>util.go\<close> without the packet filters: byte order, comparison of a network with its text
  form, masks, and the solicited-node multicast address.
\<close>

section \<open>Byte order\<close>

text \<open>\<open>int(x)\<close> of an unsigned 32-bit value is that value on a 64-bit platform only.\<close>

definition htonl :: "nat \<Rightarrow> int \<Rightarrow> int" where
  "htonl iw num =
     (let un = (word_of_int num :: 32 word)
      in wrap iw (uint (drop_bit 24 un OR push_bit 8 (drop_bit 16 un AND 0xFF)
           OR push_bit 16 (drop_bit 8 un AND 0xFF) OR push_bit 24 (un AND 0xFF))))"

definition htons :: "int \<Rightarrow> int" where
  "htons num =
     (let un = (word_of_int num :: 16 word)
      in uint (drop_bit 8 un OR push_bit 8 (un AND 0xFF)))"

definition bytes2short :: "bytes \<Rightarrow> 32 word go" where
  "bytes2short b =
     go_bind (go_index b 0) (\<lambda>b0. go_bind (go_index b 1) (\<lambda>b1.
       Ret (push_bit 8 (ucast b0) OR ucast b1)))"

definition bytes2int :: "bytes \<Rightarrow> 32 word go" where
  "bytes2int b =
     go_bind (go_index b 0) (\<lambda>b0. go_bind (go_index b 1) (\<lambda>b1.
     go_bind (go_index b 2) (\<lambda>b2. go_bind (go_index b 3) (\<lambda>b3.
       Ret (push_bit 24 (ucast b0) OR push_bit 16 (ucast b1) OR push_bit 8 (ucast b2) OR ucast b3)))))"

section \<open>Networks\<close>

text \<open>
  \<open>cidrEqual\<close> assigns to \<open>cidr2.IP\<close> before it looks at the error: on text that is no
  CIDR, \<open>cidr2\<close> is \<open>nil\<close> and the assignment panics.
\<close>

definition cidrEqual :: "string \<Rightarrow> IPNet \<Rightarrow> bool go" where
  "cidrEqual cidrstr cidr =
     (case ParseCIDR cidrstr of
        None \<Rightarrow> Panic
      | Some (ip2, cidr2) \<Rightarrow>
          (let cidr2 = cidr2\<lparr>net_IP := Some ip2\<rparr>
           in Ret (IPNet_String cidr = IPNet_String cidr2)))"

definition invertMask :: "bytes \<Rightarrow> slice" where
  "invertMask m = (if length m = 0 then None else Some (map NOT m))"

text \<open>\<open>maskedIPAssign\<close> writes through \<open>dst\<close>: the result is the new \<open>dst\<close>.\<close>

definition masked_byte :: "byte \<Rightarrow> byte \<Rightarrow> byte \<Rightarrow> byte" where
  "masked_byte d s m = (s AND m) OR (d AND NOT m)"

definition maskedIPAssign :: "bytes \<Rightarrow> bytes \<Rightarrow> bytes \<Rightarrow> bytes" where
  "maskedIPAssign dst src m =
     (if length dst \<noteq> length src \<or> length dst \<noteq> length m then dst
      else map (\<lambda>i. masked_byte (dst ! i) (src ! i) (m ! i)) [0..<length dst])"

text \<open>\<open>spare\<close> is what the backing array of \<open>ip\<close> holds beyond the slice.\<close>

definition multicastAddr :: "bytes \<Rightarrow> bytes \<Rightarrow> (bytes \<times> bytes) go" where
  "multicastAddr ip spare =
     go_bind (go_slice ip spare 13 16) (\<lambda>low.
       let mcip = [0xff, 0x02, 0, 0, 0, 0, 0, 0, 0x00, 0x00, 0x00, 0x01, 0xff] @ low;
           mcmac = [0x33, 0x33] @ take 4 (drop 12 mcip)
       in Ret (mcip, mcmac))"

section \<open>Swapping bytes twice\<close>

lemma ff_mask: "w AND 0xFF = take_bit 8 (w :: 'a::len word)"
  by (simp add: take_bit_eq_mask mask_eq_decr_exp)

definition swap16 :: "16 word \<Rightarrow> 16 word" where
  "swap16 un = drop_bit 8 un OR push_bit 8 (un AND 0xFF)"

definition swap32 :: "32 word \<Rightarrow> 32 word" where
  "swap32 un = drop_bit 24 un OR push_bit 8 (drop_bit 16 un AND 0xFF)
     OR push_bit 16 (drop_bit 8 un AND 0xFF) OR push_bit 24 (un AND 0xFF)"

lemma htons_swap16: "htons num = uint (swap16 (word_of_int num))"
  by (simp add: htons_def swap16_def Let_def)

lemma htonl_swap32: "htonl iw num = wrap iw (uint (swap32 (word_of_int num)))"
  by (simp add: htonl_def swap32_def Let_def)

lemma swap16_swap16: "swap16 (swap16 w) = w"
  unfolding swap16_def ff_mask by (rule bit_word_eqI) (auto simp: bit_simps)

lemma bit_swap32:
  assumes "r < 8"
  shows "bit (swap32 w) r \<longleftrightarrow> bit w (r + 24)"
    "bit (swap32 w) (r + 8) \<longleftrightarrow> bit w (r + 16)"
    "bit (swap32 w) (r + 16) \<longleftrightarrow> bit w (r + 8)"
    "bit (swap32 w) (r + 24) \<longleftrightarrow> bit w r"
  unfolding swap32_def ff_mask using assms
  by (auto simp: bit_simps algebra_simps dest: bit_imp_le_length)

lemma swap32_swap32: "swap32 (swap32 w) = w"
proof (rule bit_word_eqI)
  fix n
  assume "n < LENGTH(32)"
  then consider "n < 8" | r where "r < 8" "n = r + 8" | r where "r < 8" "n = r + 16"
    | r where "r < 8" "n = r + 24"
    by (cases "n < 8"; cases "n < 16"; cases "n < 24")
      (auto dest!: le_Suc_ex simp: not_less add.commute)
  then show "bit (swap32 (swap32 w)) n \<longleftrightarrow> bit w n"
    by cases (simp_all add: bit_swap32)
qed

lemma word_of_int_wrap: "iw = 32 \<or> iw = 64 \<Longrightarrow> word_of_int (wrap iw a) = (word_of_int a :: 32 word)"
proof -
  have "wrap iw a mod 2 ^ 32 = a mod 2 ^ 32" if "iw = 32 \<or> iw = 64"
  proof -
    have "(2::int) ^ 32 dvd 2 ^ iw" "(2::int) ^ iw dvd (a + 2 ^ (iw - 1)) - (a + 2 ^ (iw - 1)) mod 2 ^ iw"
      using that by (auto intro: le_imp_power_dvd)
    then have "(2::int) ^ 32 dvd a - wrap iw a"
      by (auto simp: wrap_def algebra_simps intro: dvd_trans)
    then show ?thesis by (metis mod_eq_dvd_iff)
  qed
  moreover assume "iw = 32 \<or> iw = 64"
  ultimately show ?thesis
    by (simp add: word_of_int_eq_iff take_bit_eq_mod)
qed

section \<open>Addresses as 128-bit numbers\<close>

text \<open>The abstract view of an address: its sixteen bytes, most significant first.\<close>

definition addr_of :: "bytes \<Rightarrow> 128 word" where
  "addr_of b = foldl (\<lambda>a x. push_bit 8 a OR ucast x) 0 b"

lemma bit_addr_of:
  "bit (addr_of b) n \<longleftrightarrow> n < 128 \<and> n < 8 * length b \<and> bit (b ! (length b - 1 - n div 8)) (n mod 8)"
proof (induction b arbitrary: n rule: rev_induct)
  case Nil
  then show ?case by (simp add: addr_of_def)
next
  case (snoc x xs)
  have *: "addr_of (xs @ [x]) = push_bit 8 (addr_of xs) OR ucast x"
    by (simp add: addr_of_def)
  show ?case
  proof (cases "n < 8")
    case True
    then show ?thesis
      by (auto simp: * bit_simps nth_append)
  next
    case False
    then obtain m where n: "n = m + 8" by (metis add.commute le_add_diff_inverse not_less)
    have "length xs - Suc (m div 8) < length xs" if "m < 8 * length xs"
      using that by (cases xs) auto
    then show ?thesis
      using bit_imp_le_length [of x "m + 8"]
      by (auto simp: * n bit_simps snoc.IH nth_append div_add_self2)
  qed
qed

text \<open>A prefix mask of length \<open>k\<close> has exactly the \<open>k\<close> top bits.\<close>

lemma bit_mask_bytes:
  "i < l \<Longrightarrow> bit (mask_bytes l k ! i) j \<longleftrightarrow> j < 8 \<and> 8 * i + (7 - j) < k"
proof (induction l k arbitrary: i rule: mask_bytes.induct)
  case (1 n)
  then show ?case by simp
next
  case (2 l n)
  have ff: "(0xff :: byte) = mask 8" by (simp add: mask_eq_decr_exp)
  show ?case
  proof (cases i)
    case 0
    then show ?thesis
      unfolding ff mask_bytes.simps by (auto simp: bit_simps)
  next
    case (Suc i')
    with 2 show ?thesis by (auto simp: mask_bytes_zero)
  qed
qed

lemma bit_addr_of_mask: "k \<le> 128 \<Longrightarrow> bit (addr_of (mask_bytes 16 k)) n \<longleftrightarrow> n < 128 \<and> 128 - k \<le> n"
proof -
  assume "k \<le> 128"
  have "8 * (15 - n div 8) + (7 - n mod 8) < k \<longleftrightarrow> 128 - k \<le> n" if "n < 128"
  proof -
    have "n div 8 < 16" "n mod 8 < 8" using that by auto
    moreover have "n = 8 * (n div 8) + n mod 8" by simp
    ultimately show ?thesis using \<open>k \<le> 128\<close> by linarith
  qed
  then show ?thesis
    by (auto simp: bit_addr_of bit_mask_bytes)
qed

lemma length_maskedIPAssign [simp]: "length (maskedIPAssign dst src m) = length dst"
  by (simp add: maskedIPAssign_def)

lemma maskedIPAssign_addr:
  assumes "length dst = 16" "length src = 16" "length m = 16"
  shows "addr_of (maskedIPAssign dst src m) =
     (addr_of src AND addr_of m) OR (addr_of dst AND NOT (addr_of m))"
proof (rule bit_word_eqI)
  fix i
  assume "i < LENGTH(128)"
  moreover have "15 - i div 8 < 16" by simp
  ultimately show "bit (addr_of (maskedIPAssign dst src m)) i \<longleftrightarrow>
      bit ((addr_of src AND addr_of m) OR (addr_of dst AND NOT (addr_of m))) i"
    using assms by (auto simp: bit_addr_of maskedIPAssign_def masked_byte_def bit_simps)
qed

section \<open>Properties\<close>

text \<open>Swapping the byte order twice gives the number back, truncated to its width; \<open>htonl\<close>
  returns it as an \<open>int\<close>, which is negative for the upper half on a 32-bit platform.\<close>

theorem byte_order_involution:
  assumes "iw = 32 \<or> iw = 64"
  shows "htons (htons n) = n mod 2 ^ 16 \<and> htonl iw (htonl iw n) = wrap iw (n mod 2 ^ 32)"
proof
  show "htons (htons n) = n mod 2 ^ 16"
    by (simp add: htons_swap16 swap16_swap16 uint_word_of_int_eq take_bit_eq_mod)
  have "uint (swap32 (word_of_int (htonl iw n))) = n mod 2 ^ 32"
    by (simp add: htonl_swap32 word_of_int_wrap [OF assms] swap32_swap32 uint_word_of_int_eq
        take_bit_eq_mod)
  then show "htonl iw (htonl iw n) = wrap iw (n mod 2 ^ 32)"
    by (simp add: htonl_swap32 [of iw "htonl iw n"])
qed

theorem byte_order_involution_witness:
  "htons (htons 0x86dd) = 0x86dd mod 2 ^ 16 \<and>
   htonl 32 (htonl 32 0xfe800001) = wrap 32 (0xfe800001 mod 2 ^ 32)"
  using byte_order_involution [of 32 "0x86dd"] byte_order_involution [of 32 "0xfe800001"] by simp

text \<open>On sixteen byte slices \<open>maskedIPAssign\<close> takes the masked bits of the source and keeps the
  other bits of the destination; slices of different lengths leave the destination as it was.\<close>

theorem maskedIPAssign_bits:
  assumes "length dst = 16" "length src = n" "length m = n"
  shows "addr_of (maskedIPAssign dst src m) =
     (if n = 16 then (addr_of src AND addr_of m) OR (addr_of dst AND NOT (addr_of m)) else addr_of dst)"
proof (cases "n = 16")
  case True
  with assms show ?thesis by (simp add: maskedIPAssign_addr)
next
  case False
  with assms show ?thesis by (auto simp: maskedIPAssign_def)
qed

theorem maskedIPAssign_bits_witness:
  "maskedIPAssign (replicate 15 0 @ [7]) (replicate 16 0x20) (mask_bytes 16 64) =
     replicate 8 0x20 @ replicate 7 0 @ [7] \<and>
   addr_of (maskedIPAssign (replicate 15 0 @ [7]) (replicate 16 0x20) (mask_bytes 16 64)) =
     (addr_of (replicate 16 0x20) AND addr_of (mask_bytes 16 64)) OR
     (addr_of (replicate 15 0 @ [7]) AND NOT (addr_of (mask_bytes 16 64)))"
proof
  show "maskedIPAssign (replicate 15 0 @ [7]) (replicate 16 0x20) (mask_bytes 16 64) =
      replicate 8 0x20 @ replicate 7 0 @ [7]"
    by code_simp
  show "addr_of (maskedIPAssign (replicate 15 0 @ [7]) (replicate 16 0x20) (mask_bytes 16 64)) =
     (addr_of (replicate 16 0x20) AND addr_of (mask_bytes 16 64)) OR
     (addr_of (replicate 15 0 @ [7]) AND NOT (addr_of (mask_bytes 16 64)))"
    using maskedIPAssign_bits [of "replicate 15 0 @ [7]" "replicate 16 0x20" 16 "mask_bytes 16 64"]
    by (simp del: mask_bytes.simps)
qed

text \<open>The solicited-node multicast address of a sixteen byte target is \<open>ff02::1:ff00:0/104\<close>
  with the last three bytes of the target, its hardware address is \<open>33:33\<close> with the last four
  bytes of the group, and two targets share the group exactly when their last three bytes agree.\<close>

theorem multicastAddr_group:
  assumes "length ip = 16" "length ip' = 16"
  shows "\<exists>g mac. multicastAddr ip spare = Ret (g, mac) \<and> length g = 16 \<and>
     take 13 g = [0xff, 0x02, 0, 0, 0, 0, 0, 0, 0, 0, 0, 1, 0xff] \<and> drop 13 g = drop 13 ip \<and>
     mac = [0x33, 0x33] @ drop 12 g \<and>
     (multicastAddr ip' spare' = multicastAddr ip spare \<longleftrightarrow> drop 13 ip' = drop 13 ip)"
proof -
  have "take 3 (drop 13 ip) = drop 13 ip" "take 3 (drop 13 ip') = drop 13 ip'"
    using assms by simp_all
  then show ?thesis
    using assms by (auto simp: multicastAddr_def go_slice_def Let_def)
qed

theorem multicastAddr_group_witness:
  "\<exists>g mac. multicastAddr (replicate 13 9 @ [1, 2, 3]) [] = Ret (g, mac) \<and> length g = 16 \<and>
     take 13 g = [0xff, 0x02, 0, 0, 0, 0, 0, 0, 0, 0, 0, 1, 0xff] \<and>
     drop 13 g = drop 13 (replicate 13 9 @ [1, 2, 3]) \<and> mac = [0x33, 0x33] @ drop 12 g \<and>
     (multicastAddr (replicate 13 8 @ [1, 2, 3]) [5] = multicastAddr (replicate 13 9 @ [1, 2, 3]) [] \<longleftrightarrow>
      drop 13 (replicate 13 8 @ [1, 2, 3]) = drop 13 (replicate 13 (9 :: byte) @ [1, 2, 3]))"
  by (rule multicastAddr_group) simp_all

text \<open>C36: for a network of the program's shape whose address is no IPv4 one, \<open>cidrEqual\<close> holds
  exactly of the texts that parse to the same address and the same mask; the network's own text is
  one of them; and on text that is no CIDR it panics.\<close>

theorem cidrEqual_correct:
  assumes "length ip = 16" "To4 ip = None" "k \<le> 128"
  shows "(cidrEqual s \<lparr>net_IP = Some ip, net_Mask = Some (mask_bytes 16 k)\<rparr> = Ret True \<longleftrightarrow>
      (\<exists>n. ParseCIDR s = Some (ip, n) \<and> net_Mask n = Some (mask_bytes 16 k))) \<and>
     (cidrEqual s \<lparr>net_IP = Some ip, net_Mask = Some (mask_bytes 16 k)\<rparr> = Panic \<longleftrightarrow>
      ParseCIDR s = None)"
proof -
  let ?N = "\<lparr>net_IP = Some ip, net_Mask = Some (mask_bytes 16 k)\<rparr>"
  have "IPNet_String ?N = IPNet_String (n\<lparr>net_IP := Some ip2\<rparr>) \<longleftrightarrow>
      ip2 = ip \<and> net_Mask n = Some (mask_bytes 16 k)" if p: "ParseCIDR s = Some (ip2, n)" for ip2 n
  proof -
    note len2 = ParseCIDR_shape(1) [OF p]
    obtain l j where n: "n\<lparr>net_IP := Some ip2\<rparr> = \<lparr>net_IP = Some ip2, net_Mask = Some (mask_bytes l j)\<rparr>"
        "net_Mask n = Some (mask_bytes l j)"
      and lj: "l = 16 \<and> j \<le> 128 \<or> l = 4 \<and> j \<le> 32 \<and> To4 ip2 \<noteq> None"
      using ParseCIDR_shape(2) [OF p] by (cases n) auto
    show ?thesis
    proof (cases "To4 ip2")
      case None
      then have "l = 16" "j \<le> 128" using lj by auto
      moreover have "IPNet_String (n\<lparr>net_IP := Some ip2\<rparr>) = IP_String ip2 @ CHR ''/'' # show_base 10 j"
        unfolding n(1) using None \<open>l = 16\<close> \<open>j \<le> 128\<close> len2 by (simp add: IPNet_String_v6)
      ultimately show ?thesis
        using None n(2) assms len2
        by (auto simp: IPNet_String_v6 IPNet_text_eq IP_String_inj mask_bytes_inj show_base_inj)
    next
      case (Some p4)
      then have "\<exists>t. IPNet_String (n\<lparr>net_IP := Some ip2\<rparr>) = IP_String ip2 @ CHR ''/'' # t"
        unfolding n(1) using lj IPNet_String_v4 [OF Some, of l j] by auto
      then have "IPNet_String ?N \<noteq> IPNet_String (n\<lparr>net_IP := Some ip2\<rparr>)"
        using assms len2 Some by (auto simp: IPNet_String_v6 IPNet_text_eq IP_String_inj)
      with Some assms show ?thesis by auto
    qed
  qed
  then show ?thesis
    by (auto simp: cidrEqual_def Let_def split: option.splits)
qed

theorem cidrEqual_correct_witness:
  "let ip = [0x20, 1, 0xd, 0xb8] @ replicate 11 0 @ [1] in
   (cidrEqual ''2001:db8::1/64'' \<lparr>net_IP = Some ip, net_Mask = Some (mask_bytes 16 64)\<rparr> = Ret True \<longleftrightarrow>
      (\<exists>n. ParseCIDR ''2001:db8::1/64'' = Some (ip, n) \<and> net_Mask n = Some (mask_bytes 16 64))) \<and>
   (cidrEqual ''2001:db8::1/64'' \<lparr>net_IP = Some ip, net_Mask = Some (mask_bytes 16 64)\<rparr> = Panic \<longleftrightarrow>
      ParseCIDR ''2001:db8::1/64'' = None)"
  unfolding Let_def by (rule cidrEqual_correct) (simp, code_simp, simp)

text \<open>A network's own text is equal to it, for IPv4 addresses in sixteen bytes as well.\<close>

lemma cidrEqual_own_text:
  assumes "wf_net n"
  shows "cidrEqual (IPNet_String n) n = Ret True"
proof -
  obtain ip k where n: "length ip = 16" "k \<le> 128"
      "n = \<lparr>net_IP = Some ip, net_Mask = Some (mask_bytes 16 k)\<rparr>"
    using assms by (auto simp: wf_net_def)
  show ?thesis
  proof (cases "To4 ip")
    case None
    with n show ?thesis
      by (simp add: cidrEqual_def IPNet_String_v6 ParseCIDR_print6)
  next
    case (Some p4)
    have "k - 96 \<le> 32" using n(2) by simp
    with Some n show ?thesis
      by (simp add: cidrEqual_def IPNet_String_v4 ParseCIDR_print4)
  qed
qed

text \<open>The address and the mask that are read back from it.\<close>

lemma ParseCIDR_own:
  assumes "wf_net n"
  shows "\<exists>m. ParseCIDR (IPNet_String n) = Some (bs (net_IP n), m) \<and>
     (To4 (bs (net_IP n)) = None \<longrightarrow> net_Mask m = net_Mask n)"
proof -
  obtain ip k where n: "length ip = 16" "k \<le> 128"
      "n = \<lparr>net_IP = Some ip, net_Mask = Some (mask_bytes 16 k)\<rparr>"
    using assms by (auto simp: wf_net_def)
  show ?thesis
  proof (cases "To4 ip")
    case None
    with n show ?thesis by (simp add: IPNet_String_v6 ParseCIDR_print6)
  next
    case (Some p4)
    have "k - 96 \<le> 32" using n(2) by simp
    with Some n show ?thesis by (simp add: IPNet_String_v4 ParseCIDR_print4)
  qed
qed

text \<open>A text that is equal to a network holds its address.\<close>

lemma cidrEqual_address:
  assumes "wf_net n" "cidrEqual s n = Ret True"
  shows "\<exists>m. ParseCIDR s = Some (bs (net_IP n), m)"
proof -
  obtain ip2 n2 where p: "ParseCIDR s = Some (ip2, n2)" "IPNet_String n = IPNet_String (n2\<lparr>net_IP := Some ip2\<rparr>)"
    using assms(2) by (auto simp: cidrEqual_def split: option.splits)
  have form: "\<exists>t. IPNet_String \<lparr>net_IP = Some ip, net_Mask = Some (mask_bytes l k)\<rparr> = IP_String ip @ CHR ''/'' # t"
    if "l = 16 \<and> k \<le> 128 \<or> l = 4 \<and> k \<le> 32 \<and> To4 ip \<noteq> None" "length ip = 16" for ip l k
    using that IPNet_String_v4 [of ip _ l k] by (cases "To4 ip") (auto simp: IPNet_String_v6)
  obtain ip k where n: "length ip = 16" "k \<le> 128"
      "n = \<lparr>net_IP = Some ip, net_Mask = Some (mask_bytes 16 k)\<rparr>"
    using assms(1) by (auto simp: wf_net_def)
  have len2: "length ip2 = 16" by (rule ParseCIDR_shape(1) [OF p(1)])
  obtain l j where n2: "n2\<lparr>net_IP := Some ip2\<rparr> = \<lparr>net_IP = Some ip2, net_Mask = Some (mask_bytes l j)\<rparr>"
      "l = 16 \<and> j \<le> 128 \<or> l = 4 \<and> j \<le> 32 \<and> To4 ip2 \<noteq> None"
    using ParseCIDR_shape(2) [OF p(1)] by (cases n2) auto
  obtain t where t: "IPNet_String n = IP_String ip @ CHR ''/'' # t" using form [of 16 k ip] n by auto
  obtain t2 where t2: "IPNet_String (n2\<lparr>net_IP := Some ip2\<rparr>) = IP_String ip2 @ CHR ''/'' # t2"
    unfolding n2(1) using form [OF n2(2) len2] by blast
  have "IP_String ip = IP_String ip2"
    using p(2) unfolding t t2 IPNet_text_eq [OF n(1) len2] by simp
  with n(1) len2 have "ip2 = ip" by (simp add: IP_String_inj)
  with p(1) n(3) show ?thesis by auto
qed

end
