(* ===== verification/Filters.thy ===== *)
theory Filters
  imports Util
begin

text \<open>
  The packet filters: the programs of \<open>sock.go\<close> that select router advertisements and
  neighbour discovery, and \<open>bpfWithDot1Q\<close> of \<open>util.go\<close>, which puts a filter behind a
  VLAN test. A filter is a list of classic BPF instructions of package \<open>golang.org/x/net/bpf\<close>
  (the constructors and fields are its names; the instructions the program does not build are left
  out). The kernel runs it: its documented behaviour is the hypothesis \<open>bpf_machine\<close>.
\<close>

section \<open>Instructions\<close>

datatype aluop = ALUOpAnd

datatype insn =
    LoadAbsolute (Off: "32 word") (Size: nat)
  | JumpIf (Val: "32 word") (SkipTrue: nat) (SkipFalse: nat)
  | ALUOpConstant (Op: aluop) (Val: "32 word")
  | RetConstant (Val: "32 word")

section \<open>The programs\<close>

definition bpfMulticast :: "bool \<Rightarrow> insn list" where
  "bpfMulticast not' =
     (if not' then
        [LoadAbsolute 0 2, JumpIf 0x3333 0 3, LoadAbsolute 12 2, JumpIf 0x86dd 0 1,
         RetConstant 0, RetConstant 262144]
      else
        [LoadAbsolute 0 2, JumpIf 0x3333 0 3, LoadAbsolute 12 2, JumpIf 0x86dd 0 1,
         RetConstant 262144, RetConstant 0])"

definition bpfRA :: "insn list" where
  "bpfRA =
     [LoadAbsolute 12 2, JumpIf 0x86dd 0 5, LoadAbsolute 20 1, JumpIf 0x3a 0 3,
      LoadAbsolute 54 1, JumpIf 134 0 1, RetConstant 262144, RetConstant 0]"

definition bpfND :: "insn list" where
  "bpfND =
     [LoadAbsolute 0 2, JumpIf 0x3333 0 7, LoadAbsolute 12 2, JumpIf 0x86dd 0 5,
      LoadAbsolute 20 1, JumpIf 0x3a 0 3, LoadAbsolute 54 1, JumpIf 135 0 1,
      RetConstant 262144, RetConstant 0]"

definition bpfICMPv6 :: "int \<Rightarrow> insn list" where
  "bpfICMPv6 id' =
     [LoadAbsolute 12 2, JumpIf 0x86dd 0 5, LoadAbsolute 20 1, JumpIf 0x3a 0 3,
      LoadAbsolute 54 1, JumpIf (word_of_int id') 0 1, RetConstant 262144, RetConstant 0]"

text \<open>The loop over the appended program moves every load from offset 12 on by the tag.\<close>

definition shift_load :: "insn \<Rightarrow> insn" where
  "shift_load i =
     (case i of
        LoadAbsolute off sz \<Rightarrow> if 12 \<le> off then LoadAbsolute (off + 4) sz else i
      | _ \<Rightarrow> i)"

definition bpfWithDot1Q :: "insn list \<Rightarrow> int \<Rightarrow> insn list" where
  "bpfWithDot1Q org id' =
     (if id' = 0 then
        [LoadAbsolute 12 2, JumpIf 0x8100 2 0, JumpIf 0x88a8 1 0, JumpIf 0x9100 0 1,
         RetConstant 0] @ org
      else
        [LoadAbsolute 12 2, JumpIf 0x8100 0 3, LoadAbsolute 14 2, ALUOpConstant ALUOpAnd 0xfff,
         JumpIf (word_of_int id') 1 0, RetConstant 0] @ map shift_load org)"

section \<open>The machine\<close>

text \<open>
  What the kernel documents of the four instructions: a load reads \<open>Size\<close> bytes, most
  significant first, and rejects the packet where they lie beyond its end; a jump skips instructions;
  a return ends the run with the number of bytes to accept. \<open>run prog a pkt\<close> is the result of
  the rest \<open>prog\<close> of a program from the accumulator \<open>a\<close>.
\<close>

definition pkt_load :: "bytes \<Rightarrow> 32 word \<Rightarrow> nat \<Rightarrow> 32 word option" where
  "pkt_load pkt off sz =
     (if unat off + sz \<le> length pkt
      then Some (foldl (\<lambda>v b. push_bit 8 v OR ucast b) 0 (take sz (drop (unat off) pkt)))
      else None)"

type_synonym machine = "insn list \<Rightarrow> 32 word \<Rightarrow> bytes \<Rightarrow> 32 word"

definition bpf_machine :: "machine \<Rightarrow> bool" where
  "bpf_machine run \<longleftrightarrow>
     (\<forall>off sz prog a pkt. run (LoadAbsolute off sz # prog) a pkt =
        (case pkt_load pkt off sz of None \<Rightarrow> 0 | Some v \<Rightarrow> run prog v pkt)) \<and>
     (\<forall>v st sf prog a pkt. run (JumpIf v st sf # prog) a pkt =
        run (drop (if a = v then st else sf) prog) a pkt) \<and>
     (\<forall>v prog a pkt. run (ALUOpConstant ALUOpAnd v # prog) a pkt = run prog (a AND v) pkt) \<and>
     (\<forall>v prog a pkt. run (RetConstant v # prog) a pkt = v)"

text \<open>An interpreter that behaves so, for the witnesses.\<close>

function bpf_ref :: machine where
  "bpf_ref [] a pkt = 0"
| "bpf_ref (LoadAbsolute off sz # prog) a pkt =
     (case pkt_load pkt off sz of None \<Rightarrow> 0 | Some v \<Rightarrow> bpf_ref prog v pkt)"
| "bpf_ref (JumpIf v st sf # prog) a pkt = bpf_ref (drop (if a = v then st else sf) prog) a pkt"
| "bpf_ref (ALUOpConstant ALUOpAnd v # prog) a pkt = bpf_ref prog (a AND v) pkt"
| "bpf_ref (RetConstant v # prog) a pkt = v"
  by pat_completeness auto
termination
  by (relation "measure (\<lambda>(prog, a, pkt). length prog)") auto

lemma bpf_machine_ref: "bpf_machine bpf_ref"
  by (simp add: bpf_machine_def)

lemma bpf_machineD:
  assumes "bpf_machine run"
  shows "run (LoadAbsolute off sz # prog) a pkt =
      (case pkt_load pkt off sz of None \<Rightarrow> 0 | Some v \<Rightarrow> run prog v pkt)"
    "run (JumpIf v st sf # prog) a pkt = run (drop (if a = v then st else sf) prog) a pkt"
    "run (ALUOpConstant ALUOpAnd v # prog) a pkt = run prog (a AND v) pkt"
    "run (RetConstant v # prog) a pkt = v"
  using assms by (simp_all add: bpf_machine_def)

section \<open>Loads\<close>

lemma pkt_load_1: "pkt_load pkt off (Suc 0) = (if unat off < length pkt then Some (ucast (pkt ! unat off)) else None)"
  by (auto simp: pkt_load_def Suc_le_eq take_Suc_conv_app_nth hd_drop_conv_nth take_Suc
      dest: Cons_nth_drop_Suc)

lemma pkt_load_2:
  "pkt_load pkt off 2 =
     (if unat off + 1 < length pkt
      then Some (push_bit 8 (ucast (pkt ! unat off)) OR ucast (pkt ! (unat off + 1))) else None)"
proof (cases "unat off + 1 < length pkt")
  case True
  then have "take 2 (drop (unat off) pkt) = [pkt ! unat off, pkt ! (unat off + 1)]"
    by (simp add: numeral_2_eq_2 Cons_nth_drop_Suc [symmetric] del: drop_Suc)
  with True show ?thesis by (simp add: pkt_load_def)
qed (auto simp: pkt_load_def)

lemma ucast_byte_eq: "(ucast (x :: byte) :: 32 word) = ucast y \<longleftrightarrow> x = y"
proof
  assume eq: "(ucast x :: 32 word) = ucast y"
  have "bit x n \<longleftrightarrow> bit y n" if "n < 8" for n
    using that arg_cong [OF eq, of "\<lambda>w. bit w n"] by (simp add: bit_simps)
  then show "x = y" by (auto intro: bit_word_eqI)
qed simp

lemma short_inj:
  "push_bit 8 (ucast x) OR ucast y = (push_bit 8 (ucast c) OR ucast d :: 32 word) \<longleftrightarrow>
   x = (c :: byte) \<and> y = (d :: byte)"
proof
  assume eq: "push_bit 8 (ucast x) OR ucast y = (push_bit 8 (ucast c) OR ucast d :: 32 word)"
  have hi: "drop_bit 8 (push_bit 8 (ucast u) OR ucast w :: 32 word) = ucast u"
    and lo: "take_bit 8 (push_bit 8 (ucast u) OR ucast w :: 32 word) = ucast w" for u w :: byte
    by (rule bit_word_eqI; auto simp: bit_simps dest: bit_imp_le_length)+
  have "(ucast x :: 32 word) = ucast c" "(ucast y :: 32 word) = ucast d"
    by (metis hi eq) (metis lo eq)
  then show "x = c \<and> y = d"
    by (simp add: ucast_byte_eq)
qed auto

lemma short_eq_3333 [simp]:
  "push_bit 8 (ucast x) OR ucast y = (0x3333 :: 32 word) \<longleftrightarrow> x = (0x33 :: byte) \<and> y = (0x33 :: byte)"
  using short_inj [of x y "0x33" "0x33"] by simp

lemma short_eq_86dd [simp]:
  "push_bit 8 (ucast x) OR ucast y = (0x86dd :: 32 word) \<longleftrightarrow> x = (0x86 :: byte) \<and> y = (0xdd :: byte)"
  using short_inj [of x y "0x86" "0xdd"] by simp

lemma byte_eq_num:
  "(ucast (x :: byte) = (0x3a :: 32 word)) \<longleftrightarrow> x = 0x3a"
  "(ucast x = (135 :: 32 word)) \<longleftrightarrow> x = 135"
  "(ucast x = (134 :: 32 word)) \<longleftrightarrow> x = 134"
  using ucast_byte_eq [of x "0x3a"] ucast_byte_eq [of x 135] ucast_byte_eq [of x 134] by simp_all

section \<open>What the filters accept\<close>

text \<open>An Ethernet frame with an IPv6 packet whose next header is ICMPv6, of a given type.\<close>

definition icmpv6_frame :: "bytes \<Rightarrow> 32 word \<Rightarrow> bool" where
  "icmpv6_frame pkt t \<longleftrightarrow>
     54 < length pkt \<and> take 2 (drop 12 pkt) = [0x86, 0xdd] \<and> pkt ! 20 = 0x3a \<and> ucast (pkt ! 54) = t"

lemma take2_drop_eq:
  "i + 1 < length pkt \<Longrightarrow> take 2 (drop i pkt) = [x, y] \<longleftrightarrow> pkt ! i = x \<and> pkt ! (i + 1) = y"
proof -
  assume "i + 1 < length pkt"
  then have "take 2 (drop i pkt) = [pkt ! i, pkt ! (i + 1)]"
    by (simp add: numeral_2_eq_2 Cons_nth_drop_Suc [symmetric] del: drop_Suc)
  then show ?thesis by simp
qed

text \<open>The tail that all three programs share.\<close>

lemma icmp_tail:
  assumes "bpf_machine run"
  shows "run [LoadAbsolute 12 2, JumpIf 0x86dd 0 5, LoadAbsolute 20 1, JumpIf 0x3a 0 3,
      LoadAbsolute 54 1, JumpIf t 0 1, RetConstant 262144, RetConstant 0] a pkt =
     (if icmpv6_frame pkt t then 262144 else 0)"
  by (auto simp: bpf_machineD [OF assms] icmpv6_frame_def pkt_load_1 pkt_load_2
      take2_drop_eq [of 12, simplified] byte_eq_num)

text \<open>On a machine that runs BPF as documented, the filter for router advertisements and the one
  for an ICMPv6 type accept exactly the Ethernet frames that carry ICMPv6 of that type (134 for the
  former), with the snap length 262144, and drop everything else.\<close>

theorem icmpv6_filters:
  assumes "bpf_machine run"
  shows "run bpfRA a pkt = (if icmpv6_frame pkt 134 then 262144 else 0) \<and>
     run (bpfICMPv6 t) a pkt = (if icmpv6_frame pkt (word_of_int t) then 262144 else 0)"
  unfolding bpfRA_def bpfICMPv6_def by (simp only: icmp_tail [OF assms] simp_thms)

lemma nd_filter_run:
  assumes "bpf_machine run"
  shows "run bpfND a pkt =
     (if take 2 pkt = [0x33, 0x33] \<and> icmpv6_frame pkt 135 then 262144 else 0)"
proof (cases "1 < length pkt")
  case True
  have tail: "run (drop 2 bpfND) v pkt = (if icmpv6_frame pkt 135 then 262144 else 0)" for v
    using icmp_tail [OF assms] by (simp add: bpfND_def)
  have "bpfND = LoadAbsolute 0 2 # JumpIf 0x3333 0 7 # drop 2 bpfND" and "drop 9 bpfND = [RetConstant 0]"
    by (simp_all add: bpfND_def)
  with True tail show ?thesis
    using take2_drop_eq [of 0 pkt "0x33" "0x33"]
    by (auto simp: bpf_machineD [OF assms] pkt_load_2 bpfND_def)
next
  case False
  then show ?thesis
    by (simp add: bpf_machineD [OF assms] pkt_load_2 bpfND_def icmpv6_frame_def)
qed

text \<open>C16: on such a machine the filter of the neighbour discovery proxy accepts exactly the neighbour
  solicitations (ICMPv6 type 135) sent to an IPv6 multicast hardware address.\<close>

theorem nd_filter:
  assumes "bpf_machine run"
  shows "run bpfND a pkt =
     (if take 2 pkt = [0x33, 0x33] \<and> icmpv6_frame pkt 135 then 262144 else 0)"
  using assms by (rule nd_filter_run)

text \<open>The witnesses run the filters on a solicitation and an advertisement of 55 bytes.\<close>

definition sample_frame :: "byte \<Rightarrow> bytes" where
  "sample_frame t =
     [0x33, 0x33] @ replicate 10 0 @ [0x86, 0xdd] @ replicate 6 0 @ [0x3a] @ replicate 33 0 @ [t]"

theorem icmpv6_filters_witness:
  "icmpv6_frame (sample_frame 134) 134 \<and> bpf_ref bpfRA 0 (sample_frame 134) = 262144 \<and>
   bpf_ref (bpfICMPv6 136) 0 (sample_frame 134) = 0"
proof -
  have "icmpv6_frame (sample_frame 134) 134" "\<not> icmpv6_frame (sample_frame 134) (word_of_int 136)"
    by code_simp+
  then show ?thesis
    using icmpv6_filters [OF bpf_machine_ref, of 0 "sample_frame 134" 136] by simp
qed

theorem nd_filter_witness:
  "bpf_ref bpfND 0 (sample_frame 135) = 262144 \<and> bpf_ref bpfND 0 (sample_frame 134) = 0"
proof -
  have "icmpv6_frame (sample_frame 135) 135" "\<not> icmpv6_frame (sample_frame 134) 135"
    "take 2 (sample_frame 135) = [0x33, 0x33]"
    by code_simp+
  then show ?thesis
    using nd_filter [OF bpf_machine_ref, of 0 "sample_frame 135"]
      nd_filter [OF bpf_machine_ref, of 0 "sample_frame 134"] by simp
qed

section \<open>A filter behind a VLAN tag\<close>

text \<open>
  \<open>safe\<close>: every run of the program ends at a return. \<open>loads_ok\<close>: no load reads across
  offset 12, where the tag is inserted.
\<close>

function safe :: "insn list \<Rightarrow> bool" where
  "safe [] \<longleftrightarrow> False"
| "safe (RetConstant v # prog) \<longleftrightarrow> True"
| "safe (LoadAbsolute off sz # prog) \<longleftrightarrow> safe prog"
| "safe (ALUOpConstant opr v # prog) \<longleftrightarrow> safe prog"
| "safe (JumpIf v st sf # prog) \<longleftrightarrow> safe (drop st prog) \<and> safe (drop sf prog)"
  by pat_completeness auto
termination
  by (relation "measure length") auto

fun loads_ok :: "insn \<Rightarrow> bool" where
  "loads_ok (LoadAbsolute off sz) \<longleftrightarrow> unat off + sz \<le> 12 \<or> 12 \<le> unat off \<and> unat off + 4 < 2 ^ 32"
| "loads_ok _ \<longleftrightarrow> True"

text \<open>The packet without the four bytes of the tag.\<close>

definition untag :: "bytes \<Rightarrow> bytes" where
  "untag pkt = take 12 pkt @ drop 16 pkt"

lemma pkt_load_untag:
  assumes "16 \<le> length pkt" "loads_ok (LoadAbsolute off sz)"
  shows "pkt_load (untag pkt) off sz = pkt_load pkt (if 12 \<le> off then off + 4 else off) sz"
proof (cases "12 \<le> unat off")
  case True
  then have "12 \<le> off" by (simp add: word_le_nat_alt)
  moreover have "unat (off + 4) = unat off + 4" if "unat off + 4 < 2 ^ 32"
    using that by (simp add: unat_word_ariths)
  moreover have "drop (unat off) (untag pkt) = drop (unat off + 4) pkt"
    using True assms(1) by (simp add: untag_def add.commute)
  ultimately show ?thesis
    using True assms by (auto simp: pkt_load_def untag_def)
next
  case False
  then have "\<not> 12 \<le> off" by (simp add: word_le_nat_alt)
  moreover have "take sz (drop (unat off) (untag pkt)) = take sz (drop (unat off) pkt)"
    using False assms by (auto simp: untag_def take_drop min_def)
  ultimately show ?thesis
    using False assms by (auto simp: pkt_load_def untag_def)
qed

lemma run_shifted:
  assumes "bpf_machine run" "16 \<le> length pkt"
  shows "safe prog \<Longrightarrow> list_all loads_ok prog \<Longrightarrow>
     run (map shift_load prog) a pkt = run prog a (untag pkt)"
proof (induction prog arbitrary: a rule: safe.induct)
  case (3 off sz prog)
  then show ?case
    using pkt_load_untag [OF assms(2), of off sz]
    by (auto simp: bpf_machineD [OF assms(1)] shift_load_def split: option.splits)
next
  case (4 opr v prog)
  then show ?case
    by (cases opr) (simp add: bpf_machineD [OF assms(1)] shift_load_def)
next
  case (5 v st sf prog)
  have "list_all loads_ok (drop n prog)" for n
    using 5(4) by (auto simp: list_all_iff dest: in_set_dropD)
  with 5 show ?case
    by (simp add: bpf_machineD [OF assms(1)] shift_load_def drop_map)
qed (simp_all add: bpf_machineD [OF assms(1)] shift_load_def)

text \<open>C14: on a machine that runs BPF as documented, \<open>bpfWithDot1Q\<close> with a VLAN identifier accepts a
  packet exactly if it has an 802.1Q tag with that identifier and the original filter accepts the
  packet without its tag; with identifier 0 it rejects every packet with one of the three tag types
  and leaves the others to the original filter. The filter must end every run at a return and no
  load may straddle the place of the tag.\<close>

theorem bpfWithDot1Q_correct:
  assumes "bpf_machine run" "safe org" "list_all loads_ok org"
  shows "run (bpfWithDot1Q org vid) a pkt =
    (case pkt_load pkt 12 2 of
       None \<Rightarrow> 0
     | Some ty \<Rightarrow>
         if vid = 0 then (if ty \<in> {0x8100, 0x88a8, 0x9100} then 0 else run org ty pkt)
         else (case pkt_load pkt 14 2 of
             None \<Rightarrow> 0
           | Some tci \<Rightarrow>
               if ty = 0x8100 \<and> tci AND 0xfff = word_of_int vid
               then run org (tci AND 0xfff) (untag pkt) else 0))"
proof (cases "vid = 0")
  case True
  then show ?thesis
    by (auto simp: bpfWithDot1Q_def bpf_machineD [OF assms(1)] split: option.splits)
next
  case False
  have len: "16 \<le> length pkt" if "pkt_load pkt 14 2 = Some tci" for tci
    using that by (auto simp: pkt_load_def split: if_splits)
  show ?thesis
  proof (cases "pkt_load pkt 14 2")
    case None
    with False show ?thesis
      by (auto simp: bpfWithDot1Q_def bpf_machineD [OF assms(1)] split: option.splits)
  next
    case (Some tci)
    with False show ?thesis
      using run_shifted [OF assms(1) len [OF Some] assms(2,3)]
      by (auto simp: bpfWithDot1Q_def bpf_machineD [OF assms(1)] split: option.splits)
  qed
qed

text \<open>The program's own filters meet the condition.\<close>

lemma filters_wrappable:
  "safe bpfRA" "safe bpfND" "safe (bpfICMPv6 t)" "safe (bpfMulticast b)"
  "list_all loads_ok bpfRA" "list_all loads_ok bpfND" "list_all loads_ok (bpfICMPv6 t)"
  "list_all loads_ok (bpfMulticast b)"
  by (simp_all add: bpfRA_def bpfND_def bpfICMPv6_def bpfMulticast_def)

definition tag_frame :: "bytes \<Rightarrow> bytes \<Rightarrow> bytes" where
  "tag_frame tci pkt = take 12 pkt @ [0x81, 0x00] @ tci @ drop 12 pkt"

theorem bpfWithDot1Q_correct_witness:
  "bpf_ref (bpfWithDot1Q bpfND 101) 0 (tag_frame [0x20, 101] (sample_frame 135)) = 262144 \<and>
   bpf_ref (bpfWithDot1Q bpfND 0) 0 (tag_frame [0x20, 101] (sample_frame 135)) = 0"
proof -
  let ?p = "tag_frame [0x20, 101] (sample_frame 135)"
  have p: "pkt_load ?p 12 2 = Some 0x8100" "pkt_load ?p 14 2 = Some 0x2065" "untag ?p = sample_frame 135"
    "icmpv6_frame (sample_frame 135) 135" "take 2 (sample_frame 135) = [0x33, 0x33]"
    by code_simp+
  then have "bpf_ref bpfND 101 (sample_frame 135) = 262144"
    by code_simp
  with p show ?thesis
    using bpfWithDot1Q_correct [OF bpf_machine_ref filters_wrappable(2,6), of 101 0 ?p]
      bpfWithDot1Q_correct [OF bpf_machine_ref filters_wrappable(2,6), of 0 0 ?p] by simp
qed

end
