(* ===== verification/Resolve.thy ===== *)
theory Resolve
  imports Util
begin

text \<open>
  The flexible addresses of \<open>ra.go\<close> and their resolution against the last router
  advertisement: \<open>FlexibleIP\<close>, its text form, \<open>RouterInfo\<close> and
  \<open>RAClient.ResolveFIP\<close>, with the interface the neighbour discovery proxy uses.
\<close>

section \<open>Flexible addresses\<close>

record FlexibleIP =
  fip_raPrefix :: bool
  fip_ip :: slice
  fip_cidr :: int

definition FlexibleIP_String :: "FlexibleIP \<Rightarrow> string" where
  "FlexibleIP_String f =
     (case fip_ip f of
        None \<Rightarrow> ''ra-prefix''
      | Some ip \<Rightarrow>
          if fip_cidr f = -1 then ''ra-prefix'' @ IP_String ip
          else ''ra-prefix'' @ IP_String ip @ ''/'' @ print_int (fip_cidr f))"

record RouterInfo =
  ri_prefix :: IPNet
  ri_gateway :: slice

section \<open>Resolution\<close>

text \<open>
  \<open>make(net.IP, 16)\<close> and \<open>copy\<close>: as many bytes as fit, zeros behind them.
\<close>

definition copy16 :: "slice \<Rightarrow> bytes" where
  "copy16 src = take 16 (bs src) @ replicate (16 - length (bs src)) 0"

text \<open>
  \<open>rinfo\<close> is the router information read under the lock. A bare length \<open>-1\<close> without
  the prefix flag dereferences it unchecked.
\<close>

definition ResolveFIP :: "RouterInfo option \<Rightarrow> FlexibleIP \<Rightarrow> IPNet option go" where
  "ResolveFIP rinfo fip =
     (let ip = copy16 (fip_ip fip) in
      if fip_raPrefix fip \<and> rinfo = None then Ret None
      else
        (let ip = (case rinfo of
             Some ri \<Rightarrow>
               if fip_raPrefix fip
               then maskedIPAssign ip (bs (net_IP (ri_prefix ri))) (bs (net_Mask (ri_prefix ri))) else ip
           | None \<Rightarrow> ip)
         in if fip_cidr fip = -1 then
              (case rinfo of
                 None \<Rightarrow> Panic
               | Some ri \<Rightarrow>
                   Ret (Some \<lparr>net_IP = Some ip, net_Mask = Some (copy16 (net_Mask (ri_prefix ri)))\<rparr>))
            else Ret (Some \<lparr>net_IP = Some ip, net_Mask = CIDRMask (fip_cidr fip) 128\<rparr>)))"

section \<open>Well-formedness\<close>

text \<open>What the configuration parser makes of an address.\<close>

definition wf_fip :: "FlexibleIP \<Rightarrow> bool" where
  "wf_fip f \<longleftrightarrow>
     (if fip_cidr f = -1 then fip_raPrefix f \<and> fip_ip f = None
      else 0 \<le> fip_cidr f \<and> fip_cidr f \<le> 128 \<and> length (bs (fip_ip f)) = 16)"

text \<open>
  What \<open>receive\<close> can make of an advertisement: no prefix at all, or sixteen bytes and the mask
  that \<open>CIDRMask\<close> returns for a length byte, which is \<open>nil\<close> beyond 128.
\<close>

definition rinfo_shape :: "RouterInfo \<Rightarrow> bool" where
  "rinfo_shape ri \<longleftrightarrow>
     ri_prefix ri = \<lparr>net_IP = None, net_Mask = None\<rparr> \<or>
     (\<exists>ip k. length ip = 16 \<and> ri_prefix ri = \<lparr>net_IP = Some ip, net_Mask = CIDRMask (int k) 128\<rparr>)"

lemma length_copy16 [simp]: "length (copy16 s) = 16"
  by (simp add: copy16_def)

lemma copy16_simps [simp]:
  "copy16 None = replicate 16 0"
  "length b = 16 \<Longrightarrow> copy16 (Some b) = b"
  by (simp_all add: copy16_def)

lemma CIDRMask_cases:
  "0 \<le> k \<Longrightarrow> CIDRMask k 128 = (if k \<le> 128 then Some (mask_bytes 16 (nat k)) else None)"
  by (simp add: CIDRMask_def)

lemma wf_netI: "length ip = 16 \<Longrightarrow> k \<le> 128 \<Longrightarrow> wf_net \<lparr>net_IP = Some ip, net_Mask = Some (mask_bytes 16 k)\<rparr>"
  by (auto simp: wf_net_def)

text \<open>The mask of the resolved network, for a bare prefix: an absent mask counts as length 0.\<close>

lemma copy16_CIDRMask: "copy16 (CIDRMask (int k) 128) = mask_bytes 16 (if k \<le> 128 then k else 0)"
  by (simp add: CIDRMask_cases mask_bytes_zero)

lemma ResolveFIP_wf:
  assumes "wf_fip f" "\<And>ri. rinfo = Some ri \<Longrightarrow> rinfo_shape ri"
  shows "\<exists>r. ResolveFIP rinfo f = Ret r \<and> (r = None \<longleftrightarrow> fip_raPrefix f \<and> rinfo = None) \<and>
     (\<forall>n. r = Some n \<longrightarrow> wf_net n)"
proof (cases "fip_raPrefix f \<and> rinfo = None")
  case True
  then show ?thesis by (simp add: ResolveFIP_def)
next
  case False
  let ?ip = "case rinfo of
      Some ri \<Rightarrow>
        if fip_raPrefix f
        then maskedIPAssign (copy16 (fip_ip f)) (bs (net_IP (ri_prefix ri))) (bs (net_Mask (ri_prefix ri)))
        else copy16 (fip_ip f)
    | None \<Rightarrow> copy16 (fip_ip f)"
  have len: "length ?ip = 16" by (auto split: option.splits)
  show ?thesis
  proof (cases "fip_cidr f = -1")
    case True
    with False assms(1) obtain ri where ri: "rinfo = Some ri" "fip_raPrefix f"
      by (auto simp: wf_fip_def)
    obtain j where "j \<le> 128" "copy16 (net_Mask (ri_prefix ri)) = mask_bytes 16 j"
      using assms(2) [OF ri(1)] copy16_CIDRMask mask_bytes_zero [of 16]
      by (fastforce simp: rinfo_shape_def split: if_splits)
    with True ri len show ?thesis
      by (auto simp: ResolveFIP_def intro: wf_netI)
  next
    case neq: False
    with assms(1) have "CIDRMask (fip_cidr f) 128 = Some (mask_bytes 16 (nat (fip_cidr f)))"
      "nat (fip_cidr f) \<le> 128"
      by (auto simp: wf_fip_def CIDRMask_cases)
    with False neq len show ?thesis
      by (auto simp: ResolveFIP_def Let_def intro!: wf_netI)
  qed
qed

section \<open>Membership\<close>

text \<open>
  Membership in a network of the program's shape: the first \<open>k\<close> bits agree. An IPv4 address
  in sixteen bytes lies in no IPv6 network, whatever the bits.
\<close>

definition same_prefix :: "nat \<Rightarrow> bytes \<Rightarrow> bytes \<Rightarrow> bool" where
  "same_prefix k a b \<longleftrightarrow> drop_bit (128 - k) (addr_of a) = drop_bit (128 - k) (addr_of b)"

lemma addr_of_inj: "length a = 16 \<Longrightarrow> length b = 16 \<Longrightarrow> addr_of a = addr_of b \<longleftrightarrow> a = b"
proof
  assume len: "length a = 16" "length b = 16" and eq: "addr_of a = addr_of b"
  have "a ! i = b ! i" if "i < 16" for i
  proof (rule bit_word_eqI)
    fix j
    assume "j < LENGTH(8)"
    moreover from this have "(8 * (15 - i) + j) div 8 = 15 - i" "(8 * (15 - i) + j) mod 8 = j"
      "8 * (15 - i) + j < 128"
      using that by auto
    moreover have "bit (addr_of a) (8 * (15 - i) + j) \<longleftrightarrow> bit (addr_of b) (8 * (15 - i) + j)"
      by (simp add: eq)
    ultimately show "bit (a ! i) j \<longleftrightarrow> bit (b ! i) j"
      using len that by (simp add: bit_addr_of)
  qed
  with len show "a = b" by (auto intro: nth_equalityI)
qed simp

lemma addr_of_map2_and:
  assumes "length a = 16" "length b = 16"
  shows "addr_of (map2 (AND) a b) = addr_of a AND addr_of b"
proof (rule bit_word_eqI)
  fix i
  have "15 - i div 8 < (16 :: nat)" by simp
  with assms show "bit (addr_of (map2 (AND) a b)) i \<longleftrightarrow> bit (addr_of a AND addr_of b) i"
    by (auto simp: bit_addr_of bit_simps)
qed

lemma word_eq_bits: "a = b \<longleftrightarrow> (\<forall>n. bit a n \<longleftrightarrow> bit b n)" for a b :: "'a::len word"
  by (auto intro: bit_word_eqI)

lemma and_mask_eq_same_prefix:
  assumes "k \<le> 128"
  shows "addr_of a AND addr_of (mask_bytes 16 k) = addr_of b AND addr_of (mask_bytes 16 k) \<longleftrightarrow>
     same_prefix k a b"
proof -
  have "(\<forall>n. bit (addr_of a AND addr_of (mask_bytes 16 k)) n \<longleftrightarrow>
          bit (addr_of b AND addr_of (mask_bytes 16 k)) n) \<longleftrightarrow>
      (\<forall>n. bit (drop_bit (128 - k) (addr_of a)) n \<longleftrightarrow> bit (drop_bit (128 - k) (addr_of b)) n)"
    (is "?L \<longleftrightarrow> ?R")
  proof
    assume ?L
    then show ?R
      using assms bit_imp_le_length [of "addr_of a"] bit_imp_le_length [of "addr_of b"]
      by (fastforce simp: bit_simps bit_addr_of_mask)
  next
    assume R: ?R
    show ?L
    proof
      fix n
      show "bit (addr_of a AND addr_of (mask_bytes 16 k)) n \<longleftrightarrow>
          bit (addr_of b AND addr_of (mask_bytes 16 k)) n"
        using R [rule_format, of "n - (128 - k)"] assms by (auto simp: bit_simps bit_addr_of_mask)
    qed
  qed
  then show ?thesis by (simp only: same_prefix_def word_eq_bits)
qed

lemma Contains_iff:
  assumes "length ip = 16" "k \<le> 128" "To4 ip = None" "length t = 16"
  shows "Contains \<lparr>net_IP = Some ip, net_Mask = Some (mask_bytes 16 k)\<rparr> t \<longleftrightarrow>
     To4 t = None \<and> same_prefix k ip t"
proof (cases "To4 t")
  case None
  have "map2 (AND) ip (mask_bytes 16 k) = map2 (AND) t (mask_bytes 16 k) \<longleftrightarrow> same_prefix k ip t"
    using assms by (subst addr_of_inj [symmetric])
      (simp_all add: addr_of_map2_and and_mask_eq_same_prefix)
  with None assms show ?thesis
    by (simp add: Contains_def networkNumberAndMask_def)
next
  case (Some x)
  then have "length x = 4" using To4_idem by blast
  with Some assms show ?thesis
    by (simp add: Contains_def networkNumberAndMask_def)
qed

text \<open>Masking does not turn an IPv6 address into an IPv4 one.\<close>

lemma mask_byte_full: "8 * i + 8 \<le> k \<Longrightarrow> i < 16 \<Longrightarrow> mask_bytes 16 k ! i = 0xff"
proof -
  assume *: "8 * i + 8 \<le> k" "i < 16"
  have ff: "(0xff :: byte) = mask 8" by (simp add: mask_eq_decr_exp)
  show ?thesis
    unfolding ff using * by (intro bit_word_eqI) (auto simp: bit_mask_bytes bit_simps)
qed

lemma masked_zero: "masked_byte 0 s m = s AND m"
  by (simp add: masked_byte_def)

lemma and_or_absorb: "(a AND m OR b AND NOT m) AND m = a AND m" for m :: "'a::len word"
  by (rule bit_word_eqI) (auto simp: bit_and_iff bit_or_iff bit_not_iff)

lemma and_ff [simp]: "x AND 0xff = (x :: byte)"
proof -
  have "(0xff :: byte) = -1" by simp
  then show ?thesis by (simp only: and.right_neutral)
qed

lemma maskedIPAssign_zero_nth:
  "length P = 16 \<Longrightarrow> i < 16 \<Longrightarrow>
   maskedIPAssign (replicate 16 0) P (mask_bytes 16 k) ! i = P ! i AND mask_bytes 16 k ! i"
  by (simp add: maskedIPAssign_def masked_zero del: mask_bytes.simps)

lemma To4_masked:
  assumes P: "length P = 16" "To4 P = None"
  shows "To4 (maskedIPAssign (replicate 16 0) P (mask_bytes 16 k)) = None"
proof (rule ccontr)
  let ?ip = "maskedIPAssign (replicate 16 0) P (mask_bytes 16 k)"
  assume "To4 ?ip \<noteq> None"
  then have pre: "take 12 ?ip = v4InV6Prefix"
    by (auto simp: To4_def split: if_splits)
  then have nth: "?ip ! i = v4InV6Prefix ! i" if "i < 12" for i
    using that by (metis nth_take)
  have "?ip ! 11 = 0xff" using nth [of 11] by (simp add: v4InV6Prefix_def nth_append)
  then have "P ! 11 AND mask_bytes 16 k ! 11 = 0xff"
    using maskedIPAssign_zero_nth [OF P(1), of 11 k] by simp
  then have "bit (P ! 11 AND mask_bytes 16 k ! 11) 0"
    by simp
  then have "96 \<le> k"
    by (simp add: bit_and_iff bit_mask_bytes del: bit_0)
  then have "?ip ! i = P ! i" if "i < 12" for i
    using that maskedIPAssign_zero_nth [OF P(1), of i k] mask_byte_full [of i k] by simp
  then have "take 12 P = take 12 ?ip"
    using P(1) by (intro nth_equalityI) auto
  with P pre show False by (simp add: To4_def)
qed

section \<open>The interface of the proxy\<close>

text \<open>
  What the neighbour discovery proxy needs of the address resolver: on well-formed addresses it
  returns, it returns a network whenever router information is known, and addresses without the
  prefix flag do not depend on that information.
\<close>

locale resolver =
  fixes resolve :: "RouterInfo option \<Rightarrow> FlexibleIP \<Rightarrow> IPNet option go"
  assumes returns: "wf_fip f \<Longrightarrow> (\<And>ri. rinfo = Some ri \<Longrightarrow> rinfo_shape ri) \<Longrightarrow> resolve rinfo f \<noteq> Panic"
    and absent: "wf_fip f \<Longrightarrow> resolve rinfo f = Ret None \<Longrightarrow> fip_raPrefix f \<and> rinfo = None"
    and static: "wf_fip f \<Longrightarrow> \<not> fip_raPrefix f \<Longrightarrow> resolve rinfo f = resolve None f"
begin

lemma known_resolves:
  assumes "wf_fip f" "rinfo_shape ri"
  obtains n where "resolve (Some ri) f = Ret (Some n)"
proof (cases "resolve (Some ri) f")
  case Panic
  with returns [of f "Some ri"] assms show ?thesis by auto
next
  case (Ret r)
  with absent [OF assms(1), of "Some ri"] that show ?thesis by (cases r) auto
qed

lemma static_resolves:
  assumes "wf_fip f" "\<not> fip_raPrefix f"
  obtains n where "\<And>rinfo. resolve rinfo f = Ret (Some n)"
proof (cases "resolve None f")
  case Panic
  with returns [of f None] assms show ?thesis by auto
next
  case (Ret r)
  with absent [OF assms(1), of None] assms(2) obtain n where n: "resolve None f = Ret (Some n)"
    by (cases r) auto
  show ?thesis
  proof (rule that)
    show "resolve rinfo f = Ret (Some n)" for rinfo
      using static [OF assms] n by simp
  qed
qed

end

interpretation ra: resolver ResolveFIP
proof unfold_locales
  show "ResolveFIP rinfo f \<noteq> Panic" if "wf_fip f" "\<And>ri. rinfo = Some ri \<Longrightarrow> rinfo_shape ri" for f rinfo
    using ResolveFIP_wf [OF that(1), of rinfo] that(2) by auto
  show "fip_raPrefix f \<and> rinfo = None" if "wf_fip f" "ResolveFIP rinfo f = Ret None" for f rinfo
    using that by (auto simp: ResolveFIP_def Let_def split: if_splits option.splits)
  show "ResolveFIP rinfo f = ResolveFIP None f" if "wf_fip f" "\<not> fip_raPrefix f" for f rinfo
    using that by (auto simp: ResolveFIP_def wf_fip_def Let_def split: option.splits if_splits)
qed

lemma ra_prefix_default:
  assumes "ri_prefix ri = \<lparr>net_IP = None, net_Mask = None\<rparr> \<or>
     (\<exists>P k. length P = 16 \<and> 128 < k \<and> ri_prefix ri = \<lparr>net_IP = Some P, net_Mask = CIDRMask (int k) 128\<rparr>)"
  shows "\<exists>n. ResolveFIP (Some ri) \<lparr>fip_raPrefix = True, fip_ip = None, fip_cidr = -1\<rparr> = Ret (Some n) \<and>
     IPNet_String n = ''::/0'' \<and> (\<forall>t. length t = 16 \<longrightarrow> To4 t = None \<longrightarrow> Contains n t)"
proof -
  let ?n = "\<lparr>net_IP = Some (replicate 16 0), net_Mask = Some (mask_bytes 16 0)\<rparr>"
  have "ResolveFIP (Some ri) \<lparr>fip_raPrefix = True, fip_ip = None, fip_cidr = -1\<rparr> = Ret (Some ?n)"
    using assms by (auto simp: ResolveFIP_def CIDRMask_def maskedIPAssign_def mask_bytes_zero)
  moreover have "To4 (replicate 16 0) = None" "IPNet_String ?n = ''::/0''"
    by code_simp+
  moreover have "same_prefix 0 (replicate 16 0) t" for t
    by (simp add: same_prefix_def word_eq_bits bit_drop_bit_eq bit_addr_of)
  ultimately show ?thesis
    using Contains_iff [of "replicate 16 0" 0] by simp
qed

section \<open>Properties\<close>

text \<open>C37: on every address the configuration can hold and every router information an advertisement
  can lead to (also one without a prefix, or with a prefix length beyond 128), \<open>ResolveFIP\<close> does
  not panic; it returns \<open>nil\<close> exactly for a router prefix that is not known yet, and otherwise a
  network of sixteen address bytes and a prefix mask.\<close>

theorem ResolveFIP_total:
  assumes "wf_fip f" "\<And>ri. rinfo = Some ri \<Longrightarrow> rinfo_shape ri"
  shows "\<exists>r. ResolveFIP rinfo f = Ret r \<and> (r = None \<longleftrightarrow> fip_raPrefix f \<and> rinfo = None) \<and>
     (\<forall>n. r = Some n \<longrightarrow> wf_net n)"
  using assms by (rule ResolveFIP_wf)

theorem ResolveFIP_total_witness:
  "\<exists>r. ResolveFIP None \<lparr>fip_raPrefix = True, fip_ip = None, fip_cidr = -1\<rparr> = Ret r \<and>
     (r = None \<longleftrightarrow> fip_raPrefix \<lparr>fip_raPrefix = True, fip_ip = None, fip_cidr = -1\<rparr> \<and> (None :: RouterInfo option) = None) \<and>
     (\<forall>n. r = Some n \<longrightarrow> wf_net n)"
  by (rule ResolveFIP_total) (simp_all add: wf_fip_def)

text \<open>C2: with a router prefix \<open>P/k\<close>, a prefix-relative address resolves to the first \<open>k\<close> bits of
  \<open>P\<close> followed by the remaining bits of the configured suffix, with the configured prefix length,
  or \<open>k\<close> if the address is the bare prefix.\<close>

theorem ResolveFIP_bits:
  assumes "wf_fip f" "fip_raPrefix f" "length P = 16" "k \<le> 128"
    and "ri_prefix ri = \<lparr>net_IP = Some P, net_Mask = CIDRMask (int k) 128\<rparr>"
  shows "\<exists>ip. ResolveFIP (Some ri) f = Ret (Some \<lparr>net_IP = Some ip,
         net_Mask = Some (mask_bytes 16 (if fip_cidr f = -1 then k else nat (fip_cidr f)))\<rparr>) \<and>
     addr_of ip = (addr_of P AND addr_of (mask_bytes 16 k)) OR
       (addr_of (copy16 (fip_ip f)) AND NOT (addr_of (mask_bytes 16 k)))"
  using assms maskedIPAssign_addr [of "copy16 (fip_ip f)" P "mask_bytes 16 k"]
  by (cases "fip_cidr f = -1") (auto simp: ResolveFIP_def Let_def CIDRMask_cases wf_fip_def)

text \<open>C27: the bare \<open>ra-prefix\<close> resolves to a network that contains exactly the IPv6 addresses which
  agree with the router's prefix in its first \<open>k\<close> bits.\<close>

theorem ra_prefix_members:
  assumes "length P = 16" "To4 P = None" "k \<le> 128" "length t = 16"
    and "ri_prefix ri = \<lparr>net_IP = Some P, net_Mask = CIDRMask (int k) 128\<rparr>"
  shows "\<exists>n. ResolveFIP (Some ri) \<lparr>fip_raPrefix = True, fip_ip = None, fip_cidr = -1\<rparr> = Ret (Some n) \<and>
     (Contains n t \<longleftrightarrow> To4 t = None \<and> same_prefix k P t)"
proof -
  let ?ip = "maskedIPAssign (replicate 16 0) P (mask_bytes 16 k)"
  have "addr_of ?ip = (addr_of P AND addr_of (mask_bytes 16 k)) OR
      (addr_of (replicate 16 0) AND NOT (addr_of (mask_bytes 16 k)))"
    by (rule maskedIPAssign_addr) (simp_all add: assms(1))
  then have "addr_of ?ip AND addr_of (mask_bytes 16 k) = addr_of P AND addr_of (mask_bytes 16 k)"
    by (simp only: and_or_absorb)
  then have "same_prefix k ?ip t \<longleftrightarrow> same_prefix k P t"
    using and_mask_eq_same_prefix [OF assms(3), of ?ip t] and_mask_eq_same_prefix [OF assms(3), of P t]
    by (simp only:)
  moreover have "To4 ?ip = None"
    using assms by (intro To4_masked)
  moreover have "ResolveFIP (Some ri) \<lparr>fip_raPrefix = True, fip_ip = None, fip_cidr = -1\<rparr> =
      Ret (Some \<lparr>net_IP = Some ?ip, net_Mask = Some (mask_bytes 16 k)\<rparr>)"
    using assms by (simp add: ResolveFIP_def CIDRMask_cases)
  moreover have "length ?ip = 16" by simp
  ultimately show ?thesis
    using assms(3,4) Contains_iff [of ?ip k t] by blast
qed

text \<open>After an advertisement without a prefix option, or with a prefix length beyond 128, the bare
  \<open>ra-prefix\<close> resolves to \<open>::/0\<close>, which contains every IPv6 address.\<close>

theorem ra_prefix_of_nothing:
  assumes "ri_prefix ri = \<lparr>net_IP = None, net_Mask = None\<rparr> \<or>
     (\<exists>P k. length P = 16 \<and> 128 < k \<and> ri_prefix ri = \<lparr>net_IP = Some P, net_Mask = CIDRMask (int k) 128\<rparr>)"
    and "length t = 16" "To4 t = None"
  shows "\<exists>n. ResolveFIP (Some ri) \<lparr>fip_raPrefix = True, fip_ip = None, fip_cidr = -1\<rparr> = Ret (Some n) \<and>
     IPNet_String n = ''::/0'' \<and> Contains n t"
  using ra_prefix_default [OF assms(1)] assms(2,3) by blast

text \<open>The witnesses use the prefix \<open>2001:db8::/64\<close>.\<close>

definition sample_prefix :: bytes where
  "sample_prefix = [0x20, 1, 0xd, 0xb8] @ replicate 12 0"

definition sample_info :: RouterInfo where
  "sample_info =
     \<lparr>ri_prefix = \<lparr>net_IP = Some sample_prefix, net_Mask = CIDRMask (int 64) 128\<rparr>, ri_gateway = None\<rparr>"

definition sample_fip :: FlexibleIP where
  "sample_fip = \<lparr>fip_raPrefix = True, fip_ip = Some (replicate 15 0 @ [1]), fip_cidr = 128\<rparr>"

lemma sample_simps:
  "length sample_prefix = 16" "To4 sample_prefix = None"
  "ri_prefix sample_info = \<lparr>net_IP = Some sample_prefix, net_Mask = CIDRMask (int 64) 128\<rparr>"
  "wf_fip sample_fip" "fip_raPrefix sample_fip" "fip_cidr sample_fip = 128"
  by code_simp+

theorem ResolveFIP_bits_witness:
  "(\<exists>ip. ResolveFIP (Some sample_info) sample_fip = Ret (Some \<lparr>net_IP = Some ip,
         net_Mask = Some (mask_bytes 16 (if fip_cidr sample_fip = -1 then 64 else nat (fip_cidr sample_fip)))\<rparr>) \<and>
     addr_of ip = (addr_of sample_prefix AND addr_of (mask_bytes 16 64)) OR
       (addr_of (copy16 (fip_ip sample_fip)) AND NOT (addr_of (mask_bytes 16 64)))) \<and>
   ResolveFIP (Some sample_info) sample_fip = Ret (Some
     \<lparr>net_IP = Some ([0x20, 1, 0xd, 0xb8] @ replicate 11 0 @ [1]), net_Mask = Some (replicate 16 0xff)\<rparr>)"
proof
  show "\<exists>ip. ResolveFIP (Some sample_info) sample_fip = Ret (Some \<lparr>net_IP = Some ip,
         net_Mask = Some (mask_bytes 16 (if fip_cidr sample_fip = -1 then 64 else nat (fip_cidr sample_fip)))\<rparr>) \<and>
     addr_of ip = (addr_of sample_prefix AND addr_of (mask_bytes 16 64)) OR
       (addr_of (copy16 (fip_ip sample_fip)) AND NOT (addr_of (mask_bytes 16 64)))"
    by (rule ResolveFIP_bits [OF sample_simps(4,5,1) _ sample_simps(3)]) simp
qed code_simp

theorem ra_prefix_members_witness:
  "\<exists>n. ResolveFIP (Some sample_info) \<lparr>fip_raPrefix = True, fip_ip = None, fip_cidr = -1\<rparr> = Ret (Some n) \<and>
     (Contains n sample_prefix \<longleftrightarrow>
      To4 sample_prefix = None \<and> same_prefix 64 sample_prefix sample_prefix)"
  by (rule ra_prefix_members [OF sample_simps(1,2) _ sample_simps(1,3)]) simp

theorem ra_prefix_of_nothing_witness:
  "\<exists>n. ResolveFIP (Some (sample_info\<lparr>ri_prefix := \<lparr>net_IP = None, net_Mask = None\<rparr>\<rparr>))
       \<lparr>fip_raPrefix = True, fip_ip = None, fip_cidr = -1\<rparr> = Ret (Some n) \<and>
     IPNet_String n = ''::/0'' \<and> Contains n sample_prefix"
  by (rule ra_prefix_of_nothing [OF _ sample_simps(1,2)]) simp

end
