(* ===== verification/Config.thy ===== *)
theory Config
  imports Resolve
begin

text \<open>
  \<open>config.go\<close>: the parsers of addresses, interface and pool assignments, and the loaders that
  read the environment, with the configuration records of \<open>ra.go\<close>, \<open>ros.go\<close> and
  \<open>nd.go\<close>. The environment is a function from names to values, the empty string where a
  variable is not set, as \<open>os.Getenv\<close> returns it. The texts of errors are left out: each error
  has a constructor of its own, with the data the message shows.
\<close>

section \<open>Configuration records\<close>

record ROSIPOptions =
  opt_Eui64 :: bool
  opt_Advertise :: bool

record ROSIPAssign =
  ia_ip :: FlexibleIP
  ia_ifname :: string
  ia_options :: ROSIPOptions

record ROSPoolAssign =
  pa_ip :: FlexibleIP
  pa_poolname :: string
  pa_prefixLength :: int

text \<open>A \<open>time.Duration\<close> is a number of nanoseconds in 64 bits.\<close>

record RAConfig =
  rac_mode :: string
  rac_extIfs :: "string list"
  rac_timeout :: int
  rac_rosExtIf :: string
  rac_rosExtIPs :: "ROSIPAssign list"
  rac_rosIntIPs :: "ROSIPAssign list"
  rac_rosPools :: "ROSPoolAssign list"

record ROSConnectConfig =
  rcc_host :: string
  rcc_port :: int
  rcc_username :: string
  rcc_password :: string
  rcc_useTLS :: bool

record MACRef =
  mr_hwaddr :: slice
  mr_rosIf :: string

record NDConfig =
  ndc_mode :: string
  ndc_timeoutMs :: int
  ndc_prefixes :: "FlexibleIP list"
  ndc_excludes :: "FlexibleIP list"
  ndc_extIfs :: "string list"
  ndc_intIfs :: "string list"
  ndc_advMACs :: "MACRef list"

text \<open>The older configuration, which \<open>loadConfig\<close> fills (its \<open>raConfig\<close> is never set).\<close>

record Config =
  lc_prefixes :: "IPNet list"
  lc_ifnames :: "string list"
  lc_routerIPs :: "bytes list"
  lc_routerMAC :: slice

section \<open>Errors\<close>

datatype fip_error = BadAddress string

datatype assign_error =
    AssignFormat string
  | AssignIP string fip_error
  | AssignNoExternal string

datatype pool_error =
    PoolFormat string
  | PoolIP string fip_error
  | PoolLength string num_error

datatype config_error =
    NoPrefixes
  | BadPrefix string
  | BadRouterMAC string
  | NoRouterIPs
  | BadRouterIP string
  | NoROSHost
  | BadRAMode string
  | BadRATimeout num_error
  | BadExternalIP assign_error
  | BadInternalIP assign_error
  | BadPool pool_error
  | BadNDPMode string
  | BadNDPPrefix fip_error
  | RAPrefixWithoutRA
  | BadNDPExclude fip_error
  | NoInternalInterfaces
  | BadNDPTimeout
  | NDPTimeoutRange
  | NoExternalInterface
  | BadAdvertiseMAC string

section \<open>Addresses\<close>

definition parse_address :: "bool \<Rightarrow> string \<Rightarrow> fip_error + FlexibleIP" where
  "parse_address ra ipstr =
     (case ParseCIDR ipstr of
        None \<Rightarrow>
          (case ParseIP ipstr of
             None \<Rightarrow> Inl (BadAddress ipstr)
           | Some ip \<Rightarrow> Inr \<lparr>fip_raPrefix = ra, fip_ip = Some ip, fip_cidr = 128\<rparr>)
      | Some (ip, cidr) \<Rightarrow>
          Inr \<lparr>fip_raPrefix = ra, fip_ip = Some ip, fip_cidr = int (fst (Mask_Size (bs (net_Mask cidr))))\<rparr>)"

definition ParseFlexibleIP :: "string \<Rightarrow> fip_error + FlexibleIP" where
  "ParseFlexibleIP ipstr =
     (if HasPrefix ipstr ''ra-prefix'' then
        (let ipstr = TrimPrefix ipstr ''ra-prefix'' in
         if ipstr = [] then Inr \<lparr>fip_raPrefix = True, fip_ip = None, fip_cidr = -1\<rparr>
         else parse_address True (''0:0:0:0'' @ ipstr))
      else parse_address False ipstr)"

section \<open>Assignments\<close>

text \<open>
  The regular expression \<open>^([^@]+)@(@external|[^@:]+)((?::[-a-z0-9]+)*)$\<close>. The first group
  ends at the first \<open>@\<close>; behind it, a second \<open>@\<close> can only begin \<open>@external\<close>,
  and otherwise the group ends where a byte comes that it excludes.
\<close>

definition opt_char :: "char \<Rightarrow> bool" where
  "opt_char c \<longleftrightarrow>
     (let n = of_char c :: nat in n = 45 \<or> 97 \<le> n \<and> n \<le> 122 \<or> 48 \<le> n \<and> n \<le> 57)"

definition opts_match :: "string \<Rightarrow> bool" where
  "opts_match s \<longleftrightarrow>
     s = [] \<or> hd s = CHR '':'' \<and> list_all (\<lambda>w. w \<noteq> [] \<and> list_all opt_char w) (tl (Split CHR '':'' s))"

definition rosipreg :: "string \<Rightarrow> (string \<times> string \<times> string) option" where
  "rosipreg s =
     (let ipstr = takeWhile (\<lambda>c. c \<noteq> CHR ''@'') s;
          rest = dropWhile (\<lambda>c. c \<noteq> CHR ''@'') s
      in if ipstr = [] \<or> rest = [] then None
         else
           (let after = tl rest;
                stop = (\<lambda>c. c \<noteq> CHR ''@'' \<and> c \<noteq> CHR '':'');
                ifstr = (if HasPrefix after ''@external'' then ''@external'' else takeWhile stop after);
                opts = drop (length ifstr) after
            in if ifstr = [] \<or> \<not> opts_match opts then None else Some (ipstr, ifstr, opts)))"

definition set_option :: "ROSIPOptions \<Rightarrow> string \<Rightarrow> ROSIPOptions" where
  "set_option opts opt =
     (if opt = ''eui-64'' then opts\<lparr>opt_Eui64 := True\<rparr>
      else if opt = ''advertise'' then opts\<lparr>opt_Advertise := True\<rparr>
      else opts)"

definition ParseROSIPAssign :: "string \<Rightarrow> string \<Rightarrow> assign_error + ROSIPAssign" where
  "ParseROSIPAssign config extif =
     (case rosipreg config of
        None \<Rightarrow> Inl (AssignFormat config)
      | Some (ipstr, ifstr, opts) \<Rightarrow>
          (let options = tl (Split CHR '':'' opts) in
           case ParseFlexibleIP ipstr of
             Inl e \<Rightarrow> Inl (AssignIP config e)
           | Inr fip \<Rightarrow>
               if ifstr = ''@external'' \<and> extif = [] then Inl (AssignNoExternal config)
               else
                 (let ifstr = (if ifstr = ''@external'' then extif else ifstr) in
                  Inr \<lparr>ia_ip = fip, ia_ifname = ifstr,
                       ia_options = foldl set_option \<lparr>opt_Eui64 = False, opt_Advertise = False\<rparr> options\<rparr>)))"

definition ParseROSPoolAssign :: "nat \<Rightarrow> string \<Rightarrow> pool_error + ROSPoolAssign" where
  "ParseROSPoolAssign iw config =
     (let parts = Split CHR ''@'' config in
      if length parts \<noteq> 2 then Inl (PoolFormat config)
      else case ParseFlexibleIP (parts ! 0) of
        Inl e \<Rightarrow> Inl (PoolIP config e)
      | Inr fip \<Rightarrow>
          (let poolparts = Split CHR ''/'' (parts ! 1) in
           if length poolparts \<noteq> 2 then Inl (PoolFormat config)
           else case Atoi iw (poolparts ! 1) of
             (_, Some e) \<Rightarrow> Inl (PoolLength config e)
           | (prefixLength, None) \<Rightarrow>
               Inr \<lparr>pa_ip = fip, pa_poolname = poolparts ! 0, pa_prefixLength = prefixLength\<rparr>))"

section \<open>Loading\<close>

type_synonym env = "string \<Rightarrow> string"

definition getenv_default :: "env \<Rightarrow> string \<Rightarrow> string \<Rightarrow> string" where
  "getenv_default env name def = (if env name = [] then def else env name)"

text \<open>The loops over lists of texts: the first error ends the load.\<close>

fun parse_all :: "(string \<Rightarrow> 'e + 'a) \<Rightarrow> string list \<Rightarrow> 'e + 'a list" where
  "parse_all f [] = Inr []"
| "parse_all f (s # ss) =
     (case f s of Inl e \<Rightarrow> Inl e | Inr a \<Rightarrow> map_sum id (\<lambda>as. a # as) (parse_all f ss))"

text \<open>Loops that skip empty texts first.\<close>

definition nonempty :: "string list \<Rightarrow> string list" where
  "nonempty ss = filter (\<lambda>s. s \<noteq> []) ss"

definition loadROSConfig :: "nat \<Rightarrow> env \<Rightarrow> config_error + ROSConnectConfig" where
  "loadROSConfig iw env =
     (let host = env ''ROS_HOST'' in
      if host = [] then Inl NoROSHost
      else
        (let port = (if env ''ROS_PORT'' \<noteq> [] then
                       (case Atoi iw (env ''ROS_PORT'') of
                          (portnum, err) \<Rightarrow> if err \<noteq> None then portnum else 0)
                     else 0);
             username = (if host = [] then ''admin'' else env ''ROS_USER'');
             useTLS = (env ''ROS_USETLS'' = ''1'');
             port = (if port = 0 then (if useTLS then 8729 else 8728) else port)
         in Inr \<lparr>rcc_host = host, rcc_port = port, rcc_username = username,
                 rcc_password = env ''ROS_PASSWORD'', rcc_useTLS = useTLS\<rparr>))"

definition millisecond :: int where
  "millisecond = 1000000"

definition loadRAConfig :: "nat \<Rightarrow> env \<Rightarrow> config_error + RAConfig" where
  "loadRAConfig iw env =
     (let mode = getenv_default env ''RA_MODE'' ''ros'' in
      if mode \<noteq> ''ros'' \<and> mode \<noteq> ''off'' then Inl (BadRAMode mode)
      else
        (let cfg = \<lparr>rac_mode = mode, rac_extIfs = [], rac_timeout = 0, rac_rosExtIf = [],
                    rac_rosExtIPs = [], rac_rosIntIPs = [], rac_rosPools = []\<rparr>
         in if mode = ''off'' then Inr cfg
            else
              (let cfg = cfg\<lparr>rac_extIfs := Split CHR '','' (getenv_default env ''RA_EXTERNAL_INTERFACES'' ''eth0'')\<rparr>
               in case Atoi iw (getenv_default env ''RA_TIMEOUT'' ''5000'') of
                    (_, Some e) \<Rightarrow> Inl (BadRATimeout e)
                  | (timeout, None) \<Rightarrow>
                      (let cfg = cfg\<lparr>rac_timeout := wrap 64 (millisecond * timeout)\<rparr>;
                           extif = env ''RA_ROS_EXTERNAL_INTERFACE'';
                           cfg = cfg\<lparr>rac_rosExtIf := extif\<rparr>
                       in case parse_all (\<lambda>s. ParseROSIPAssign s extif)
                                (nonempty (Split CHR '','' (env ''RA_ROS_EXTERNAL_IPS''))) of
                            Inl e \<Rightarrow> Inl (BadExternalIP e)
                          | Inr eips \<Rightarrow>
                              (case parse_all (\<lambda>s. ParseROSIPAssign s extif)
                                  (nonempty (Split CHR '','' (env ''RA_ROS_INTERNAL_IPS''))) of
                                 Inl e \<Rightarrow> Inl (BadInternalIP e)
                               | Inr iips \<Rightarrow>
                                   (let cfg = cfg\<lparr>rac_rosExtIPs := eips, rac_rosIntIPs := iips\<rparr>;
                                        poolStr = getenv_default env ''RA_ROS_POOLS'' ''ra-prefix@fletsv6-pool/64''
                                    in if poolStr = ''none'' then Inr cfg
                                       else case parse_all (ParseROSPoolAssign iw)
                                              (nonempty (Split CHR '','' poolStr)) of
                                         Inl e \<Rightarrow> Inl (BadPool e)
                                       | Inr pools \<Rightarrow> Inr (cfg\<lparr>rac_rosPools := pools\<rparr>)))))))"

text \<open>The loops of \<open>loadNDConfig\<close>; the last one also finds out whether RouterOS is needed.\<close>

definition nd_prefix :: "RAConfig \<Rightarrow> string \<Rightarrow> config_error + FlexibleIP" where
  "nd_prefix racfg s =
     (case ParseFlexibleIP s of
        Inl e \<Rightarrow> Inl (BadNDPPrefix e)
      | Inr fip \<Rightarrow> if fip_raPrefix fip \<and> rac_mode racfg = ''off'' then Inl RAPrefixWithoutRA else Inr fip)"

definition nd_exclude :: "RAConfig \<Rightarrow> string \<Rightarrow> config_error + FlexibleIP list" where
  "nd_exclude racfg s =
     (if s = ''ra-externalips'' then Inr (map ia_ip (rac_rosExtIPs racfg))
      else if s = ''ra-internalips'' then Inr (map ia_ip (rac_rosIntIPs racfg))
      else case ParseFlexibleIP s of
        Inl e \<Rightarrow> Inl (BadNDPExclude e)
      | Inr fip \<Rightarrow> Inr [fip])"

fun nd_macs :: "RAConfig \<Rightarrow> string list \<Rightarrow> bool \<Rightarrow> config_error + MACRef list \<times> bool" where
  "nd_macs racfg [] needROS = Inr ([], needROS)"
| "nd_macs racfg (m # ms) needROS =
     (if length m = 0 then nd_macs racfg ms needROS
      else if m ! 0 = CHR ''@'' then
        (if m = ''@@external'' \<and> rac_rosExtIf racfg = [] then Inl NoExternalInterface
         else
           (let m = (if m = ''@@external'' then ''@'' @ rac_rosExtIf racfg else m) in
            map_sum id (\<lambda>(refs, need). (\<lparr>mr_hwaddr = None, mr_rosIf = drop 1 m\<rparr> # refs, need))
              (nd_macs racfg ms True)))
      else case ParseMAC m of
        None \<Rightarrow> Inl (BadAdvertiseMAC m)
      | Some hw \<Rightarrow>
          map_sum id (\<lambda>(refs, need). (\<lparr>mr_hwaddr = Some hw, mr_rosIf = []\<rparr> # refs, need))
            (nd_macs racfg ms needROS))"

definition ndp_modes :: "string list" where
  "ndp_modes = [''off'', ''static'', ''proxy'', ''proxy-ros'', ''proxy-ros:strict'']"

definition loadNDConfig :: "nat \<Rightarrow> env \<Rightarrow> RAConfig \<Rightarrow> config_error + NDConfig \<times> bool" where
  "loadNDConfig iw env racfg =
     (let mode = getenv_default env ''NDP_MODE'' ''proxy-ros'';
          cfg = \<lparr>ndc_mode = mode, ndc_timeoutMs = 0, ndc_prefixes = [], ndc_excludes = [],
                 ndc_extIfs = [], ndc_intIfs = [], ndc_advMACs = []\<rparr>
      in if mode \<notin> set ndp_modes then Inl (BadNDPMode mode)
         else if mode = ''off'' then Inr (cfg, False)
         else
           (let needROS = (mode = ''proxy-ros'') in
            case parse_all (nd_prefix racfg)
                (Split CHR '','' (getenv_default env ''NDP_PREFIXES'' ''ra-prefix'')) of
              Inl e \<Rightarrow> Inl e
            | Inr prefixes \<Rightarrow>
                (let excludeIps = getenv_default env ''NDP_EXCLUDE_IPS'' ''ra-externalips'' in
                 case (if excludeIps = ''none'' then Inr []
                       else parse_all (nd_exclude racfg) (Split CHR '','' excludeIps)) of
                   Inl e \<Rightarrow> Inl e
                 | Inr excludes \<Rightarrow>
                     (let cfg = cfg\<lparr>ndc_prefixes := prefixes, ndc_excludes := concat excludes,
                            ndc_extIfs := Split CHR '','' (getenv_default env ''NDP_EXTERNAL_INTERFACES'' ''eth0'')\<rparr>;
                          intIfs = env ''NDP_INTERNAL_INTERFACES''
                      in if mode = ''proxy'' \<and> intIfs = [] then Inl NoInternalInterfaces
                         else
                           (let cfg = (if mode = ''proxy'' then cfg\<lparr>ndc_intIfs := Split CHR '','' intIfs\<rparr> else cfg) in
                            case Atoi iw (getenv_default env ''NDP_TIMEOUT'' ''1000'') of
                              (_, Some e) \<Rightarrow> Inl BadNDPTimeout
                            | (timeoutMs, None) \<Rightarrow>
                                if mode = ''proxy-ros'' \<and> (timeoutMs < 10 \<or> 5000 < timeoutMs) then Inl NDPTimeoutRange
                                else case nd_macs racfg
                                    (Split CHR '','' (getenv_default env ''NDP_ADVERTISE_MACS'' ''@@external'')) needROS of
                                  Inl e \<Rightarrow> Inl e
                                | Inr (macs, needROS) \<Rightarrow>
                                    Inr (cfg\<lparr>ndc_timeoutMs := timeoutMs, ndc_advMACs := macs\<rparr>, needROS))))))"

section \<open>The older loader\<close>

definition loadPrefixes :: "env \<Rightarrow> config_error + IPNet list" where
  "loadPrefixes env =
     (let prefixes = Split CHR '','' (env ''ND_PREFIXES'') in
      if length prefixes = 0 then Inl NoPrefixes
      else parse_all (\<lambda>p. case ParseCIDR p of None \<Rightarrow> Inl (BadPrefix p) | Some (_, n) \<Rightarrow> Inr n) prefixes)"

definition loadInterfaces :: "env \<Rightarrow> string list" where
  "loadInterfaces env = Split CHR '','' (env ''ND_INTERFACES'')"

text \<open>\<open>loadRouterInfo\<close> fills the configuration it is given, up to the error if there is one.\<close>

fun load_router_ips :: "string list \<Rightarrow> Config \<Rightarrow> Config \<times> config_error option" where
  "load_router_ips [] cfg = (cfg, None)"
| "load_router_ips (i # is) cfg =
     (case ParseIP i of
        None \<Rightarrow> (cfg, Some (BadRouterIP i))
      | Some rip \<Rightarrow>
          if To16 rip = None then (cfg, Some (BadRouterIP i))
          else load_router_ips is (cfg\<lparr>lc_routerIPs := lc_routerIPs cfg @ [rip]\<rparr>))"

definition loadRouterInfo :: "env \<Rightarrow> Config \<Rightarrow> Config \<times> config_error option" where
  "loadRouterInfo env cfg =
     (case ParseMAC (env ''ND_ROUTERMAC'') of
        None \<Rightarrow> (cfg, Some (BadRouterMAC (env ''ND_ROUTERMAC'')))
      | Some rmac \<Rightarrow>
          (let cfg = cfg\<lparr>lc_routerMAC := Some rmac\<rparr>;
               ripstrs = Split CHR '','' (env ''ND_ROUTERIPS'')
           in if length ripstrs = 0 then (cfg, Some NoRouterIPs) else load_router_ips ripstrs cfg))"

definition loadConfig :: "env \<Rightarrow> Config \<Rightarrow> Config \<times> config_error option" where
  "loadConfig env cfg =
     (case loadPrefixes env of
        Inl e \<Rightarrow> (cfg, Some e)
      | Inr prefixes \<Rightarrow>
          loadRouterInfo env (cfg\<lparr>lc_prefixes := prefixes, lc_ifnames := loadInterfaces env\<rparr>))"

end
