(* ===== verification/ConfigProps.thy ===== *)
theory ConfigProps
  imports Config
begin

text \<open>
  What the configuration loader guarantees: the language of the assignment expression, the
  well-formedness of every address it returns, and the invariants of the loaded configurations
  that the daemons rely on.
\<close>

section \<open>The assignment expression\<close>

definition opt_lang :: "string \<Rightarrow> bool" where
  "opt_lang s \<longleftrightarrow>
     (\<exists>ws. s = concat (map (\<lambda>w. CHR '':'' # w) ws) \<and> (\<forall>w\<in>set ws. w \<noteq> [] \<and> list_all opt_char w))"

lemma concat_colon: "ws \<noteq> [] \<Longrightarrow> concat (map (\<lambda>w. c # w) ws) = c # Join ws c"
  by (cases ws) (auto simp: Join_concat)

lemma opt_char_not_colon: "opt_char c \<Longrightarrow> c \<noteq> CHR '':''"
  by (auto simp: opt_char_def Let_def)

lemma opts_match_iff: "opts_match s \<longleftrightarrow> opt_lang s"
proof
  assume m: "opts_match s"
  show "opt_lang s"
  proof (cases s)
    case Nil
    then show ?thesis by (auto simp: opt_lang_def intro: exI [of _ "[]"])
  next
    case (Cons c t)
    with m have "c = CHR '':''" "\<forall>w\<in>set (Split CHR '':'' t). w \<noteq> [] \<and> list_all opt_char w"
      by (auto simp: opts_match_def list_all_iff)
    with Cons show ?thesis
      by (auto simp: opt_lang_def concat_colon intro!: exI [of _ "Split CHR '':'' t"])
  qed
next
  assume "opt_lang s"
  then obtain ws where ws: "s = concat (map (\<lambda>w. CHR '':'' # w) ws)"
      "\<forall>w\<in>set ws. w \<noteq> [] \<and> list_all opt_char w"
    by (auto simp: opt_lang_def)
  show "opts_match s"
  proof (cases "ws = []")
    case True
    with ws show ?thesis by (simp add: opts_match_def)
  next
    case False
    have "\<forall>w\<in>set ws. CHR '':'' \<notin> set w"
      using ws(2) opt_char_not_colon by (auto simp: list_all_iff)
    then have "Split CHR '':'' (Join ws CHR '':'') = ws"
      using False by (intro Split_Join)
    with False ws show ?thesis
      by (auto simp: opts_match_def concat_colon list_all_iff)
  qed
qed

definition rosip_lang :: "string \<Rightarrow> string \<Rightarrow> string \<Rightarrow> string \<Rightarrow> bool" where
  "rosip_lang s a b c \<longleftrightarrow>
     s = a @ CHR ''@'' # b @ c \<and> a \<noteq> [] \<and> CHR ''@'' \<notin> set a \<and>
     (b = ''@external'' \<or> b \<noteq> [] \<and> CHR ''@'' \<notin> set b \<and> CHR '':'' \<notin> set b) \<and> opt_lang c"

lemma opt_lang_hd: "opt_lang c \<Longrightarrow> c = [] \<or> hd c = CHR '':''"
  using opts_match_iff [of c] by (auto simp: opts_match_def)

lemma rosipreg_sound:
  assumes "rosipreg s = Some (a, b, c)"
  shows "rosip_lang s a b c"
proof -
  let ?at = "\<lambda>c. c \<noteq> CHR ''@''" and ?stop = "\<lambda>c. c \<noteq> CHR ''@'' \<and> c \<noteq> CHR '':''"
  let ?after = "tl (dropWhile ?at s)"
  have a: "a = takeWhile ?at s" "a \<noteq> []" "dropWhile ?at s \<noteq> []"
    and b: "b = (if HasPrefix ?after ''@external'' then ''@external'' else takeWhile ?stop ?after)" "b \<noteq> []"
    and c: "c = drop (length b) ?after" "opt_lang c"
    using assms by (auto simp: rosipreg_def Let_def opts_match_iff split: if_splits)
  have "hd (dropWhile ?at s) = CHR ''@''"
    using hd_dropWhile [OF a(3)] by simp
  then have "s = a @ CHR ''@'' # ?after"
    using a by (metis list.collapse takeWhile_dropWhile_id)
  moreover have "?after = b @ c"
  proof (cases "HasPrefix ?after ''@external''")
    case True
    then have "b = ''@external''" using b by simp
    with True c(1) show ?thesis
      by (metis HasPrefix_def append_take_drop_id)
  next
    case False
    with b c(1) show ?thesis
      by (simp add: dropWhile_eq_drop [symmetric])
  qed
  moreover have "CHR ''@'' \<notin> set a"
    using a(1) by (auto dest: set_takeWhileD)
  moreover have "b = ''@external'' \<or> CHR ''@'' \<notin> set b \<and> CHR '':'' \<notin> set b"
    using b(1) by (auto dest: set_takeWhileD split: if_splits)
  ultimately show ?thesis
    using a(2) b(2) c(2) by (simp add: rosip_lang_def)
qed

lemma rosipreg_complete:
  assumes "rosip_lang s a b c"
  shows "rosipreg s = Some (a, b, c)"
proof -
  let ?at = "\<lambda>c. c \<noteq> CHR ''@''" and ?stop = "\<lambda>c. c \<noteq> CHR ''@'' \<and> c \<noteq> CHR '':''"
  have s: "s = a @ CHR ''@'' # b @ c" and a: "a \<noteq> []" "CHR ''@'' \<notin> set a" and c: "opt_lang c"
    using assms by (simp_all add: rosip_lang_def)
  have at: "takeWhile ?at s = a" "dropWhile ?at s = CHR ''@'' # b @ c"
    unfolding s using a(2)
    by (auto intro!: takeWhile_stop dropWhile_stop simp: list_all_iff)
  show ?thesis
  proof (cases "b = ''@external''")
    case True
    with at a c show ?thesis
      by (simp add: rosipreg_def Let_def opts_match_iff HasPrefix_def)
  next
    case False
    then have b: "b \<noteq> []" "CHR ''@'' \<notin> set b" "CHR '':'' \<notin> set b"
      using assms by (auto simp: rosip_lang_def)
    then have "\<not> HasPrefix (b @ c) ''@external''"
      by (cases b) (auto simp: HasPrefix_def)
    moreover have "takeWhile ?stop (b @ c) = b"
      using b opt_lang_hd [OF c] by (intro takeWhile_stop) (auto simp: list_all_iff)
    ultimately show ?thesis
      using at a c b by (simp add: rosipreg_def Let_def opts_match_iff)
  qed
qed

text \<open>C15: matching an assignment against the regular expression
  \<open>^([^@]+)@(@external|[^@:]+)((?::[-a-z0-9]+)*)$\<close> yields the three groups exactly if the text is in
  the expression's language with these groups; so the decomposition is unique.\<close>

theorem rosipreg_language:
  "rosipreg s = Some (a, b, c) \<longleftrightarrow> rosip_lang s a b c"
  using rosipreg_sound rosipreg_complete by blast

section \<open>Addresses\<close>

lemma parse_address_ok:
  assumes "parse_address ra s = Inr f"
  shows "wf_fip f" "fip_raPrefix f = ra" "fip_ip f \<noteq> None" "fip_cidr f \<noteq> -1"
proof -
  have "fip_raPrefix f = ra \<and> (\<exists>ip. fip_ip f = Some ip \<and> length ip = 16) \<and>
      0 \<le> fip_cidr f \<and> fip_cidr f \<le> 128"
  proof (cases "ParseCIDR s")
    case None
    with assms show ?thesis
      by (auto simp: parse_address_def split: option.splits dest: ParseIP_length)
  next
    case (Some r)
    obtain ip n where r: "r = (ip, n)" by (cases r)
    from Some have p: "ParseCIDR s = Some (ip, n)" by (simp add: r)
    obtain l k where n: "net_Mask n = Some (mask_bytes l k)" "k \<le> 8 * l" "k \<le> 128"
      using ParseCIDR_shape(2) [OF p] by auto
    then have "fst (Mask_Size (bs (net_Mask n))) = k"
      by (simp add: Mask_Size_def simpleMaskLength_mask_bytes)
    with n p assms ParseCIDR_shape(1) [OF p] show ?thesis
      by (auto simp: parse_address_def)
  qed
  then show "wf_fip f" "fip_raPrefix f = ra" "fip_ip f \<noteq> None" "fip_cidr f \<noteq> -1"
    by (auto simp: wf_fip_def)
qed

lemma ParseFlexibleIP_ok:
  assumes "ParseFlexibleIP s = Inr f"
  shows "wf_fip f" "fip_raPrefix f \<longleftrightarrow> HasPrefix s ''ra-prefix''"
    "fip_cidr f = -1 \<longleftrightarrow> s = ''ra-prefix''" "fip_ip f = None \<longleftrightarrow> s = ''ra-prefix''"
proof -
  let ?p = "''ra-prefix''"
  have p: "HasPrefix ?p ?p" by (simp add: HasPrefix_def)
  consider (bare) "s = ?p" "f = \<lparr>fip_raPrefix = True, fip_ip = None, fip_cidr = -1\<rparr>"
    | (suffix) t where "HasPrefix s ?p" "s \<noteq> ?p" "parse_address True t = Inr f"
    | (plain) "\<not> HasPrefix s ?p" "parse_address False s = Inr f"
  proof (cases "HasPrefix s ?p")
    case True
    then obtain t where s: "s = ?p @ t" by (rule HasPrefixE)
    have t: "TrimPrefix s ?p = t" "s = ?p \<longleftrightarrow> t = []"
      unfolding s by (rule TrimPrefix_append) simp
    show ?thesis
      using assms True that unfolding ParseFlexibleIP_def t(1) Let_def
      by (cases "t = []") (auto simp: t(2))
  next
    case False
    with assms that show ?thesis by (simp add: ParseFlexibleIP_def)
  qed
  then have "wf_fip f \<and> (fip_raPrefix f \<longleftrightarrow> HasPrefix s ?p) \<and> (fip_cidr f = -1 \<longleftrightarrow> s = ?p) \<and>
      (fip_ip f = None \<longleftrightarrow> s = ?p)"
  proof cases
    case bare
    with p show ?thesis by (simp add: wf_fip_def)
  next
    case (suffix t)
    with parse_address_ok [of True t f] show ?thesis by simp
  next
    case plain
    with p parse_address_ok [of False s f] show ?thesis by auto
  qed
  then show "wf_fip f" "fip_raPrefix f \<longleftrightarrow> HasPrefix s ''ra-prefix''"
    "fip_cidr f = -1 \<longleftrightarrow> s = ''ra-prefix''" "fip_ip f = None \<longleftrightarrow> s = ''ra-prefix''"
    by blast+
qed

text \<open>Every address the configuration parser accepts is well formed (sixteen bytes and a length
  between 0 and 128, or the bare router prefix), carries the prefix flag exactly if its text starts
  with \<open>ra-prefix\<close>, and is the bare prefix exactly if that is the whole text.\<close>

theorem ParseFlexibleIP_wf:
  assumes "ParseFlexibleIP s = Inr f"
  shows "wf_fip f \<and> (fip_raPrefix f \<longleftrightarrow> HasPrefix s ''ra-prefix'') \<and>
     (fip_cidr f = -1 \<longleftrightarrow> s = ''ra-prefix'') \<and> (fip_ip f = None \<longleftrightarrow> s = ''ra-prefix'')"
  using ParseFlexibleIP_ok [OF assms] by blast

theorem ParseFlexibleIP_wf_witness:
  "\<exists>f. ParseFlexibleIP ''ra-prefix::1/64'' = Inr f \<and> fip_cidr f = 64 \<and> wf_fip f \<and>
     (fip_raPrefix f \<longleftrightarrow> HasPrefix ''ra-prefix::1/64'' ''ra-prefix'')"
proof -
  have "ParseFlexibleIP ''ra-prefix::1/64'' =
      Inr \<lparr>fip_raPrefix = True, fip_ip = Some (replicate 15 0 @ [1]), fip_cidr = 64\<rparr>"
    by (simp add: text_eval ParseFlexibleIP_def parse_address_def) code_simp
  from ParseFlexibleIP_wf [OF this] this show ?thesis by simp
qed

section \<open>The keys of assignments\<close>

text \<open>
  \<open>FlexibleIP.String\<close> is the key under which an assignment is found again on the router. It
  leaves out the prefix flag.
\<close>

lemma print_int_inj: "0 \<le> a \<Longrightarrow> 0 \<le> b \<Longrightarrow> print_int a = print_int b \<longleftrightarrow> a = b"
  by (auto simp: print_int_def show_base_inj)

text \<open>C40: two well-formed addresses have the same text form exactly if they agree up to the prefix
  flag: a prefix-relative address and a fixed one with the same bytes and length share their key.\<close>

theorem FlexibleIP_key:
  assumes "wf_fip f" "wf_fip g"
  shows "FlexibleIP_String f = FlexibleIP_String g \<longleftrightarrow>
     fip_ip f = fip_ip g \<and> fip_cidr f = fip_cidr g"
proof -
  have key: "FlexibleIP_String h = ''ra-prefix'' @ IP_String ip @ ''/'' @ print_int (fip_cidr h)"
    if "wf_fip h" "fip_ip h = Some ip" for h ip
    using that by (auto simp: FlexibleIP_String_def wf_fip_def split: if_splits)
  have bare: "FlexibleIP_String h = ''ra-prefix''" "fip_cidr h = -1" if "wf_fip h" "fip_ip h = None" for h
    using that by (auto simp: FlexibleIP_String_def wf_fip_def split: if_splits)
  have len: "length ip = 16" "0 \<le> fip_cidr h" if "wf_fip h" "fip_ip h = Some ip" for h ip
    using that by (auto simp: wf_fip_def split: if_splits)
  show ?thesis
  proof (cases "fip_ip f"; cases "fip_ip g")
    fix a b
    assume ab: "fip_ip f = Some a" "fip_ip g = Some b"
    with assms len [of f a] len [of g b] show ?thesis
      by (simp add: key IPNet_text_eq IP_String_inj print_int_inj)
  qed (use assms len in \<open>auto simp: key bare\<close>)
qed

theorem FlexibleIP_key_witness:
  "FlexibleIP_String \<lparr>fip_raPrefix = True, fip_ip = Some (replicate 15 0 @ [1]), fip_cidr = 64\<rparr> = ''ra-prefix::1/64'' \<and>
   FlexibleIP_String \<lparr>fip_raPrefix = True, fip_ip = Some (replicate 15 0 @ [1]), fip_cidr = 64\<rparr> =
   FlexibleIP_String \<lparr>fip_raPrefix = False, fip_ip = Some (replicate 15 0 @ [1]), fip_cidr = 64\<rparr>"
proof
  show "FlexibleIP_String \<lparr>fip_raPrefix = True, fip_ip = Some (replicate 15 0 @ [1]), fip_cidr = 64\<rparr> = ''ra-prefix::1/64''"
    by code_simp
  show "FlexibleIP_String \<lparr>fip_raPrefix = True, fip_ip = Some (replicate 15 0 @ [1]), fip_cidr = 64\<rparr> =
   FlexibleIP_String \<lparr>fip_raPrefix = False, fip_ip = Some (replicate 15 0 @ [1]), fip_cidr = 64\<rparr>"
    by (subst FlexibleIP_key) (simp_all add: wf_fip_def)
qed

section \<open>Assignments\<close>

lemma ParseROSIPAssign_cases:
  "ParseROSIPAssign config extif = Inr a \<longleftrightarrow>
     (\<exists>ipstr ifstr opts fip. rosip_lang config ipstr ifstr opts \<and> ParseFlexibleIP ipstr = Inr fip \<and>
        (ifstr = ''@external'' \<longrightarrow> extif \<noteq> []) \<and>
        a = \<lparr>ia_ip = fip, ia_ifname = (if ifstr = ''@external'' then extif else ifstr),
              ia_options = foldl set_option \<lparr>opt_Eui64 = False, opt_Advertise = False\<rparr> (tl (Split CHR '':'' opts))\<rparr>)"
proof -
  have r: "rosipreg s = Some (x, y, z) \<longleftrightarrow> rosip_lang s x y z" for s x y z
    using rosipreg_sound rosipreg_complete by blast
  show ?thesis
  proof (cases "rosipreg config")
    case None
    then have "\<not> rosip_lang config x y z" for x y z
      using r [of config x y z] by simp
    with None show ?thesis by (simp add: ParseROSIPAssign_def)
  next
    case (Some p)
    then obtain x y z where p: "rosipreg config = Some (x, y, z)" by (cases p) auto
    then have "rosip_lang config x' y' z' \<longleftrightarrow> x' = x \<and> y' = y \<and> z' = z" for x' y' z'
      using r [of config x' y' z'] by auto
    then show ?thesis
      by (simp add: ParseROSIPAssign_def p Let_def split: sum.splits) blast
  qed
qed

lemma set_options:
  "opt_Eui64 (foldl set_option o0 opts) \<longleftrightarrow> opt_Eui64 o0 \<or> ''eui-64'' \<in> set opts"
  "opt_Advertise (foldl set_option o0 opts) \<longleftrightarrow> opt_Advertise o0 \<or> ''advertise'' \<in> set opts"
  by (induction opts arbitrary: o0) (auto simp: set_option_def)

text \<open>C38: an accepted assignment has a well-formed address and a non-empty interface name, which is
  the external interface's if the text says \<open>@external\<close>, and each option is on exactly if it is named
  among the colon-separated options.\<close>

theorem ParseROSIPAssign_ok:
  assumes "ParseROSIPAssign config extif = Inr a"
  shows "\<exists>ipstr ifstr opts. config = ipstr @ ''@'' @ ifstr @ concat (map (\<lambda>w. CHR '':'' # w) opts) \<and>
     ParseFlexibleIP ipstr = Inr (ia_ip a) \<and> wf_fip (ia_ip a) \<and> ia_ifname a \<noteq> [] \<and>
     ia_ifname a = (if ifstr = ''@external'' then extif else ifstr) \<and>
     (opt_Eui64 (ia_options a) \<longleftrightarrow> ''eui-64'' \<in> set opts) \<and>
     (opt_Advertise (ia_options a) \<longleftrightarrow> ''advertise'' \<in> set opts)"
proof -
  from assms obtain ipstr ifstr optstr where *: "rosip_lang config ipstr ifstr optstr"
      "ParseFlexibleIP ipstr = Inr (ia_ip a)" "ifstr = ''@external'' \<longrightarrow> extif \<noteq> []"
      "ia_ifname a = (if ifstr = ''@external'' then extif else ifstr)"
      "ia_options a = foldl set_option \<lparr>opt_Eui64 = False, opt_Advertise = False\<rparr> (tl (Split CHR '':'' optstr))"
    by (auto simp: ParseROSIPAssign_cases)
  let ?opts = "tl (Split CHR '':'' optstr)"
  have "optstr = concat (map (\<lambda>w. CHR '':'' # w) ?opts)"
    using opt_lang_hd [of optstr] *(1)
    by (cases optstr) (auto simp: rosip_lang_def concat_colon)
  moreover have "wf_fip (ia_ip a)"
    using ParseFlexibleIP_ok(1) *(2) by blast
  ultimately show ?thesis
    using * by (intro exI [of _ ipstr] exI [of _ ifstr] exI [of _ ?opts])
      (auto simp: rosip_lang_def set_options)
qed

theorem ParseROSIPAssign_ok_witness:
  "\<exists>a ipstr ifstr opts. ParseROSIPAssign ''ra-prefix@@external:advertise'' ''wan'' = Inr a \<and>
     ia_ifname a = ''wan'' \<and> opt_Advertise (ia_options a) \<and>
     ''ra-prefix@@external:advertise'' = ipstr @ ''@'' @ ifstr @ concat (map (\<lambda>w. CHR '':'' # w) opts) \<and>
     ParseFlexibleIP ipstr = Inr (ia_ip a)"
proof -
  let ?a = "\<lparr>ia_ip = \<lparr>fip_raPrefix = True, fip_ip = None, fip_cidr = -1\<rparr>, ia_ifname = ''wan'',
      ia_options = \<lparr>opt_Eui64 = False, opt_Advertise = True\<rparr>\<rparr>"
  have "ParseROSIPAssign ''ra-prefix@@external:advertise'' ''wan'' = Inr ?a"
    by (simp add: text_eval ParseROSIPAssign_def rosipreg_def opts_match_def opt_char_def
        ParseFlexibleIP_def set_option_def)
  from ParseROSIPAssign_ok [OF this] this show ?thesis by fastforce
qed

section \<open>Loaders\<close>

lemma parse_all_ok:
  "parse_all f ss = Inr as \<Longrightarrow> length as = length ss \<and> (\<forall>a\<in>set as. \<exists>s\<in>set ss. f s = Inr a)"
proof (induction ss arbitrary: as)
  case Nil
  then show ?case by simp
next
  case (Cons s ss)
  then obtain a as' where "f s = Inr a" "parse_all f ss = Inr as'" "as = a # as'"
    by (auto split: sum.splits simp: map_sum_def)
  with Cons.IH [of as'] show ?case by auto
qed

definition wf_assign :: "ROSIPAssign \<Rightarrow> bool" where
  "wf_assign a \<longleftrightarrow> wf_fip (ia_ip a) \<and> ia_ifname a \<noteq> []"

lemma ParseROSIPAssign_wf: "ParseROSIPAssign s extif = Inr a \<Longrightarrow> wf_assign a"
  using ParseFlexibleIP_ok(1)
  by (auto simp: ParseROSIPAssign_cases wf_assign_def rosip_lang_def split: if_splits)

lemma ParseROSPoolAssign_wf: "ParseROSPoolAssign iw s = Inr a \<Longrightarrow> wf_fip (pa_ip a)"
  using ParseFlexibleIP_ok(1)
  by (auto simp: ParseROSPoolAssign_def Let_def split: if_splits sum.splits prod.splits option.splits)

lemma parse_assigns_wf:
  "parse_all (\<lambda>s. ParseROSIPAssign s extif) ss = Inr as \<Longrightarrow> \<forall>a\<in>set as. wf_assign a"
  using parse_all_ok ParseROSIPAssign_wf by blast

lemma parse_pools_wf: "parse_all (ParseROSPoolAssign iw) ss = Inr ps \<Longrightarrow> \<forall>p\<in>set ps. wf_fip (pa_ip p)"
  using parse_all_ok ParseROSPoolAssign_wf by blast

definition wf_ra :: "RAConfig \<Rightarrow> bool" where
  "wf_ra cfg \<longleftrightarrow>
     (rac_mode cfg = ''off'' \<and> rac_rosExtIPs cfg = [] \<and> rac_rosIntIPs cfg = [] \<and> rac_rosPools cfg = [] \<and>
      rac_rosExtIf cfg = [] \<or> rac_mode cfg = ''ros'' \<and> rac_extIfs cfg \<noteq> []) \<and>
     (\<forall>a\<in>set (rac_rosExtIPs cfg) \<union> set (rac_rosIntIPs cfg). wf_assign a) \<and>
     (\<forall>p\<in>set (rac_rosPools cfg). wf_fip (pa_ip p))"

lemma loadRAConfig_wf:
  assumes "loadRAConfig iw env = Inr cfg"
  shows "wf_ra cfg" "rac_mode cfg = getenv_default env ''RA_MODE'' ''ros''"
    "rac_mode cfg = ''ros'' \<Longrightarrow> rac_rosExtIf cfg = env ''RA_ROS_EXTERNAL_INTERFACE''"
  using assms parse_assigns_wf parse_pools_wf
  by (auto simp: loadRAConfig_def wf_ra_def Let_def split: if_splits sum.splits prod.splits option.splits)

text \<open>A loaded router advertisement configuration has mode \<open>off\<close>, with nothing to assign, or
  \<open>ros\<close>, with at least one interface to listen on; all its addresses and pools are well formed, and
  no assignment has an empty interface name.\<close>

theorem loadRAConfig_ok:
  assumes "loadRAConfig iw env = Inr cfg"
  shows "wf_ra cfg \<and> rac_mode cfg = getenv_default env ''RA_MODE'' ''ros'' \<and>
     (rac_mode cfg = ''ros'' \<longrightarrow> rac_rosExtIf cfg = env ''RA_ROS_EXTERNAL_INTERFACE'')"
  using loadRAConfig_wf [OF assms] by blast

theorem loadRAConfig_ok_witness:
  "\<exists>cfg. loadRAConfig 64 (\<lambda>_. []) = Inr cfg \<and> wf_ra cfg \<and> rac_mode cfg = ''ros'' \<and>
     rac_timeout cfg = 5000 * millisecond"
proof -
  have "\<exists>cfg. loadRAConfig 64 (\<lambda>_. []) = Inr cfg \<and> rac_timeout cfg = 5000 * millisecond"
    by (simp add: text_eval loadRAConfig_def getenv_default_def nonempty_def Atoi_def
        ParseROSPoolAssign_def ParseFlexibleIP_def wrap_def millisecond_def)
  with loadRAConfig_ok [of 64 "\<lambda>_. []"] show ?thesis
    by (auto simp: getenv_default_def)
qed

text \<open>C39: a loaded RouterOS connection has a host and the user name as given, also if that is empty;
  its port is the default one of its mode whatever number \<open>ROS_PORT\<close> holds, unless the number is out
  of range for an \<open>int\<close>, when it is the nearest one that is not.\<close>

theorem loadROSConfig_ok:
  assumes "loadROSConfig iw env = Inr cfg" "iw = 32 \<or> iw = 64"
  shows "rcc_host cfg = env ''ROS_HOST'' \<and> rcc_host cfg \<noteq> [] \<and> rcc_username cfg = env ''ROS_USER'' \<and>
     (rcc_useTLS cfg \<longleftrightarrow> env ''ROS_USETLS'' = ''1'') \<and>
     rcc_port cfg =
       (if snd (Atoi iw (env ''ROS_PORT'')) = Some ErrRange then fst (Atoi iw (env ''ROS_PORT''))
        else if rcc_useTLS cfg then 8729 else 8728)"
proof -
  have rng: "fst (Atoi iw s) \<noteq> 0" if "snd (Atoi iw s) = Some ErrRange" for s
    using that assms(2)
    by (auto simp: Atoi_def Let_def split: if_splits sum.splits num_error.splits)
  have syn: "fst (Atoi iw s) = 0" if "snd (Atoi iw s) = Some ErrSyntax" for s
    using that by (auto simp: Atoi_def Let_def split: if_splits sum.splits num_error.splits)
  have emp: "snd (Atoi iw []) = Some ErrSyntax"
    by (simp add: Atoi_def)
  show ?thesis
  proof (cases "Atoi iw (env ''ROS_PORT'')")
    case (Pair n err)
    then show ?thesis
      using assms(1) rng [of "env ''ROS_PORT''"] syn [of "env ''ROS_PORT''"] emp
      by (cases err; cases "the err") (auto simp: loadROSConfig_def Let_def split: if_splits)
  qed
qed

text \<open>The witness is a valid port number that the loader ignores.\<close>

definition sample_ros_env :: env where
  "sample_ros_env = (\<lambda>_. [])(''ROS_HOST'' := ''10.0.0.1'', ''ROS_PORT'' := ''8730'')"

theorem loadROSConfig_ok_witness:
  "\<exists>cfg. loadROSConfig 64 sample_ros_env = Inr cfg \<and> Atoi 64 (sample_ros_env ''ROS_PORT'') = (8730, None) \<and>
     rcc_port cfg = 8728 \<and> rcc_username cfg = []"
proof -
  have a: "Atoi 64 (sample_ros_env ''ROS_PORT'') = (8730, None)"
    by (simp add: sample_ros_env_def Atoi_def text_eval)
  obtain cfg where cfg: "loadROSConfig 64 sample_ros_env = Inr cfg"
    by (auto simp: loadROSConfig_def sample_ros_env_def Let_def)
  have "rcc_port cfg = 8728" "rcc_username cfg = []"
    using loadROSConfig_ok [OF cfg] a by (auto simp: sample_ros_env_def)
  with cfg a show ?thesis by blast
qed

section \<open>The configuration of the proxy\<close>

lemma nd_macs_ok:
  "nd_macs racfg ms need0 = Inr (refs, need) \<Longrightarrow>
   (need \<longleftrightarrow> need0 \<or> (\<exists>r\<in>set refs. mr_hwaddr r = None)) \<and>
   (\<forall>r\<in>set refs. mr_hwaddr r \<noteq> None \<longrightarrow> mr_rosIf r = [])"
proof (induction racfg ms need0 arbitrary: refs need rule: nd_macs.induct)
  case (1 racfg needROS)
  then show ?case by simp
next
  case (2 racfg m ms needROS)
  show ?case
  proof (cases "length m = 0")
    case True
    with 2 show ?thesis by simp
  next
    case ne: False
    show ?thesis
    proof (cases "m ! 0 = CHR ''@''")
      case True
      with 2(4) ne obtain refs' where "nd_macs racfg ms True = Inr (refs', need)"
          "\<exists>r. refs = r # refs' \<and> mr_hwaddr r = None"
        by (auto simp: Let_def map_sum_def split: if_splits sum.splits)
      with 2(2) [OF ne True] show ?thesis
        using 2(4) ne True by (auto split: if_splits)
    next
      case False
      with 2(4) ne obtain hw refs' where "ParseMAC m = Some hw" "nd_macs racfg ms needROS = Inr (refs', need)"
          "refs = \<lparr>mr_hwaddr = Some hw, mr_rosIf = []\<rparr> # refs'"
        by (auto simp: map_sum_def split: option.splits sum.splits)
      with 2(3) [OF ne False] show ?thesis by auto
    qed
  qed
qed

lemma nd_prefix_ok:
  "nd_prefix racfg s = Inr f \<Longrightarrow> wf_fip f \<and> (fip_raPrefix f \<longrightarrow> rac_mode racfg \<noteq> ''off'')"
  by (auto simp: nd_prefix_def dest: ParseFlexibleIP_ok(1) split: sum.splits if_splits)

lemma nd_exclude_ok:
  "wf_ra racfg \<Longrightarrow> nd_exclude racfg s = Inr fs \<Longrightarrow> \<forall>f\<in>set fs. wf_fip f"
  by (auto simp: nd_exclude_def wf_ra_def wf_assign_def dest: ParseFlexibleIP_ok(1)
      split: sum.splits if_splits)

definition wf_nd :: "RAConfig \<Rightarrow> NDConfig \<Rightarrow> bool" where
  "wf_nd racfg cfg \<longleftrightarrow>
     ndc_mode cfg \<in> set ndp_modes \<and>
     (\<forall>f\<in>set (ndc_prefixes cfg). wf_fip f \<and> (fip_raPrefix f \<longrightarrow> rac_mode racfg \<noteq> ''off'')) \<and>
     (\<forall>f\<in>set (ndc_excludes cfg). wf_fip f) \<and>
     (ndc_mode cfg \<noteq> ''off'' \<longrightarrow> ndc_prefixes cfg \<noteq> [] \<and> ndc_extIfs cfg \<noteq> []) \<and>
     (ndc_mode cfg = ''proxy'' \<longrightarrow> ndc_intIfs cfg \<noteq> []) \<and>
     (ndc_mode cfg = ''proxy-ros'' \<longrightarrow> 10 \<le> ndc_timeoutMs cfg \<and> ndc_timeoutMs cfg \<le> 5000) \<and>
     (\<forall>r\<in>set (ndc_advMACs cfg). mr_hwaddr r \<noteq> None \<longrightarrow> mr_rosIf r = [])"

lemma loadNDConfig_wf:
  assumes "loadNDConfig iw env racfg = Inr (cfg, need)" "wf_ra racfg"
  shows "wf_nd racfg cfg \<and>
     (need \<longleftrightarrow> ndc_mode cfg = ''proxy-ros'' \<or> (\<exists>r\<in>set (ndc_advMACs cfg). mr_hwaddr r = None))"
proof (cases "ndc_mode cfg = ''off''")
  case True
  with assms show ?thesis
    by (auto simp: loadNDConfig_def Let_def wf_nd_def ndp_modes_def
        split: if_splits sum.splits prod.splits option.splits)
next
  case False
  let ?mode = "getenv_default env ''NDP_MODE'' ''proxy-ros''"
  let ?ps = "Split CHR '','' (getenv_default env ''NDP_PREFIXES'' ''ra-prefix'')"
  let ?ex = "getenv_default env ''NDP_EXCLUDE_IPS'' ''ra-externalips''"
  obtain ps exs t macs where *: "?mode \<in> set ndp_modes" "ndc_mode cfg = ?mode"
      "parse_all (nd_prefix racfg) ?ps = Inr ps" "ndc_prefixes cfg = ps"
      "(if ?ex = ''none'' then Inr [] else parse_all (nd_exclude racfg) (Split CHR '','' ?ex)) = Inr exs"
      "ndc_excludes cfg = concat exs" "ndc_extIfs cfg \<noteq> []"
      "?mode = ''proxy'' \<Longrightarrow> ndc_intIfs cfg \<noteq> []"
      "?mode = ''proxy-ros'' \<Longrightarrow> 10 \<le> ndc_timeoutMs cfg \<and> ndc_timeoutMs cfg \<le> 5000"
      "nd_macs racfg (Split CHR '','' (getenv_default env ''NDP_ADVERTISE_MACS'' ''@@external''))
         (?mode = ''proxy-ros'') = Inr (ndc_advMACs cfg, need)"
    using assms(1) False unfolding loadNDConfig_def Let_def
    by (fastforce split: if_splits sum.splits prod.splits option.splits)
  have "\<forall>f\<in>set ps. wf_fip f \<and> (fip_raPrefix f \<longrightarrow> rac_mode racfg \<noteq> ''off'')" "ps \<noteq> []"
    using parse_all_ok [OF *(3)] nd_prefix_ok by fastforce+
  moreover have "\<forall>f\<in>set (concat exs). wf_fip f"
  proof (cases "?ex = ''none''")
    case True
    with *(5) show ?thesis by simp
  next
    case False
    with *(5) have "parse_all (nd_exclude racfg) (Split CHR '','' ?ex) = Inr exs" by simp
    from parse_all_ok [OF this] nd_exclude_ok [OF assms(2)] show ?thesis by fastforce
  qed
  ultimately show ?thesis
    using * nd_macs_ok [OF *(10)] by (simp add: wf_nd_def)
qed

text \<open>C7: a loaded proxy configuration has a known mode; all its prefixes and excluded addresses are
  well formed, and a prefix needs the router's only if advertisements are received; unless the mode
  is \<open>off\<close> there is a prefix and an external interface; mode \<open>proxy\<close> has an internal interface, mode
  \<open>proxy-ros\<close> a timeout between 10 and 5000; and RouterOS is reported as needed exactly in mode
  \<open>proxy-ros\<close> or if some advertised address is an interface of the router.\<close>

theorem loadNDConfig_ok:
  assumes "loadNDConfig iw env racfg = Inr (cfg, need)" "wf_ra racfg"
  shows "wf_nd racfg cfg \<and>
     (need \<longleftrightarrow> ndc_mode cfg = ''proxy-ros'' \<or> (\<exists>r\<in>set (ndc_advMACs cfg). mr_hwaddr r = None))"
  using assms by (rule loadNDConfig_wf)

text \<open>The witness: mode \<open>proxy-ros:strict\<close> with a fixed hardware address and no router advertisements.
  The loader does not report RouterOS as needed, though this mode asks the router.\<close>

definition sample_strict_env :: env where
  "sample_strict_env =
     (\<lambda>_. [])(''NDP_MODE'' := ''proxy-ros:strict'', ''NDP_PREFIXES'' := ''2001:db8::/64'',
       ''NDP_ADVERTISE_MACS'' := ''02:00:00:00:00:01'')"

definition sample_off :: RAConfig where
  "sample_off = \<lparr>rac_mode = ''off'', rac_extIfs = [], rac_timeout = 0, rac_rosExtIf = [],
     rac_rosExtIPs = [], rac_rosIntIPs = [], rac_rosPools = []\<rparr>"

lemma sample_strict_loads:
  "\<exists>cfg. loadNDConfig 64 sample_strict_env sample_off = Inr (cfg, False) \<and> ndc_mode cfg = ''proxy-ros:strict''"
proof -
  have mac: "ParseMAC ''02:00:00:00:00:01'' = Some [2, 0, 0, 0, 0, 1]"
    by (simp add: text_eval)
  obtain f where pre: "ParseFlexibleIP ''2001:db8::/64'' = Inr f" "\<not> fip_raPrefix f"
    by (simp add: text_eval ParseFlexibleIP_def parse_address_def)
  have timeout: "Atoi 64 ''1000'' = (1000, None)"
    by (simp add: Atoi_def text_eval)
  show ?thesis
    by (simp add: loadNDConfig_def sample_strict_env_def sample_off_def getenv_default_def Let_def
        ndp_modes_def nd_prefix_def nd_exclude_def mac pre timeout)
qed

theorem loadNDConfig_ok_witness:
  "\<exists>cfg. loadNDConfig 64 sample_strict_env sample_off = Inr (cfg, False) \<and>
     ndc_mode cfg = ''proxy-ros:strict'' \<and> wf_nd sample_off cfg \<and>
     (\<forall>r\<in>set (ndc_advMACs cfg). mr_hwaddr r \<noteq> None)"
proof -
  obtain cfg where cfg: "loadNDConfig 64 sample_strict_env sample_off = Inr (cfg, False)"
      "ndc_mode cfg = ''proxy-ros:strict''"
    using sample_strict_loads by blast
  have "wf_ra sample_off" by (simp add: wf_ra_def sample_off_def)
  from loadNDConfig_ok [OF cfg(1) this] cfg(2) have "wf_nd sample_off cfg"
    "\<forall>r\<in>set (ndc_advMACs cfg). mr_hwaddr r \<noteq> None"
    by auto
  with cfg show ?thesis by blast
qed

end
