(* ===== verification/Ros.thy ===== *)
theory Ros
  imports Config
begin

text \<open>
  The operations of \<open>ros.go\<close> on the router: interface addresses, the default route, prefix
  pools, neighbours and address assignments. Each is a function of \<open>run\<close>, the client's
  \<open>RunArgs\<close>, which sends a command to the router and changes the state of the world \<open>'w\<close>
  (see the theory of the connection pool). A reply is a list of sentences, and a sentence maps property names to
  values; a name that is missing reads as the empty string, as in a Go map.
\<close>

section \<open>Replies\<close>

type_synonym sentence = "(string \<times> string) list"
type_synonym reply = "sentence list"

definition prop_of :: "sentence \<Rightarrow> string \<Rightarrow> string" where
  "prop_of s k = (case map_of s k of None \<Rightarrow> [] | Some v \<Rightarrow> v)"

datatype ros_error =
    DialError string
  | APIError string
  | APITimeout
  | DeviceNotFound string
  | BadMAC string

type_synonym 'w run = "string list \<Rightarrow> 'w \<Rightarrow> (ros_error + reply) \<times> 'w"

definition rosCommentKey :: string where
  "rosCommentKey = ''set by fletsv6-companion''"

section \<open>Operations\<close>

definition GetInterfaceMAC :: "'w run \<Rightarrow> string \<Rightarrow> 'w \<Rightarrow> (ros_error + bytes) \<times> 'w" where
  "GetInterfaceMAC run name w =
     (case run [''/interface/print'', ''=.proplist=mac-address'', ''?name='' @ name] w of
        (Inl e, w) \<Rightarrow> (Inl e, w)
      | (Inr rep, w) \<Rightarrow>
          if length rep = 0 then (Inl (DeviceNotFound name), w)
          else (case ParseMAC (prop_of (rep ! 0) ''mac-address'') of
                  None \<Rightarrow> (Inl (BadMAC (prop_of (rep ! 0) ''mac-address'')), w)
                | Some hw \<Rightarrow> (Inr hw, w)))"

text \<open>
  The loop of \<open>SetIPv6Gateway\<close> over the default routes: \<open>None\<close> if a route is as wanted,
  otherwise the identifier of the route to modify (empty if there is none).
\<close>

definition gateway_is :: "string \<Rightarrow> bytes \<Rightarrow> string \<Rightarrow> bool" where
  "gateway_is ifname gateway s =
     (let gwparts = Split CHR ''%'' s in
      if length gwparts \<noteq> 2 then False
      else case ParseIP (gwparts ! 0) of
        None \<Rightarrow> False
      | Some gwip \<Rightarrow> IP_Equal gateway gwip \<and> gwparts ! 1 = ifname)"

fun scan_routes :: "string \<Rightarrow> bytes \<Rightarrow> reply \<Rightarrow> string \<Rightarrow> string option" where
  "scan_routes ifname gateway [] modTarget = Some modTarget"
| "scan_routes ifname gateway (re # res) modTarget =
     (let modTarget = (if prop_of re ''comment'' = rosCommentKey then prop_of re ''.id'' else modTarget) in
      if gateway_is ifname gateway (prop_of re ''gateway'') then None
      else scan_routes ifname gateway res modTarget)"

definition SetIPv6Gateway :: "'w run \<Rightarrow> string \<Rightarrow> bytes \<Rightarrow> 'w \<Rightarrow> ros_error option \<times> 'w" where
  "SetIPv6Gateway run ifname gateway w =
     (case run [''/ipv6/route/print'', ''=.proplist=.id,gateway,comment'', ''?dst-address=::/0''] w of
        (Inl e, w) \<Rightarrow> (Some e, w)
      | (Inr rep, w) \<Rightarrow>
          (case scan_routes ifname gateway rep [] of
             None \<Rightarrow> (None, w)
           | Some modTarget \<Rightarrow>
               (let gw = IP_String gateway @ ''%'' @ ifname;
                    (r, w) = (if modTarget \<noteq> [] then
                        run [''/ipv6/route/set'', ''=.id='' @ modTarget, ''=gateway='' @ gw] w
                      else
                        run [''/ipv6/route/add'', ''=dst-address=::/0'', ''=gateway='' @ gw,
                             ''=comment='' @ rosCommentKey] w)
                in case r of Inl e \<Rightarrow> (Some e, w) | Inr _ \<Rightarrow> (None, w))))"

definition ExportIPv6Pool :: "'w run \<Rightarrow> string \<Rightarrow> IPNet \<Rightarrow> int \<Rightarrow> 'w \<Rightarrow> ros_error option go \<times> 'w" where
  "ExportIPv6Pool run name cidr prefixlen w =
     (case run [''/ipv6/pool/print'', ''?name='' @ name] w of
        (Inl e, w) \<Rightarrow> (Ret (Some e), w)
      | (Inr rep, w) \<Rightarrow>
          (let write = (\<lambda>args. case run args w of
                 (Inl e, w) \<Rightarrow> (Ret (Some e), w) | (Inr _, w) \<Rightarrow> (Ret None, w))
           in if length rep > 0 then
                (case cidrEqual (prop_of (rep ! 0) ''prefix'') cidr of
                   Panic \<Rightarrow> (Panic, w)
                 | Ret eq \<Rightarrow>
                     if eq \<and> prop_of (rep ! 0) ''prefix-length'' = print_int prefixlen then (Ret None, w)
                     else write [''/ipv6/pool/set'', ''=.id='' @ prop_of (rep ! 0) ''.id'',
                       ''=prefix='' @ IPNet_String cidr, ''=prefix-length='' @ print_int prefixlen])
              else write [''/ipv6/pool/add'', ''=name='' @ name,
                ''=prefix='' @ IPNet_String cidr, ''=prefix-length='' @ print_int prefixlen]))"

text \<open>
  \<open>LookupNeighbor\<close> pings the neighbour and then reads the router's neighbour table; a second
  ping runs in the background, so its command is part of the result.
\<close>

definition ping_args :: "bytes \<Rightarrow> int \<Rightarrow> string list" where
  "ping_args ip timeoutms =
     [''/ping'', ''=address='' @ IP_String ip, ''=count=1'',
      ''=interval=00:00:0'' @ print_int (go_div timeoutms 1000) @ ''.'' @
        print_int_pad 3 (go_mod timeoutms 1000)]"

definition LookupNeighbor ::
  "'w run \<Rightarrow> bytes \<Rightarrow> int \<Rightarrow> bool \<Rightarrow> 'w \<Rightarrow> (ros_error + slice) \<times> string list list \<times> 'w" where
  "LookupNeighbor run ip timeoutms strict w =
     (case run (ping_args ip timeoutms) w of
        (Inl e, w) \<Rightarrow> (Inl e, [], w)
      | (Inr pingrep, w) \<Rightarrow>
          (let pingSuccess = (length pingrep > 0 \<and> prop_of (pingrep ! 0) ''packet-loss'' = ''0'') in
           case run [''/ipv6/neighbor/print'', ''=.proplist=mac-address,status'',
               ''?address='' @ IP_String ip] w of
             (Inl e, w) \<Rightarrow> (Inl e, [], w)
           | (Inr rep, w) \<Rightarrow>
               if length rep > 0 \<and>
                  (prop_of (rep ! 0) ''status'' = ''reachable'' \<or> prop_of (rep ! 0) ''status'' = ''stale'') then
                 (case ParseMAC (prop_of (rep ! 0) ''mac-address'') of
                    None \<Rightarrow> (Inl (BadMAC (prop_of (rep ! 0) ''mac-address'')), [ping_args ip timeoutms], w)
                  | Some hw \<Rightarrow> (Inr (Some hw), [ping_args ip timeoutms], w))
               else if \<not> strict \<and> pingSuccess then (Inr (Some (replicate 6 0)), [], w)
               else (Inr None, [], w)))"

text \<open>
  The loop of \<open>AssignIPv6\<close> over the addresses of the interface: \<open>Ret None\<close> if one is as
  wanted, otherwise the identifier of the last one with the key. A \<open>nil\<close> network is
  dereferenced at the first address with the key.
\<close>

fun scan_addresses ::
  "IPNet option \<Rightarrow> ROSIPOptions \<Rightarrow> string \<Rightarrow> reply \<Rightarrow> string \<Rightarrow> string option go" where
  "scan_addresses ip options comment [] id' = Ret (Some id')"
| "scan_addresses ip options comment (s # res) id' =
     (if prop_of s ''comment'' \<noteq> comment then scan_addresses ip options comment res id'
      else case ip of
        None \<Rightarrow> Panic
      | Some n \<Rightarrow>
          go_bind (cidrEqual (prop_of s ''address'') n) (\<lambda>eq.
            if eq \<and> prop_of s ''eui-64'' = FormatBool (opt_Eui64 options) \<and>
               prop_of s ''advertise'' = FormatBool (opt_Advertise options) then Ret None
            else scan_addresses ip options comment res (prop_of s ''.id'')))"

definition net_text :: "IPNet option \<Rightarrow> string" where
  "net_text n = (case n of None \<Rightarrow> ''<nil>'' | Some n \<Rightarrow> IPNet_String n)"

definition AssignIPv6 ::
  "'w run \<Rightarrow> string \<Rightarrow> IPNet option \<Rightarrow> string \<Rightarrow> ROSIPOptions \<Rightarrow> 'w \<Rightarrow> ros_error option go \<times> 'w" where
  "AssignIPv6 run ifname ip key options w =
     (let comment = rosCommentKey @ '' '' @ key in
      case run [''/ipv6/address/print'', ''=.proplist=.id,comment,address,advertise,eui-64'',
          ''?comment'', ''?dynamic=false'', ''?#&'', ''?interface='' @ ifname, ''?#&''] w of
        (Inl e, w) \<Rightarrow> (Ret (Some e), w)
      | (Inr rep, w) \<Rightarrow>
          (case scan_addresses ip options comment rep [] of
             Panic \<Rightarrow> (Panic, w)
           | Ret None \<Rightarrow> (Ret None, w)
           | Ret (Some id') \<Rightarrow>
               (let (r, w) = (if id' \<noteq> [] then
                    run [''/ipv6/address/set'', ''=.id='' @ id', ''=address='' @ net_text ip,
                         ''=advertise='' @ FormatBool (opt_Advertise options),
                         ''=eui-64='' @ FormatBool (opt_Eui64 options)] w
                  else
                    run [''/ipv6/address/add'', ''=interface='' @ ifname, ''=address='' @ net_text ip,
                         ''=advertise='' @ FormatBool (opt_Advertise options),
                         ''=eui-64='' @ FormatBool (opt_Eui64 options), ''=comment='' @ comment] w)
                in case r of Inl e \<Rightarrow> (Ret (Some e), w) | Inr _ \<Rightarrow> (Ret None, w))))"

end
