(* ===== verification/Menu.thy ===== *)
theory Menu
  imports Ros
begin

text \<open>
  The router's menus (routes, pools, addresses) as RouterOS documents them, and what the program
  wants of one: an entry as wanted, made by changing its own entry or by adding one, all other
  entries left alone. The three operations of \<open>ros.go\<close> that write to the router are shown
  to refine this specification in the next theory.
\<close>

section \<open>Tables\<close>

text \<open>
  A menu is a list of entries. Setting properties of the entry with an identifier overrides their
  values; adding an entry gives it a fresh identifier, the properties of the command, and defaults
  for the others. What the router makes of an entry that is written is \<open>keep\<close>: it may compute some
  properties from others.
\<close>

definition ident :: "sentence \<Rightarrow> string" where
  "ident s = prop_of s ''.id''"

definition tab_set :: "(sentence \<Rightarrow> sentence) \<Rightarrow> string \<Rightarrow> sentence \<Rightarrow> reply \<Rightarrow> reply" where
  "tab_set keep i args tab = map (\<lambda>s. if ident s = i then keep (args @ s) else s) tab"

definition tab_add :: "(sentence \<Rightarrow> sentence) \<Rightarrow> string \<Rightarrow> sentence \<Rightarrow> sentence \<Rightarrow> reply \<Rightarrow> reply" where
  "tab_add keep i args defaults tab = tab @ [keep ((''.id'', i) # args @ defaults)]"

definition fresh_id :: "string \<Rightarrow> reply \<Rightarrow> bool" where
  "fresh_id i tab \<longleftrightarrow> i \<noteq> [] \<and> i \<notin> ident ` set tab"

definition good_ids :: "reply \<Rightarrow> bool" where
  "good_ids tab \<longleftrightarrow> distinct (map ident tab) \<and> [] \<notin> ident ` set tab"

definition attr :: "string \<times> string \<Rightarrow> string" where
  "attr kv = ''='' @ fst kv @ ''='' @ snd kv"

lemma prop_of_Nil [simp]: "prop_of [] k = []"
  by (simp add: prop_of_def)

lemma prop_of_Cons [simp]: "prop_of ((k', v) # s) k = (if k' = k then v else prop_of s k)"
  by (simp add: prop_of_def)

lemma prop_of_append:
  "prop_of (a @ s) k = (if k \<in> fst ` set a then prop_of a k else prop_of s k)"
  by (induction a) (auto, force)

section \<open>The router\<close>

text \<open>
  What the program relies on: \<open>print\<close> returns the entries the query selects, at least the
  properties \<open>keys\<close> of each, and changes nothing; \<open>set\<close> and \<open>add\<close> do what they
  say; a command that fails, for instance because its reply did not arrive in time, may or may
  not have taken effect.
\<close>

definition outcome :: "('w \<Rightarrow> reply) \<Rightarrow> 'w \<Rightarrow> (ros_error + reply) \<times> 'w \<Rightarrow> (reply \<Rightarrow> bool) \<Rightarrow> bool" where
  "outcome tab w rw P \<longleftrightarrow>
     (case fst rw of Inl _ \<Rightarrow> tab (snd rw) = tab w \<or> P (tab (snd rw)) | Inr _ \<Rightarrow> P (tab (snd rw)))"

definition args_ok :: "sentence \<Rightarrow> bool" where
  "args_ok args \<longleftrightarrow> (\<forall>(k, v)\<in>set args. k \<noteq> ''.id'' \<and> CHR ''='' \<notin> set k)"

definition router_keeping ::
  "'w run \<Rightarrow> string \<Rightarrow> string list \<Rightarrow> (sentence \<Rightarrow> bool) \<Rightarrow> string set \<Rightarrow> sentence \<Rightarrow>
   (sentence \<Rightarrow> sentence) \<Rightarrow> ('w \<Rightarrow> reply) \<Rightarrow> bool" where
  "router_keeping run path query sel keys defaults keep tab \<longleftrightarrow>
     (\<forall>w. tab (snd (run ((path @ ''/print'') # query) w)) = tab w \<and>
        (\<forall>rep. fst (run ((path @ ''/print'') # query) w) = Inr rep \<longrightarrow>
           list_all2 (\<lambda>r s. \<forall>k\<in>keys. prop_of r k = prop_of s k) rep (filter sel (tab w)))) \<and>
     (\<forall>w i args. args_ok args \<longrightarrow>
        outcome tab w (run ((path @ ''/set'') # (''=.id='' @ i) # map attr args) w)
          (\<lambda>t. t = tab_set keep i args (tab w))) \<and>
     (\<forall>w args. args_ok args \<longrightarrow>
        outcome tab w (run ((path @ ''/add'') # map attr args) w)
          (\<lambda>t. \<exists>i. fresh_id i (tab w) \<and> t = tab_add keep i args defaults (tab w)))"

text \<open>A menu that keeps its entries as they are written.\<close>

abbreviation router_menu ::
  "'w run \<Rightarrow> string \<Rightarrow> string list \<Rightarrow> (sentence \<Rightarrow> bool) \<Rightarrow> string set \<Rightarrow> sentence \<Rightarrow> ('w \<Rightarrow> reply) \<Rightarrow> bool" where
  "router_menu run path query sel keys defaults tab \<equiv>
     router_keeping run path query sel keys defaults (\<lambda>s. s) tab"

lemma router_print:
  assumes "router_keeping run path query sel keys defaults keep tab" "run ((path @ ''/print'') # query) w = (r, w')"
  shows "tab w' = tab w"
    "r = Inr rep \<Longrightarrow> list_all2 (\<lambda>r s. \<forall>k\<in>keys. prop_of r k = prop_of s k) rep (filter sel (tab w))"
proof -
  from assms(1) have *: "tab (snd (run ((path @ ''/print'') # query) w)) = tab w \<and>
      (\<forall>rep. fst (run ((path @ ''/print'') # query) w) = Inr rep \<longrightarrow>
         list_all2 (\<lambda>r s. \<forall>k\<in>keys. prop_of r k = prop_of s k) rep (filter sel (tab w)))"
    unfolding router_keeping_def by blast
  show "tab w' = tab w" using * assms(2) by simp
  show "list_all2 (\<lambda>r s. \<forall>k\<in>keys. prop_of r k = prop_of s k) rep (filter sel (tab w))" if "r = Inr rep"
    using * assms(2) that by simp
qed

lemma router_set:
  assumes "router_keeping run path query sel keys defaults keep tab" "args_ok args"
    "run ((path @ ''/set'') # (''=.id='' @ i) # map attr args) w = (r, w')"
  shows "outcome tab w (r, w') (\<lambda>t. t = tab_set keep i args (tab w))"
proof -
  from assms(1,2) have "outcome tab w (run ((path @ ''/set'') # (''=.id='' @ i) # map attr args) w)
      (\<lambda>t. t = tab_set keep i args (tab w))"
    unfolding router_keeping_def by blast
  then show ?thesis by (simp only: assms(3))
qed

lemma router_add:
  assumes "router_keeping run path query sel keys defaults keep tab" "args_ok args"
    "run ((path @ ''/add'') # map attr args) w = (r, w')"
  shows "outcome tab w (r, w') (\<lambda>t. \<exists>i. fresh_id i (tab w) \<and> t = tab_add keep i args defaults (tab w))"
proof -
  from assms(1,2) have "outcome tab w (run ((path @ ''/add'') # map attr args) w)
      (\<lambda>t. \<exists>i. fresh_id i (tab w) \<and> t = tab_add keep i args defaults (tab w))"
    unfolding router_keeping_def by blast
  then show ?thesis by (simp only: assms(3))
qed

section \<open>The specification\<close>

text \<open>
  \<open>ensures wanted mine upd new\<close> relates a table before and after: nothing changes if an entry
  is as wanted; otherwise one of the entries that are \<open>mine\<close> is updated; and if there is none,
  one is added.
\<close>

definition ensures ::
  "(sentence \<Rightarrow> bool) \<Rightarrow> (sentence \<Rightarrow> bool) \<Rightarrow> sentence \<Rightarrow> sentence \<Rightarrow> sentence \<Rightarrow> (sentence \<Rightarrow> sentence) \<Rightarrow>
   reply \<Rightarrow> reply \<Rightarrow> bool" where
  "ensures wanted mine upd new defaults keep tab tab' \<longleftrightarrow>
     (\<exists>s\<in>set tab. wanted s) \<and> tab' = tab \<or>
     (\<forall>s\<in>set tab. \<not> wanted s) \<and> (\<exists>t\<in>set tab. mine t \<and> tab' = tab_set keep (ident t) upd tab) \<or>
     (\<forall>s\<in>set tab. \<not> wanted s \<and> \<not> mine s) \<and> (\<exists>i. fresh_id i tab \<and> tab' = tab_add keep i new defaults tab)"

text \<open>
  The conditions under which the specification has the consequences below; \<open>settled\<close> is what
  holds of an entry that has been written, which need not be what the program looks for.
\<close>

definition sane ::
  "(sentence \<Rightarrow> bool) \<Rightarrow> (sentence \<Rightarrow> bool) \<Rightarrow> sentence \<Rightarrow> sentence \<Rightarrow> sentence \<Rightarrow> (sentence \<Rightarrow> sentence) \<Rightarrow> bool" where
  "sane settled mine upd new defaults keep \<longleftrightarrow>
     (\<forall>t. mine t \<longrightarrow> settled (keep (upd @ t)) \<and> mine (keep (upd @ t))) \<and>
     (\<forall>i. settled (keep ((''.id'', i) # new @ defaults)) \<and> mine (keep ((''.id'', i) # new @ defaults))) \<and>
     args_ok upd \<and> (\<forall>s. ident (keep s) = ident s)"

lemma ident_upd: "args_ok upd \<Longrightarrow> ident (upd @ s) = ident s"
  by (force simp: ident_def prop_of_append args_ok_def)

lemma map_ident_tab_set:
  "args_ok upd \<Longrightarrow> (\<And>s. ident (keep s) = ident s) \<Longrightarrow> map ident (tab_set keep i upd tab) = map ident tab"
  by (simp add: tab_set_def ident_upd comp_def if_distrib cong: if_cong)

lemma ensures_settled:
  assumes "ensures wanted mine upd new defaults keep tab tab'" "sane settled mine upd new defaults keep"
    and "\<And>s. s \<in> set tab \<Longrightarrow> wanted s \<Longrightarrow> settled s"
  shows "\<exists>s\<in>set tab'. settled s"
  using assms unfolding ensures_def sane_def tab_set_def tab_add_def by fastforce

lemma ensures_good_ids:
  assumes "ensures wanted mine upd new defaults keep tab tab'" "sane settled mine upd new defaults keep" "good_ids tab"
  shows "good_ids tab'"
proof -
  have keep: "args_ok upd" "\<And>s. ident (keep s) = ident s" using assms(2) by (simp_all add: sane_def)
  have "good_ids (tab_set keep i upd tab)" for i
    using assms(3) map_ident_tab_set [OF keep, of i tab] unfolding good_ids_def by (metis list.set_map)
  moreover have "good_ids (tab_add keep i new defaults tab)" if "fresh_id i tab" for i
    using assms(3) that keep(2) by (auto simp: good_ids_def tab_add_def fresh_id_def) (auto simp: ident_def)
  ultimately show ?thesis
    using assms(1,3) unfolding ensures_def by auto
qed

lemma filter_tab_set_other:
  assumes "good_ids tab" "t \<in> set tab" "mine t" "mine (keep (upd @ t))"
  shows "filter (\<lambda>s. \<not> mine s) (tab_set keep (ident t) upd tab) = filter (\<lambda>s. \<not> mine s) tab"
proof -
  have inj: "s = t" if "s \<in> set tab" "ident s = ident t" for s
    using assms(1,2) that by (auto simp: good_ids_def distinct_map inj_on_def)
  have "filter (\<lambda>s. \<not> mine s) (tab_set keep (ident t) upd ys) = filter (\<lambda>s. \<not> mine s) ys"
    if "set ys \<subseteq> set tab" for ys
    using that assms(3,4) by (induction ys) (auto simp: tab_set_def dest: inj)
  then show ?thesis by simp
qed

lemma filter_tab_set_length:
  assumes "good_ids tab" "t \<in> set tab" "mine t" "mine (keep (upd @ t))"
  shows "length (filter mine (tab_set keep (ident t) upd tab)) = length (filter mine tab)"
proof -
  have "length (filter mine (tab_set keep (ident t) upd tab)) +
      length (filter (\<lambda>s. \<not> mine s) (tab_set keep (ident t) upd tab)) =
      length (filter mine tab) + length (filter (\<lambda>s. \<not> mine s) tab)"
    by (simp only: sum_length_filter_compl) (simp add: tab_set_def)
  then show ?thesis by (simp add: filter_tab_set_other [where keep = keep and upd = upd, OF assms])
qed

text \<open>Entries of others are untouched, and at most one entry of the program's own is added.\<close>

lemma ensures_frame:
  assumes "ensures wanted mine upd new defaults keep tab tab'" "sane settled mine upd new defaults keep" "good_ids tab"
  shows "filter (\<lambda>s. \<not> mine s) tab' = filter (\<lambda>s. \<not> mine s) tab"
    "length (filter mine tab') \<le> max 1 (length (filter mine tab))"
proof -
  note ns = filter_tab_set_other [OF assms(3)] filter_tab_set_length [OF assms(3)]
  have own: "mine (keep ((''.id'', i) # new @ defaults))" "mine t \<Longrightarrow> mine (keep (upd @ t))" for i t
    using assms(2) by (auto simp: sane_def)
  show "filter (\<lambda>s. \<not> mine s) tab' = filter (\<lambda>s. \<not> mine s) tab"
    using assms(1) own ns(1) unfolding ensures_def tab_add_def by auto
  have none: "filter mine tab = []" if "\<forall>s\<in>set tab. \<not> wanted s \<and> \<not> mine s"
    using that by (auto simp: filter_empty_conv)
  show "length (filter mine tab') \<le> max 1 (length (filter mine tab))"
    using assms(1) own ns(2) none unfolding ensures_def tab_add_def by auto
qed

text \<open>What an operation that may fail achieves, and what its repetition does.\<close>

definition achieves ::
  "(sentence \<Rightarrow> bool) \<Rightarrow> (sentence \<Rightarrow> bool) \<Rightarrow> sentence \<Rightarrow> sentence \<Rightarrow> sentence \<Rightarrow> (sentence \<Rightarrow> sentence) \<Rightarrow> bool \<Rightarrow>
   reply \<Rightarrow> reply \<Rightarrow> bool" where
  "achieves wanted mine upd new defaults keep success tab tab' \<longleftrightarrow>
     (\<not> success \<and> tab' = tab) \<or> ensures wanted mine upd new defaults keep tab tab'"

lemma achieves_cases:
  assumes "achieves wanted mine upd new defaults keep success tab tab'" "sane settled mine upd new defaults keep"
    and "good_ids tab"
  shows "good_ids tab'"
    "filter (\<lambda>s. \<not> mine s) tab' = filter (\<lambda>s. \<not> mine s) tab"
    "length (filter mine tab') \<le> max 1 (length (filter mine tab))"
    "success \<Longrightarrow> (\<And>s. s \<in> set tab \<Longrightarrow> wanted s \<Longrightarrow> settled s) \<Longrightarrow> \<exists>s\<in>set tab'. settled s"
  using assms ensures_good_ids [OF _ assms(2,3)] ensures_frame [OF _ assms(2,3)]
    ensures_settled [OF _ assms(2)]
  unfolding achieves_def by fastforce+

lemma achieves_again:
  assumes "achieves wanted mine upd new defaults keep success tab tab'" "\<exists>s\<in>set tab. wanted s"
  shows "tab' = tab"
  using assms unfolding achieves_def ensures_def by blast

lemma outcome_achieves_set:
  assumes "outcome tab w (r, w') (\<lambda>t. t = tab_set keep (ident e) upd (tab w))"
    and "\<forall>s\<in>set (tab w). \<not> wanted s" "e \<in> set (tab w)" "mine e"
  shows "achieves wanted mine upd new defaults keep (\<not> isl r) (tab w) (tab w')"
  using assms unfolding outcome_def achieves_def ensures_def
  by (cases r) auto

lemma outcome_achieves_add:
  assumes "outcome tab w (r, w') (\<lambda>t. \<exists>i. fresh_id i (tab w) \<and> t = tab_add keep i new defaults (tab w))"
    and "\<forall>s\<in>set (tab w). \<not> wanted s \<and> \<not> mine s"
  shows "achieves wanted mine upd new defaults keep (\<not> isl r) (tab w) (tab w')"
  using assms unfolding outcome_def achieves_def ensures_def
  by (cases r) auto

text \<open>A property of the program's own entries that the update and the new entry have is kept.\<close>

lemma achieves_keeps:
  assumes "achieves wanted mine upd new defaults keep success tab tab'"
    and "\<forall>s\<in>set tab. mine s \<longrightarrow> ok s" "\<And>t. ok (keep (upd @ t))" "\<And>i. ok (keep ((''.id'', i) # new @ defaults))"
  shows "\<forall>s\<in>set tab'. mine s \<longrightarrow> ok s"
  using assms unfolding achieves_def ensures_def tab_set_def tab_add_def by fastforce

text \<open>
  The consequences together: entries of others are as before, at most one own entry is added,
  identifiers stay unique, and after a success an entry is settled; an operation \<open>converges\<close> if
  moreover another run after a success, with the table \<open>again\<close> after it, changes nothing.
\<close>

definition establishes :: "(sentence \<Rightarrow> bool) \<Rightarrow> (sentence \<Rightarrow> bool) \<Rightarrow> bool \<Rightarrow> reply \<Rightarrow> reply \<Rightarrow> bool" where
  "establishes settled mine success tab tab' \<longleftrightarrow>
     filter (\<lambda>s. \<not> mine s) tab' = filter (\<lambda>s. \<not> mine s) tab \<and>
     length (filter mine tab') \<le> max 1 (length (filter mine tab)) \<and> good_ids tab' \<and>
     (success \<longrightarrow> (\<exists>s\<in>set tab'. settled s))"

definition converges ::
  "(sentence \<Rightarrow> bool) \<Rightarrow> (sentence \<Rightarrow> bool) \<Rightarrow> bool \<Rightarrow> reply \<Rightarrow> reply \<Rightarrow> reply \<Rightarrow> bool" where
  "converges wanted mine success tab tab' again \<longleftrightarrow>
     filter (\<lambda>s. \<not> mine s) tab' = filter (\<lambda>s. \<not> mine s) tab \<and>
     length (filter mine tab') \<le> max 1 (length (filter mine tab)) \<and> good_ids tab' \<and>
     (success \<longrightarrow> (\<exists>s\<in>set tab'. wanted s) \<and> again = tab')"

lemma achieves_establishes:
  assumes "achieves wanted mine upd new defaults keep success tab tab'" "sane settled mine upd new defaults keep"
    and "good_ids tab" "\<And>s. s \<in> set tab \<Longrightarrow> wanted s \<Longrightarrow> settled s"
  shows "establishes settled mine success tab tab'"
  using achieves_cases(1-3) [OF assms(1-3)] achieves_cases(4) [OF assms(1-3) _ assms(4)]
  unfolding establishes_def by blast

lemma achieves_converges:
  assumes "achieves wanted mine upd new defaults keep success tab tab'" "sane wanted mine upd new defaults keep"
    and "good_ids tab" "success \<Longrightarrow> achieves wanted mine upd new defaults keep success' tab' again"
  shows "converges wanted mine success tab tab' again"
  using achieves_establishes [OF assms(1-3)] achieves_again [OF assms(4)]
  unfolding converges_def establishes_def by blast

section \<open>A reference router\<close>

text \<open>One menu, as a router keeps it: it satisfies the hypothesis of the properties.\<close>

definition unattr :: "string \<Rightarrow> string \<times> string" where
  "unattr a =
     (takeWhile (\<lambda>c. c \<noteq> CHR ''='') (drop 1 a), drop 1 (dropWhile (\<lambda>c. c \<noteq> CHR ''='') (drop 1 a)))"

definition new_id :: "reply \<Rightarrow> string" where
  "new_id tab = CHR ''*'' # concat (map ident tab)"

definition menu_keeping :: "string \<Rightarrow> (sentence \<Rightarrow> bool) \<Rightarrow> sentence \<Rightarrow> (sentence \<Rightarrow> sentence) \<Rightarrow> reply run" where
  "menu_keeping path sel defaults keep args tab =
     (case args of
        [] \<Rightarrow> (Inl (APIError ''no command''), tab)
      | c # as \<Rightarrow>
          if c = path @ ''/print'' then (Inr (filter sel tab), tab)
          else if c = path @ ''/set'' then (Inr [], tab_set keep (drop 5 (hd as)) (map unattr (tl as)) tab)
          else if c = path @ ''/add'' then (Inr [], tab_add keep (new_id tab) (map unattr as) defaults tab)
          else (Inl (APIError ''no such command''), tab))"

abbreviation menu_ref :: "string \<Rightarrow> (sentence \<Rightarrow> bool) \<Rightarrow> sentence \<Rightarrow> reply run" where
  "menu_ref path sel defaults \<equiv> menu_keeping path sel defaults (\<lambda>s. s)"

lemma unattr_attr: "CHR ''='' \<notin> set (fst kv) \<Longrightarrow> unattr (attr kv) = kv"
proof -
  assume *: "CHR ''='' \<notin> set (fst kv)"
  then have "takeWhile (\<lambda>c. c \<noteq> CHR ''='') (fst kv @ CHR ''='' # snd kv) = fst kv"
    "dropWhile (\<lambda>c. c \<noteq> CHR ''='') (fst kv @ CHR ''='' # snd kv) = CHR ''='' # snd kv"
    by (induction "fst kv") (auto simp: takeWhile_append dropWhile_append)
  then show ?thesis by (simp add: unattr_def attr_def)
qed

lemma map_unattr_attr: "args_ok args \<Longrightarrow> map unattr (map attr args) = args"
  by (induction args) (auto simp: args_ok_def unattr_attr)

lemma fresh_new_id: "fresh_id (new_id tab) tab"
proof -
  have "length (ident s) \<le> length (concat (map ident tab))" if "s \<in> set tab" for s
    using that by (induction tab) auto
  from this have "ident s \<noteq> new_id tab" if "s \<in> set tab" for s
    using that by (fastforce simp: new_id_def dest: arg_cong [where f = length])
  then have "new_id tab \<notin> ident ` set tab" by (metis image_iff)
  then show ?thesis by (simp add: fresh_id_def new_id_def)
qed

lemma menu_keeping_router: "router_keeping (menu_keeping path sel defaults keep) path query sel keys defaults keep (\<lambda>w. w)"
proof -
  have "list_all2 (\<lambda>r s. \<forall>k\<in>keys. prop_of r k = prop_of s k) xs xs" for xs
    by (rule list_all2_refl) simp
  then show ?thesis
    by (auto simp: router_keeping_def menu_keeping_def outcome_def map_unattr_attr fresh_new_id
        simp del: map_map intro!: exI [where x = "new_id _"])
qed

lemmas menu_ref_router = menu_keeping_router [where keep = "\<lambda>s. s"]

end
