(* ===== verification/RosProps.thy ===== *)
theory RosProps
  imports Menu
begin

text \<open>
  The operations of \<open>ros.go\<close> that write to the router refine the specification of the
  previous theory, on every router that behaves as documented: what they leave behind, that
  repeating them changes nothing, and that they do not touch entries of others. Addresses
  with \<open>eui-64\<close> are the exception: they are written again every time. Then the decision of
  \<open>LookupNeighbor\<close> and the text of its ping interval.
\<close>

section \<open>The default route\<close>

definition route_query :: "string list" where
  "route_query = [''=.proplist=.id,gateway,comment'', ''?dst-address=::/0'']"

definition route_sel :: "sentence \<Rightarrow> bool" where
  "route_sel s \<longleftrightarrow> prop_of s ''dst-address'' = ''::/0''"

definition route_wanted :: "string \<Rightarrow> bytes \<Rightarrow> sentence \<Rightarrow> bool" where
  "route_wanted ifname gateway s \<longleftrightarrow> route_sel s \<and> gateway_is ifname gateway (prop_of s ''gateway'')"

definition route_mine :: "sentence \<Rightarrow> bool" where
  "route_mine s \<longleftrightarrow> route_sel s \<and> prop_of s ''comment'' = rosCommentKey"

definition gateway_text :: "string \<Rightarrow> bytes \<Rightarrow> string" where
  "gateway_text ifname gateway = IP_String gateway @ ''%'' @ ifname"

definition route_upd :: "string \<Rightarrow> bytes \<Rightarrow> sentence" where
  "route_upd ifname gateway = [(''gateway'', gateway_text ifname gateway)]"

definition route_new :: "string \<Rightarrow> bytes \<Rightarrow> sentence" where
  "route_new ifname gateway =
     [(''dst-address'', ''::/0''), (''gateway'', gateway_text ifname gateway), (''comment'', rosCommentKey)]"

abbreviation route_router :: "'w run \<Rightarrow> sentence \<Rightarrow> ('w \<Rightarrow> reply) \<Rightarrow> bool" where
  "route_router run defaults tab \<equiv>
     router_menu run ''/ipv6/route'' route_query route_sel {''.id'', ''gateway'', ''comment''} defaults tab"

lemma IP_String_free:
  assumes "length ip = 16" "\<not> is_dig 16 c" "\<not> is_dig 10 c" "c \<noteq> CHR '':''" "c \<noteq> CHR ''.''"
  shows "c \<notin> set (IP_String ip)"
proof (cases "To4 ip")
  case None
  obtain e0 n where "longest_run (groups ip) 0 (0, 0) = (e0, n)" by fastforce
  with None assms show ?thesis
    using colon_hex_free [of c] by (auto simp: IP_String_def Let_def)
next
  case (Some p4)
  with assms show ?thesis
    using IP_String_v4(1) [OF assms(1) Some] show_base_free [of 10 c] by (auto dest!: set_Join)
qed

lemma IP_String_no_percent: "length ip = 16 \<Longrightarrow> CHR ''%'' \<notin> set (IP_String ip)"
proof (rule IP_String_free)
  show "\<not> is_dig 16 CHR ''%''" "\<not> is_dig 10 CHR ''%''" by code_simp+
qed simp_all

lemma gateway_is_own:
  assumes "length gateway = 16" "CHR ''%'' \<notin> set ifname"
  shows "gateway_is ifname gateway (gateway_text ifname gateway)"
proof -
  have "Split CHR ''%'' (gateway_text ifname gateway) = [IP_String gateway, ifname]"
    using Split_append_sep [OF IP_String_no_percent [OF assms(1)], of ifname]
    by (simp add: gateway_text_def Split_no_sep assms(2))
  then show ?thesis
    by (simp add: gateway_is_def ParseIP_String assms(1) IP_Equal_def)
qed

lemma route_sane:
  assumes "length gateway = 16" "CHR ''%'' \<notin> set ifname"
  shows "sane (route_wanted ifname gateway) route_mine (route_upd ifname gateway)
     (route_new ifname gateway) defaults (\<lambda>s. s)"
  by (auto simp: sane_def route_wanted_def route_mine_def route_sel_def route_upd_def route_new_def
      gateway_is_own [OF assms] args_ok_def)

lemma scan_routes_None:
  "scan_routes ifname gateway rep m = None \<longleftrightarrow>
     (\<exists>r\<in>set rep. gateway_is ifname gateway (prop_of r ''gateway''))"
  by (induction rep arbitrary: m) (auto simp: Let_def)

lemma scan_routes_Some:
  "scan_routes ifname gateway rep m = Some t \<Longrightarrow>
     (\<exists>r\<in>set rep. prop_of r ''comment'' = rosCommentKey \<and> prop_of r ''.id'' = t) \<or>
     t = m \<and> (\<forall>r\<in>set rep. prop_of r ''comment'' \<noteq> rosCommentKey)"
  by (induction rep arbitrary: m) (fastforce simp: Let_def split: if_splits)+

text \<open>What a reply says is true of the entries it shows, and the other way round.\<close>

lemma reply_ex:
  assumes "list_all2 (\<lambda>r s. \<forall>k\<in>keys. prop_of r k = prop_of s k) rep (filter sel tab)"
    and "\<And>r s. (\<forall>k\<in>keys. prop_of r k = prop_of s k) \<Longrightarrow> P r = P s"
  shows "(\<exists>r\<in>set rep. P r) \<longleftrightarrow> (\<exists>s\<in>set tab. sel s \<and> P s)"
proof -
  have "(\<exists>r\<in>set rep. P r) \<longleftrightarrow> (\<exists>s\<in>set es. P s)"
    if "list_all2 (\<lambda>r s. \<forall>k\<in>keys. prop_of r k = prop_of s k) rep es" for es
    using that by (induction rule: list_all2_induct) (auto dest: assms(2))
  from this [OF assms(1)] show ?thesis by auto
qed

lemma SetIPv6Gateway_achieves:
  assumes "route_router run defaults tab" "good_ids (tab w)"
    and "SetIPv6Gateway run ifname gateway w = (res, w')"
  shows "achieves (route_wanted ifname gateway) route_mine (route_upd ifname gateway)
     (route_new ifname gateway) defaults (\<lambda>s. s) (res = None) (tab w) (tab w')"
proof -
  obtain r1 w1 where print: "run (''/ipv6/route/print'' # route_query) w = (r1, w1)"
    by (meson surj_pair)
  have cmd: "''/ipv6/route/print'' = ''/ipv6/route'' @ ''/print''"
    "''/ipv6/route/set'' = ''/ipv6/route'' @ ''/set''" "''/ipv6/route/add'' = ''/ipv6/route'' @ ''/add''"
    by simp_all
  note pr = router_print [OF assms(1), folded cmd, OF print]
  show ?thesis
  proof (cases r1)
    case (Inl e)
    with assms(3) print pr(1) show ?thesis
      by (auto simp: SetIPv6Gateway_def route_query_def achieves_def)
  next
    case (Inr rep)
    note rel = pr(2) [OF Inr]
    have wanted: "(\<exists>r\<in>set rep. gateway_is ifname gateway (prop_of r ''gateway'')) \<longleftrightarrow>
        (\<exists>s\<in>set (tab w). route_wanted ifname gateway s)"
      unfolding route_wanted_def by (rule reply_ex [OF rel]) simp
    show ?thesis
    proof (cases "scan_routes ifname gateway rep []")
      case None
      then have "res = None" "w' = w1"
        using assms(3) print Inr by (simp_all add: SetIPv6Gateway_def route_query_def)
      moreover have "\<exists>s\<in>set (tab w). route_wanted ifname gateway s"
        using None wanted by (simp only: scan_routes_None)
      ultimately show ?thesis
        by (simp add: achieves_def ensures_def pr(1))
    next
      case (Some t)
      then have none: "\<forall>s\<in>set (tab w). \<not> route_wanted ifname gateway s"
        using wanted scan_routes_None [of ifname gateway rep "[]"] by auto
      obtain r2 w2 where run2: "(if t \<noteq> [] then
            run ((''/ipv6/route'' @ ''/set'') # (''=.id='' @ t) # map attr (route_upd ifname gateway)) w1
          else run ((''/ipv6/route'' @ ''/add'') # map attr (route_new ifname gateway)) w1) = (r2, w2)"
        by (meson surj_pair)
      have res: "w2 = w'" "(res = None) = (\<not> isl r2)"
        using assms(3) print Inr Some run2
        by (auto simp: SetIPv6Gateway_def route_query_def Let_def attr_def route_upd_def route_new_def
            gateway_text_def split: sum.splits if_splits)
      have args: "args_ok (route_upd ifname gateway)" "args_ok (route_new ifname gateway)"
        by (auto simp: args_ok_def route_upd_def route_new_def)
      have mine: "(\<exists>r\<in>set rep. prop_of r ''comment'' = rosCommentKey \<and> prop_of r ''.id'' = i) \<longleftrightarrow>
          (\<exists>s\<in>set (tab w). route_mine s \<and> ident s = i)" for i
        unfolding route_mine_def ident_def conj_assoc by (rule reply_ex [OF rel]) simp
      show ?thesis
      proof (cases "t = []")
        case True
        then have "\<forall>s\<in>set (tab w). \<not> route_mine s"
          using scan_routes_Some [OF Some] mine assms(2) unfolding good_ids_def by (metis image_eqI)
        with none have "\<forall>s\<in>set (tab w1). \<not> route_wanted ifname gateway s \<and> \<not> route_mine s"
          by (simp add: pr(1))
        with run2 True router_add [OF assms(1) args(2), of w1 r2 w2] show ?thesis
          using outcome_achieves_add [of tab w1 r2 w2 "\<lambda>s. s" "route_new ifname gateway" defaults] res pr(1)
          by simp
      next
        case False
        then obtain e where "e \<in> set (tab w)" "route_mine e" "ident e = t"
          using scan_routes_Some [OF Some] mine by blast
        with run2 False router_set [OF assms(1) args(1), of t w1 r2 w2] none show ?thesis
          using outcome_achieves_set [of tab w1 r2 w2 "\<lambda>s. s" e "route_upd ifname gateway"] res pr(1)
          by simp
      qed
    qed
  qed
qed

section \<open>The prefix pool\<close>

definition pool_sel :: "string \<Rightarrow> sentence \<Rightarrow> bool" where
  "pool_sel name s \<longleftrightarrow> prop_of s ''name'' = name"

definition pool_wanted :: "string \<Rightarrow> IPNet \<Rightarrow> int \<Rightarrow> sentence \<Rightarrow> bool" where
  "pool_wanted name cidr prefixlen s \<longleftrightarrow> pool_sel name s \<and>
     cidrEqual (prop_of s ''prefix'') cidr = Ret True \<and> prop_of s ''prefix-length'' = print_int prefixlen"

definition pool_upd :: "IPNet \<Rightarrow> int \<Rightarrow> sentence" where
  "pool_upd cidr prefixlen = [(''prefix'', IPNet_String cidr), (''prefix-length'', print_int prefixlen)]"

definition pool_new :: "string \<Rightarrow> IPNet \<Rightarrow> int \<Rightarrow> sentence" where
  "pool_new name cidr prefixlen = (''name'', name) # pool_upd cidr prefixlen"

abbreviation pool_router :: "'w run \<Rightarrow> string \<Rightarrow> sentence \<Rightarrow> ('w \<Rightarrow> reply) \<Rightarrow> bool" where
  "pool_router run name defaults tab \<equiv>
     router_menu run ''/ipv6/pool'' [''?name='' @ name] (pool_sel name)
       {''.id'', ''name'', ''prefix'', ''prefix-length''} defaults tab"

definition pool_ok :: "sentence \<Rightarrow> bool" where
  "pool_ok s \<longleftrightarrow> ParseCIDR (prop_of s ''prefix'') \<noteq> None"

lemma cidrEqual_ok: "ParseCIDR s \<noteq> None \<Longrightarrow> \<exists>b. cidrEqual s n = Ret b"
  by (auto simp: cidrEqual_def)

lemma ParseCIDR_own_text: "wf_net n \<Longrightarrow> ParseCIDR (IPNet_String n) \<noteq> None"
  using cidrEqual_own_text [of n] by (auto simp: cidrEqual_def split: option.splits)

lemma pool_sane: "wf_net cidr \<Longrightarrow>
   sane (pool_wanted name cidr prefixlen) (pool_sel name) (pool_upd cidr prefixlen)
     (pool_new name cidr prefixlen) defaults (\<lambda>s. s)"
  by (auto simp: sane_def pool_wanted_def pool_sel_def pool_upd_def pool_new_def
      cidrEqual_own_text args_ok_def)

lemma at_most_one:
  assumes "length (filter P tab) \<le> 1" "filter P tab = s # ss"
  shows "set tab \<inter> Collect P = {s}"
proof -
  have "set tab \<inter> Collect P = set (filter P tab)" by auto
  also have "\<dots> = {s}" using assms by (simp add: assms(2))
  finally show ?thesis .
qed

lemma ExportIPv6Pool_achieves:
  assumes "pool_router run name defaults tab" "length (filter (pool_sel name) (tab w)) \<le> 1"
    and "\<forall>s\<in>set (tab w). pool_sel name s \<longrightarrow> pool_ok s"
  shows "\<exists>res w'. ExportIPv6Pool run name cidr prefixlen w = (Ret res, w') \<and>
     achieves (pool_wanted name cidr prefixlen) (pool_sel name) (pool_upd cidr prefixlen)
       (pool_new name cidr prefixlen) defaults (\<lambda>s. s) (res = None) (tab w) (tab w')"
proof -
  let ?goal = "\<lambda>gw. \<exists>res w'. gw = (Ret res, w') \<and>
     achieves (pool_wanted name cidr prefixlen) (pool_sel name) (pool_upd cidr prefixlen)
       (pool_new name cidr prefixlen) defaults (\<lambda>s. s) (res = None) (tab w) (tab w')"
  obtain r1 w1 where print: "run [''/ipv6/pool/print'', ''?name='' @ name] w = (r1, w1)"
    by (meson surj_pair)
  have cmd: "''/ipv6/pool/print'' = ''/ipv6/pool'' @ ''/print''"
    "''/ipv6/pool/set'' = ''/ipv6/pool'' @ ''/set''" "''/ipv6/pool/add'' = ''/ipv6/pool'' @ ''/add''"
    by simp_all
  note pr = router_print [OF assms(1), folded cmd, OF print]
  have args: "args_ok (pool_upd cidr prefixlen)" "args_ok (pool_new name cidr prefixlen)"
    by (auto simp: args_ok_def pool_upd_def pool_new_def)
  define send where "send = (\<lambda>args w. case run args w of
     (Inl e, w) \<Rightarrow> (Ret (Some e), w) | (Inr (_ :: reply), w) \<Rightarrow> (Ret None, w))"
  have send: "\<exists>r2 w2 res. run args w1 = (r2, w2) \<and> send args w1 = (Ret res, w2) \<and> (res = None) = (\<not> isl r2)"
    for args
    by (cases "run args w1"; cases "fst (run args w1)") (auto simp: send_def)
  show ?thesis
  proof (cases r1)
    case (Inl e)
    with print pr(1) show ?thesis
      by (simp add: ExportIPv6Pool_def achieves_def)
  next
    case (Inr rep)
    note rel = pr(2) [OF Inr]
    show ?thesis
    proof (cases rep)
      case Nil
      with rel have none: "\<forall>s\<in>set (tab w1). \<not> pool_wanted name cidr prefixlen s \<and> \<not> pool_sel name s"
        by (simp add: filter_empty_conv pool_wanted_def pr(1))
      let ?cmd = "(''/ipv6/pool'' @ ''/add'') # map attr (pool_new name cidr prefixlen)"
      obtain r2 w2 res where r2: "run ?cmd w1 = (r2, w2)" "send ?cmd w1 = (Ret res, w2)"
          "(res = None) = (\<not> isl r2)"
        using send by blast
      have "ExportIPv6Pool run name cidr prefixlen w = send ?cmd w1"
        using print Inr Nil
        by (simp add: ExportIPv6Pool_def send_def attr_def pool_new_def pool_upd_def)
      with r2(2) have "ExportIPv6Pool run name cidr prefixlen w = (Ret res, w2)" by simp
      then show ?thesis
        using outcome_achieves_add [where wanted = "pool_wanted name cidr prefixlen"
            and mine = "pool_sel name", OF router_add [OF assms(1) args(2) r2(1)] none]
        by (simp add: pr(1) r2(3))
    next
      case (Cons r rep')
      with rel obtain s ss where s: "filter (pool_sel name) (tab w) = s # ss"
          "\<forall>k\<in>{''.id'', ''name'', ''prefix'', ''prefix-length''}. prop_of r k = prop_of s k"
        by (auto simp: list_all2_Cons1)
      have only: "set (tab w) \<inter> Collect (pool_sel name) = {s}"
        by (rule at_most_one [OF assms(2) s(1)])
      then have mem: "s \<in> set (tab w)" "pool_sel name s" by auto
      with assms(3) obtain eq where eq: "cidrEqual (prop_of s ''prefix'') cidr = Ret eq"
        using cidrEqual_ok by (force simp: pool_ok_def)
      show ?thesis
      proof (cases "pool_wanted name cidr prefixlen s")
        case True
        with print Inr Cons s(2) have "ExportIPv6Pool run name cidr prefixlen w = (Ret None, w1)"
          by (simp add: ExportIPv6Pool_def pool_wanted_def)
        with True mem(1) pr(1) show ?thesis
          by (auto simp: achieves_def ensures_def)
      next
        case False
        have none: "\<forall>t\<in>set (tab w1). \<not> pool_wanted name cidr prefixlen t"
        proof (intro ballI notI)
          fix t
          assume t: "t \<in> set (tab w1)" "pool_wanted name cidr prefixlen t"
          then have "t \<in> set (tab w) \<inter> Collect (pool_sel name)" by (simp add: pool_wanted_def pr(1))
          with only t(2) False show False by simp
        qed
        have idr: "prop_of r ''.id'' = prop_of s ''.id''"
          and eqr: "cidrEqual (prop_of r ''prefix'') cidr = Ret eq"
          and plr: "prop_of r ''prefix-length'' = prop_of s ''prefix-length''"
          using s(2) eq by simp_all
        have nw: "(eq \<and> prop_of r ''prefix-length'' = print_int prefixlen) = False"
          using False mem(2) eq by (simp add: plr pool_wanted_def)
        let ?cmd = "(''/ipv6/pool'' @ ''/set'') # (''=.id='' @ ident s) # map attr (pool_upd cidr prefixlen)"
        obtain r2 w2 res where r2: "run ?cmd w1 = (r2, w2)" "send ?cmd w1 = (Ret res, w2)"
            "(res = None) = (\<not> isl r2)"
          using send by blast
        have "ExportIPv6Pool run name cidr prefixlen w = send ?cmd w1"
          using print Inr Cons eqr nw
          by (simp add: ExportIPv6Pool_def send_def attr_def pool_upd_def ident_def idr del: de_Morgan_conj)
        with r2(2) have "ExportIPv6Pool run name cidr prefixlen w = (Ret res, w2)" by simp
        moreover have "s \<in> set (tab w1)" using mem(1) pr(1) by simp
        ultimately show ?thesis
          using outcome_achieves_set [where wanted = "pool_wanted name cidr prefixlen"
                and mine = "pool_sel name",
              OF router_set [OF assms(1) args(1) r2(1)] none _ mem(2)]
          by (simp add: pr(1) r2(3))
      qed
    qed
  qed
qed

section \<open>The addresses of an interface\<close>

definition address_comment :: "string \<Rightarrow> string" where
  "address_comment key = rosCommentKey @ '' '' @ key"

definition address_query :: "string \<Rightarrow> string list" where
  "address_query ifname =
     [''=.proplist=.id,comment,address,advertise,eui-64'', ''?comment'', ''?dynamic=false'', ''?#&'',
      ''?interface='' @ ifname, ''?#&'']"

definition address_sel :: "string \<Rightarrow> sentence \<Rightarrow> bool" where
  "address_sel ifname s \<longleftrightarrow> prop_of s ''comment'' \<noteq> [] \<and> prop_of s ''dynamic'' = ''false'' \<and>
     prop_of s ''interface'' = ifname"

definition address_mine :: "string \<Rightarrow> string \<Rightarrow> sentence \<Rightarrow> bool" where
  "address_mine ifname key s \<longleftrightarrow> address_sel ifname s \<and> prop_of s ''comment'' = address_comment key"

definition address_set :: "IPNet \<Rightarrow> ROSIPOptions \<Rightarrow> sentence \<Rightarrow> bool" where
  "address_set n options s \<longleftrightarrow> cidrEqual (prop_of s ''address'') n = Ret True \<and>
     prop_of s ''eui-64'' = FormatBool (opt_Eui64 options) \<and>
     prop_of s ''advertise'' = FormatBool (opt_Advertise options)"

definition address_wanted :: "string \<Rightarrow> IPNet \<Rightarrow> string \<Rightarrow> ROSIPOptions \<Rightarrow> sentence \<Rightarrow> bool" where
  "address_wanted ifname n key options s \<longleftrightarrow> address_mine ifname key s \<and> address_set n options s"

definition address_upd :: "IPNet \<Rightarrow> ROSIPOptions \<Rightarrow> sentence" where
  "address_upd n options =
     [(''address'', IPNet_String n), (''advertise'', FormatBool (opt_Advertise options)),
      (''eui-64'', FormatBool (opt_Eui64 options))]"

definition address_new :: "string \<Rightarrow> IPNet \<Rightarrow> string \<Rightarrow> ROSIPOptions \<Rightarrow> sentence" where
  "address_new ifname n key options =
     (''interface'', ifname) # address_upd n options @ [(''comment'', address_comment key)]"

text \<open>
  With \<open>eui-64\<close> the router calculates the last 64 bits of an address itself, from the hardware
  address of the interface (\<open>macs\<close>): \<open>address_keep\<close> is what it keeps of an entry, and
  \<open>kept_net\<close> what becomes of a network the program sends.
\<close>

definition eui64 :: "bytes \<Rightarrow> bytes" where
  "eui64 mac = [mac ! 0 XOR 2, mac ! 1, mac ! 2, 0xff, 0xfe, mac ! 3, mac ! 4, mac ! 5]"

definition own_suffix :: "bytes \<Rightarrow> bytes \<Rightarrow> bytes" where
  "own_suffix mac ip = take 8 ip @ eui64 mac"

definition kept_net :: "(string \<Rightarrow> bytes) \<Rightarrow> string \<Rightarrow> ROSIPOptions \<Rightarrow> IPNet \<Rightarrow> IPNet" where
  "kept_net macs ifname options n =
     (if opt_Eui64 options then n\<lparr>net_IP := Some (own_suffix (macs ifname) (bs (net_IP n)))\<rparr> else n)"

definition address_keep :: "(string \<Rightarrow> bytes) \<Rightarrow> sentence \<Rightarrow> sentence" where
  "address_keep macs s =
     (if prop_of s ''eui-64'' \<noteq> ''true'' then s
      else case ParseCIDR (prop_of s ''address'') of
        None \<Rightarrow> s
      | Some (ip, m) \<Rightarrow>
          (''address'', IPNet_String (m\<lparr>net_IP := Some (own_suffix (macs (prop_of s ''interface'')) ip)\<rparr>)) # s)"

definition address_keys :: "string set" where
  "address_keys = {''.id'', ''comment'', ''address'', ''advertise'', ''eui-64''}"

abbreviation address_router :: "'w run \<Rightarrow> (string \<Rightarrow> bytes) \<Rightarrow> string \<Rightarrow> sentence \<Rightarrow> ('w \<Rightarrow> reply) \<Rightarrow> bool" where
  "address_router run macs ifname defaults tab \<equiv>
     router_keeping run ''/ipv6/address'' (address_query ifname) (address_sel ifname)
       address_keys defaults (address_keep macs) tab"

text \<open>What holds of the addresses a router has: CIDR texts, with its own suffix if they are \<open>eui-64\<close>.\<close>

definition address_ok :: "(string \<Rightarrow> bytes) \<Rightarrow> sentence \<Rightarrow> bool" where
  "address_ok macs s \<longleftrightarrow> (\<exists>ip m. ParseCIDR (prop_of s ''address'') = Some (ip, m) \<and>
     (prop_of s ''eui-64'' = ''true'' \<longrightarrow> drop 8 ip = eui64 (macs (prop_of s ''interface''))))"

text \<open>A network whose own suffix is known to the text form: no IPv4 address in sixteen bytes.\<close>

definition plain6 :: "ROSIPOptions \<Rightarrow> IPNet \<Rightarrow> bool" where
  "plain6 options n \<longleftrightarrow> wf_net n \<and> (opt_Eui64 options \<longrightarrow> To4 (bs (net_IP n)) = None)"

lemma length_own_suffix: "length ip = 16 \<Longrightarrow> length (own_suffix mac ip) = 16"
  by (simp add: own_suffix_def eui64_def)

lemma drop_own_suffix: "length ip = 16 \<Longrightarrow> drop 8 (own_suffix mac ip) = eui64 mac"
  by (simp add: own_suffix_def)

lemma own_suffix_same: "drop 8 ip = eui64 mac \<Longrightarrow> own_suffix mac ip = ip"
  unfolding own_suffix_def by (metis append_take_drop_id)

lemma wf_kept_net: "wf_net n \<Longrightarrow> wf_net (kept_net macs ifname options n)"
  using length_own_suffix unfolding kept_net_def wf_net_def by auto blast

text \<open>What the router keeps of an entry that the program writes.\<close>

lemma prop_of_address_keep: "k \<noteq> ''address'' \<Longrightarrow> prop_of (address_keep macs s) k = prop_of s k"
  by (auto simp: address_keep_def split: option.splits)

lemma address_kept:
  assumes "plain6 options n" "prop_of s ''address'' = IPNet_String n"
    and "prop_of s ''eui-64'' = FormatBool (opt_Eui64 options)"
  shows "prop_of (address_keep macs s) ''address'' = IPNet_String (kept_net macs (prop_of s ''interface'') options n)"
proof (cases "opt_Eui64 options")
  case False
  with assms show ?thesis by (simp add: address_keep_def kept_net_def FormatBool_def)
next
  case True
  then obtain m where m: "ParseCIDR (IPNet_String n) = Some (bs (net_IP n), m)" "net_Mask m = net_Mask n"
    using assms(1) ParseCIDR_own [of n] by (auto simp: plain6_def)
  then have eq: "m\<lparr>net_IP := x\<rparr> = n\<lparr>net_IP := x\<rparr>" for x by (cases m; cases n) simp
  show ?thesis using True m(1) assms(2,3) by (simp add: address_keep_def kept_net_def FormatBool_def eq)
qed

lemma address_keep_ok:
  assumes "plain6 options n" "prop_of s ''address'' = IPNet_String n"
    and "prop_of s ''eui-64'' = FormatBool (opt_Eui64 options)"
  shows "address_ok macs (address_keep macs s)"
proof -
  let ?n = "kept_net macs (prop_of s ''interface'') options n"
  have wf: "wf_net n" using assms(1) by (simp add: plain6_def)
  then obtain ip k where n: "length ip = 16" "n = \<lparr>net_IP = Some ip, net_Mask = Some (mask_bytes 16 k)\<rparr>"
    by (auto simp: wf_net_def)
  have "drop 8 (bs (net_IP ?n)) = eui64 (macs (prop_of s ''interface''))" if "opt_Eui64 options"
    using that n by (simp add: kept_net_def drop_own_suffix)
  then show ?thesis
    using ParseCIDR_own [OF wf_kept_net [OF wf]] assms(3)
    by (fastforce simp: address_ok_def address_kept [OF assms] prop_of_address_keep FormatBool_def)
qed

text \<open>An entry the program takes for the wanted one is one the router keeps like that.\<close>

lemma wanted_kept:
  assumes "address_wanted ifname n key options s" "address_ok macs s" "wf_net n"
  shows "kept_net macs ifname options n = n"
proof (cases "opt_Eui64 options")
  case False
  then show ?thesis by (simp add: kept_net_def)
next
  case True
  then have "prop_of s ''eui-64'' = ''true''" "prop_of s ''interface'' = ifname" "cidrEqual (prop_of s ''address'') n = Ret True"
    using assms(1) by (simp_all add: address_wanted_def address_mine_def address_sel_def address_set_def FormatBool_def)
  with cidrEqual_address [OF assms(3)] assms(2) have "drop 8 (bs (net_IP n)) = eui64 (macs ifname)"
    by (fastforce simp: address_ok_def)
  with assms(3) show ?thesis
    by (auto simp: kept_net_def own_suffix_same wf_net_def)
qed

lemma address_comment_nonempty: "address_comment key \<noteq> []"
  by (simp add: address_comment_def rosCommentKey_def)

lemma address_sane:
  assumes "plain6 options n" "prop_of defaults ''dynamic'' = ''false''"
  shows "sane (address_wanted ifname (kept_net macs ifname options n) key options) (address_mine ifname key)
     (address_upd n options) (address_new ifname n key options) defaults (address_keep macs)"
proof -
  let ?m = "kept_net macs ifname options n"
  have own: "cidrEqual (IPNet_String ?m) ?m = Ret True"
    using assms(1) by (intro cidrEqual_own_text wf_kept_net) (simp add: plain6_def)
  have written: "address_wanted ifname ?m key options (address_keep macs s) \<and> address_mine ifname key (address_keep macs s)"
    if "prop_of s ''address'' = IPNet_String n" "prop_of s ''eui-64'' = FormatBool (opt_Eui64 options)"
      "prop_of s ''advertise'' = FormatBool (opt_Advertise options)" "address_mine ifname key s" for s
  proof -
    from that(4) have "prop_of s ''interface'' = ifname" by (simp add: address_mine_def address_sel_def)
    with that own show ?thesis
      by (simp add: address_wanted_def address_mine_def address_sel_def address_set_def prop_of_address_keep
          address_kept [OF assms(1) that(1,2)] address_comment_nonempty)
  qed
  have "address_mine ifname key ((''.id'', i) # address_new ifname n key options @ defaults)" for i
    using assms(2) by (simp add: address_mine_def address_sel_def address_upd_def address_new_def address_comment_nonempty)
  moreover have "address_mine ifname key (address_upd n options @ t)" if "address_mine ifname key t" for t
    using that by (auto simp: address_mine_def address_sel_def address_upd_def)
  ultimately show ?thesis
    using written unfolding sane_def
    by (simp add: ident_def prop_of_address_keep) (simp add: address_upd_def address_new_def args_ok_def)
qed

lemma scan_addresses_ok:
  assumes "\<forall>r\<in>set rep. prop_of r ''comment'' = c \<longrightarrow> ParseCIDR (prop_of r ''address'') \<noteq> None"
  shows "\<exists>x. scan_addresses (Some n) options c rep i = Ret x \<and>
     (x = None \<longleftrightarrow> (\<exists>r\<in>set rep. prop_of r ''comment'' = c \<and> address_set n options r)) \<and>
     (\<forall>t. x = Some t \<longrightarrow> (\<exists>r\<in>set rep. prop_of r ''comment'' = c \<and> prop_of r ''.id'' = t) \<or>
        t = i \<and> (\<forall>r\<in>set rep. prop_of r ''comment'' \<noteq> c))"
  using assms
proof (induction rep arbitrary: i)
  case Nil
  then show ?case by simp
next
  case (Cons r rep)
  show ?case
  proof (cases "prop_of r ''comment'' = c")
    case False
    with Cons show ?thesis by simp
  next
    case True
    with Cons.prems obtain eq where eq: "cidrEqual (prop_of r ''address'') n = Ret eq"
      using cidrEqual_ok [of "prop_of r ''address''"] by auto
    show ?thesis
    proof (cases "address_set n options r")
      case True
      with eq \<open>prop_of r ''comment'' = c\<close> show ?thesis by (simp add: address_set_def)
    next
      case False
      with eq \<open>prop_of r ''comment'' = c\<close>
      have "scan_addresses (Some n) options c (r # rep) i = scan_addresses (Some n) options c rep (prop_of r ''.id'')"
        by (auto simp: address_set_def)
      with Cons.IH [of "prop_of r ''.id''"] Cons.prems False \<open>prop_of r ''comment'' = c\<close>
      show ?thesis by auto
    qed
  qed
qed

text \<open>What the reply to the query shows of the program's own addresses.\<close>

lemma address_lift:
  assumes "list_all2 (\<lambda>r s. \<forall>k\<in>address_keys. prop_of r k = prop_of s k) rep (filter (address_sel ifname) tab)"
    and "\<And>r s. (\<forall>k\<in>address_keys. prop_of r k = prop_of s k) \<Longrightarrow> P r = P s"
  shows "(\<exists>r\<in>set rep. prop_of r ''comment'' = address_comment key \<and> P r) \<longleftrightarrow>
     (\<exists>s\<in>set tab. address_mine ifname key s \<and> P s)"
  unfolding address_mine_def conj_assoc
proof (rule reply_ex [OF assms(1)])
  fix r s :: sentence
  assume eq: "\<forall>k\<in>address_keys. prop_of r k = prop_of s k"
  then have "prop_of r ''comment'' = prop_of s ''comment''" by (simp add: address_keys_def)
  with assms(2) [OF eq] show "(prop_of r ''comment'' = address_comment key \<and> P r) =
      (prop_of s ''comment'' = address_comment key \<and> P s)" by (simp only:)
qed

lemma address_scan:
  assumes "list_all2 (\<lambda>r s. \<forall>k\<in>address_keys. prop_of r k = prop_of s k) rep (filter (address_sel ifname) tab)"
    and "\<forall>s\<in>set tab. address_mine ifname key s \<longrightarrow> address_ok macs s"
  shows "\<exists>x. scan_addresses (Some n) options (address_comment key) rep i = Ret x \<and>
     (x = None \<longleftrightarrow> (\<exists>s\<in>set tab. address_wanted ifname n key options s)) \<and>
     (\<forall>t. x = Some t \<longrightarrow> (\<exists>r\<in>set rep. prop_of r ''comment'' = address_comment key \<and> prop_of r ''.id'' = t) \<or>
        t = i \<and> (\<forall>r\<in>set rep. prop_of r ''comment'' \<noteq> address_comment key))"
proof -
  have "(\<exists>r\<in>set rep. prop_of r ''comment'' = address_comment key \<and> ParseCIDR (prop_of r ''address'') = None) \<longleftrightarrow>
      (\<exists>s\<in>set tab. address_mine ifname key s \<and> ParseCIDR (prop_of s ''address'') = None)"
    by (rule address_lift [OF assms(1)]) (simp add: address_keys_def)
  then have "\<forall>r\<in>set rep. prop_of r ''comment'' = address_comment key \<longrightarrow> ParseCIDR (prop_of r ''address'') \<noteq> None"
    using assms(2) by (auto simp: address_ok_def)
  note scan = scan_addresses_ok [OF this, of n options i]
  have "(\<exists>r\<in>set rep. prop_of r ''comment'' = address_comment key \<and> address_set n options r) \<longleftrightarrow>
      (\<exists>s\<in>set tab. address_wanted ifname n key options s)"
    unfolding address_wanted_def by (rule address_lift [OF assms(1)]) (simp add: address_keys_def address_set_def)
  with scan show ?thesis by (simp only:)
qed

lemma AssignIPv6_achieves:
  assumes "address_router run macs ifname defaults tab" "good_ids (tab w)"
    and "\<forall>s\<in>set (tab w). address_mine ifname key s \<longrightarrow> address_ok macs s"
  shows "\<exists>res w'. AssignIPv6 run ifname (Some n) key options w = (Ret res, w') \<and>
     achieves (address_wanted ifname n key options) (address_mine ifname key) (address_upd n options)
       (address_new ifname n key options) defaults (address_keep macs) (res = None) (tab w) (tab w')"
proof -
  obtain r1 w1 where print: "run (''/ipv6/address/print'' # address_query ifname) w = (r1, w1)"
    by (meson surj_pair)
  have cmd: "''/ipv6/address/print'' = ''/ipv6/address'' @ ''/print''"
    "''/ipv6/address/set'' = ''/ipv6/address'' @ ''/set''"
    "''/ipv6/address/add'' = ''/ipv6/address'' @ ''/add''"
    by simp_all
  note pr = router_print [OF assms(1), folded cmd, OF print]
  have args: "args_ok (address_upd n options)" "args_ok (address_new ifname n key options)"
    by (auto simp: args_ok_def address_upd_def address_new_def)
  show ?thesis
  proof (cases r1)
    case (Inl e)
    with print pr(1) show ?thesis
      by (simp add: AssignIPv6_def address_query_def achieves_def)
  next
    case (Inr rep)
    note rel = pr(2) [OF Inr]
    note lift = address_lift [OF rel, where key = key]
    from address_scan [OF rel assms(3), of n options "[]"] obtain x where x:
        "scan_addresses (Some n) options (address_comment key) rep [] = Ret x"
        "x = None \<longleftrightarrow> (\<exists>s\<in>set (tab w). address_wanted ifname n key options s)"
        "\<And>t. x = Some t \<Longrightarrow> (\<exists>r\<in>set rep. prop_of r ''comment'' = address_comment key \<and> prop_of r ''.id'' = t) \<or>
           t = [] \<and> (\<forall>r\<in>set rep. prop_of r ''comment'' \<noteq> address_comment key)"
      by blast
    note wanted = x(2)
    show ?thesis
    proof (cases x)
      case None
      with print Inr x(1) have "AssignIPv6 run ifname (Some n) key options w = (Ret None, w1)"
        by (simp add: AssignIPv6_def address_query_def address_comment_def)
      with None wanted pr(1) show ?thesis
        by (simp add: achieves_def ensures_def)
    next
      case (Some t)
      then have none: "\<forall>s\<in>set (tab w1). \<not> address_wanted ifname n key options s"
        using wanted pr(1) by simp
      let ?set = "(''/ipv6/address'' @ ''/set'') # (''=.id='' @ t) # map attr (address_upd n options)"
      let ?add = "(''/ipv6/address'' @ ''/add'') # map attr (address_new ifname n key options)"
      obtain r2 w2 where run2: "(if t \<noteq> [] then run ?set w1 else run ?add w1) = (r2, w2)"
        by (meson surj_pair)
      define res where "res = (case r2 of Inl e \<Rightarrow> Some e | Inr _ \<Rightarrow> None)"
      then have "(res = None) = (\<not> isl r2) \<and>
          AssignIPv6 run ifname (Some n) key options w = (Ret res, w2)"
        using print Inr Some x(1) run2
        by (cases r2; cases "t = []") (simp_all add: AssignIPv6_def address_query_def address_comment_def
            attr_def address_upd_def address_new_def net_text_def Let_def)
      then have res: "(res = None) = (\<not> isl r2)"
          "AssignIPv6 run ifname (Some n) key options w = (Ret res, w2)" by auto
      have by_id: "(\<exists>r\<in>set rep. prop_of r ''comment'' = address_comment key \<and> prop_of r ''.id'' = t) \<longleftrightarrow>
          (\<exists>s\<in>set (tab w). address_mine ifname key s \<and> prop_of s ''.id'' = t)"
        by (rule lift) (simp add: address_keys_def)
      show ?thesis
      proof (cases "t = []")
        case True
        have "\<forall>s\<in>set (tab w). \<not> address_mine ifname key s"
        proof (rule ccontr)
          assume "\<not> (\<forall>s\<in>set (tab w). \<not> address_mine ifname key s)"
          then have "\<exists>r\<in>set rep. prop_of r ''comment'' = address_comment key"
            using lift [of "\<lambda>_. True"] by simp
          then have "\<exists>r\<in>set rep. prop_of r ''comment'' = address_comment key \<and> prop_of r ''.id'' = t"
            using x(3) [OF Some] by blast
          then have "\<exists>s\<in>set (tab w). ident s = t" by (auto simp: by_id ident_def)
          with True assms(2) show False unfolding good_ids_def by (metis image_eqI)
        qed
        with none have "\<forall>s\<in>set (tab w1). \<not> address_wanted ifname n key options s \<and> \<not> address_mine ifname key s"
          by (simp add: pr(1))
        then show ?thesis
          using outcome_achieves_add [of tab w1 r2 w2 "address_keep macs" "address_new ifname n key options" defaults
              "address_wanted ifname n key options" "address_mine ifname key"]
            router_add [OF assms(1) args(2), of w1 r2 w2] run2 True res pr(1) by simp
      next
        case False
        then obtain e where "e \<in> set (tab w)" "address_mine ifname key e" "ident e = t"
          using x(3) [OF Some] by_id unfolding ident_def by blast
        then show ?thesis
          using run2 False router_set [OF assms(1) args(1), of t w1 r2 w2] none
            outcome_achieves_set [of tab w1 r2 w2 "address_keep macs" e "address_upd n options"
              "address_wanted ifname n key options" "address_mine ifname key"] res pr(1)
          by simp
      qed
    qed
  qed
qed

lemma AssignIPv6_keeps_ok:
  assumes "achieves (address_wanted ifname n key options) (address_mine ifname key) (address_upd n options)
      (address_new ifname n key options) defaults (address_keep macs) success tab tab'"
    and "\<forall>s\<in>set tab. address_mine ifname key s \<longrightarrow> address_ok macs s" "plain6 options n"
  shows "\<forall>s\<in>set tab'. address_mine ifname key s \<longrightarrow> address_ok macs s"
  using assms(1,2)
  by (rule achieves_keeps) (rule address_keep_ok [OF assms(3)]; simp add: address_upd_def address_new_def)+

lemma zero_pad_3:
  assumes "n < 1000"
  shows "zero_pad 3 (show_base 10 n) = [digch (n div 100), digch (n div 10 mod 10), digch (n mod 10)]"
proof -
  consider "n < 10" | "10 \<le> n" "n < 100" | "100 \<le> n" by linarith
  then show ?thesis
  proof cases
    case 1
    then show ?thesis by (simp add: zero_pad_def show_base.simps [of 10 n] digch_0 numeral_2_eq_2)
  next
    case 2
    then have "\<not> n < 10" "n div 10 < 10" "n div 10 mod 10 = n div 10" "n div 100 = 0" by auto
    then show ?thesis
      by (simp add: zero_pad_def show_base.simps [of 10 n] show_base.simps [of 10 "n div 10"] digch_0)
  next
    case 3
    then have "\<not> n < 10" "\<not> n div 10 < 10" "n div 10 div 10 < 10" "n div 10 div 10 = n div 100"
      using assms by (auto simp: div_mult2_eq [symmetric])
    then show ?thesis
      by (simp add: zero_pad_def show_base.simps [of 10 n] show_base.simps [of 10 "n div 10"]
          show_base.simps [of 10 "n div 100"])
  qed
qed

lemma digits3: "m = 100 * (m div 100) + 10 * (m div 10 mod 10) + m mod 10" for m :: nat
proof -
  have "m div 10 div 10 = m div 100" by (simp add: div_mult2_eq [symmetric])
  moreover have "m = 10 * (m div 10) + m mod 10" "m div 10 = 10 * (m div 10 div 10) + m div 10 mod 10"
    by simp_all
  ultimately show ?thesis by linarith
qed

lemma show_base_1: "n < 10 \<Longrightarrow> show_base 10 n = [digch n]"
  by (simp add: show_base.simps)

lemma ping_interval_text:
  assumes "0 \<le> t"
  shows "last (ping_args ip t) = ''=interval=00:00:0'' @ show_base 10 (nat t div 1000) @ CHR ''.'' #
     [digch (nat t mod 1000 div 100), digch (nat t mod 1000 div 10 mod 10), digch (nat t mod 1000 mod 10)]"
proof -
  have "go_div t 1000 = int (nat t div 1000)" "go_mod t 1000 = int (nat t mod 1000)"
    using assms by (simp_all add: go_div_nonneg go_mod_nonneg zdiv_int zmod_int)
  then show ?thesis
    using zero_pad_3 [of "nat t mod 1000"]
    by (simp add: ping_args_def print_int_def print_int_pad_def)
qed

section \<open>Properties\<close>

text \<open>C17: on a router that behaves as documented, \<open>SetIPv6Gateway\<close> leaves routes of others
  alone, keeps at most one default route of its own unless there were more before, and after a
  success there is a default route to the gateway on the interface, and another call changes
  nothing.\<close>

theorem SetIPv6Gateway_converges:
  assumes "route_router run defaults tab" "good_ids (tab w)"
    and "length gateway = 16" "CHR ''%'' \<notin> set ifname"
    and "SetIPv6Gateway run ifname gateway w = (res, w')"
    and "SetIPv6Gateway run ifname gateway w' = (res', w'')"
  shows "converges (route_wanted ifname gateway) route_mine (res = None) (tab w) (tab w') (tab w'')"
proof -
  note a = SetIPv6Gateway_achieves [OF assms(1,2,5)] and sane = route_sane [OF assms(3,4)]
  from a sane assms(2) have "good_ids (tab w')" by (rule achieves_cases(1))
  from SetIPv6Gateway_achieves [OF assms(1) this assms(6)] a sane assms(2) show ?thesis
    by (blast intro: achieves_converges)
qed

text \<open>The witness: the program's own default route points elsewhere.\<close>

definition sample_gateway :: bytes where
  "sample_gateway = [0xfe, 0x80] @ replicate 13 0 @ [1]"

definition sample_routes :: reply where
  "sample_routes =
     [[(''.id'', ''*1''), (''dst-address'', ''2001:db8::/32''), (''gateway'', ''ether2'')],
      [(''.id'', ''*2''), (''dst-address'', ''::/0''), (''gateway'', ''ether1''), (''comment'', rosCommentKey)]]"

lemma sample_gateway_text: "IP_String sample_gateway = ''fe80::1''"
  by (simp add: sample_gateway_def print_eval)

theorem SetIPv6Gateway_converges_witness:
  "let run = menu_ref ''/ipv6/route'' route_sel [];
       (res, w') = SetIPv6Gateway run ''ether1'' sample_gateway sample_routes;
       (res', w'') = SetIPv6Gateway run ''ether1'' sample_gateway w'
   in converges (route_wanted ''ether1'' sample_gateway) route_mine (res = None) sample_routes w' w'' \<and>
      res = None \<and> prop_of (w' ! 1) ''gateway'' = ''fe80::1%ether1''"
proof -
  let ?run = "menu_ref ''/ipv6/route'' route_sel []"
  have *: "fst (SetIPv6Gateway ?run ''ether1'' sample_gateway sample_routes) = None \<and>
      prop_of (snd (SetIPv6Gateway ?run ''ether1'' sample_gateway sample_routes) ! 1) ''gateway'' = ''fe80::1%ether1''"
    by (simp add: SetIPv6Gateway_def menu_keeping_def sample_routes_def route_sel_def gateway_is_def
        sample_gateway_text tab_set_def ident_def unattr_def rosCommentKey_def)
  show ?thesis
    using SetIPv6Gateway_converges [OF menu_ref_router, of sample_routes sample_gateway "''ether1''" _ _ _ _] *
    by (auto simp: Let_def sample_gateway_def sample_routes_def good_ids_def ident_def split: prod.splits)
qed

text \<open>C18: on a router that behaves as documented and whose pools have CIDR prefixes,
  \<open>ExportIPv6Pool\<close> does not panic; it leaves other pools alone, and after a success the pool has
  the prefix and the prefix length, and another call changes nothing.\<close>

theorem ExportIPv6Pool_converges:
  assumes "pool_router run name defaults tab" "good_ids (tab w)"
    and "length (filter (pool_sel name) (tab w)) \<le> 1"
    and "\<forall>s\<in>set (tab w). pool_sel name s \<longrightarrow> pool_ok s" "wf_net cidr"
  shows "\<exists>res w' res' w''. ExportIPv6Pool run name cidr prefixlen w = (Ret res, w') \<and>
     ExportIPv6Pool run name cidr prefixlen w' = (Ret res', w'') \<and>
     converges (pool_wanted name cidr prefixlen) (pool_sel name) (res = None) (tab w) (tab w') (tab w'')"
proof -
  note sane = pool_sane [OF assms(5), of name prefixlen defaults]
  from ExportIPv6Pool_achieves [OF assms(1,3,4)] obtain res w' where
    r: "ExportIPv6Pool run name cidr prefixlen w = (Ret res, w')"
    and a: "achieves (pool_wanted name cidr prefixlen) (pool_sel name) (pool_upd cidr prefixlen)
       (pool_new name cidr prefixlen) defaults (\<lambda>s. s) (res = None) (tab w) (tab w')"
    by blast
  have "length (filter (pool_sel name) (tab w')) \<le> 1"
    using achieves_cases(3) [OF a sane assms(2)] assms(3) by linarith
  moreover have "\<forall>s\<in>set (tab w'). pool_sel name s \<longrightarrow> pool_ok s"
    using ParseCIDR_own_text [OF assms(5)]
    by (intro achieves_keeps [OF a assms(4)]) (simp_all add: pool_ok_def pool_upd_def pool_new_def)
  ultimately have "\<exists>res' w''. ExportIPv6Pool run name cidr prefixlen w' = (Ret res', w'') \<and>
     achieves (pool_wanted name cidr prefixlen) (pool_sel name) (pool_upd cidr prefixlen)
       (pool_new name cidr prefixlen) defaults (\<lambda>s. s) (res' = None) (tab w') (tab w'')"
    by (rule ExportIPv6Pool_achieves [OF assms(1)])
  with r a sane assms(2) show ?thesis by (blast intro: achieves_converges)
qed

definition sample_net :: IPNet where
  "sample_net = \<lparr>net_IP = Some ([0x20, 1, 0xd, 0xb8] @ replicate 12 0), net_Mask = Some (mask_bytes 16 64)\<rparr>"

lemma sample_net_wf: "wf_net sample_net"
  unfolding wf_net_def sample_net_def by (intro exI [where x = "[0x20, 1, 0xd, 0xb8] @ replicate 12 0"] exI [where x = 64]) simp

lemma sample_net_text: "IPNet_String sample_net = ''2001:db8::/64''"
  unfolding sample_net_def by (subst IPNet_String_v6) (simp_all add: print_eval)

theorem ExportIPv6Pool_converges_witness:
  "let run = menu_ref ''/ipv6/pool'' (pool_sel ''p'') [] in
   (\<exists>res w' res' w''. ExportIPv6Pool run ''p'' sample_net 64 [] = (Ret res, w') \<and>
     ExportIPv6Pool run ''p'' sample_net 64 w' = (Ret res', w'') \<and>
     converges (pool_wanted ''p'' sample_net 64) (pool_sel ''p'') (res = None) [] w' w'') \<and>
   ExportIPv6Pool run ''p'' sample_net 64 [] = (Ret None,
     [[(''.id'', ''*''), (''name'', ''p''), (''prefix'', ''2001:db8::/64''), (''prefix-length'', ''64'')]])"
  unfolding Let_def
proof
  let ?run = "menu_ref ''/ipv6/pool'' (pool_sel ''p'') []"
  show "\<exists>res w' res' w''. ExportIPv6Pool ?run ''p'' sample_net 64 [] = (Ret res, w') \<and>
     ExportIPv6Pool ?run ''p'' sample_net 64 w' = (Ret res', w'') \<and>
     converges (pool_wanted ''p'' sample_net 64) (pool_sel ''p'') (res = None) [] w' w''"
    by (rule ExportIPv6Pool_converges [OF menu_ref_router]) (simp_all add: good_ids_def sample_net_wf)
  show "ExportIPv6Pool ?run ''p'' sample_net 64 [] = (Ret None,
     [[(''.id'', ''*''), (''name'', ''p''), (''prefix'', ''2001:db8::/64''), (''prefix-length'', ''64'')]])"
    by (simp add: ExportIPv6Pool_def menu_keeping_def pool_sel_def sample_net_text tab_add_def new_id_def
        unattr_def print_int_def print_eval)
qed

text \<open>C6: on a router that behaves as documented, which calculates the last 64 bits of \<open>eui-64\<close>
  addresses itself, \<open>AssignIPv6\<close> does not panic; it leaves other addresses of the interface alone and
  adds at most one; after a success the interface has, under the key and with the wanted flags, the network
  as the router keeps it: the one that was sent, for \<open>eui-64\<close> with the interface's identifier in the
  last 64 bits. If that is the network that was sent, another call changes nothing.\<close>

theorem AssignIPv6_converges:
  assumes "address_router run macs ifname defaults tab" "good_ids (tab w)"
    and "prop_of defaults ''dynamic'' = ''false''"
    and "\<forall>s\<in>set (tab w). address_mine ifname key s \<longrightarrow> address_ok macs s" "plain6 options n"
  shows "\<exists>res w' res' w''. AssignIPv6 run ifname (Some n) key options w = (Ret res, w') \<and>
     AssignIPv6 run ifname (Some n) key options w' = (Ret res', w'') \<and>
     establishes (address_wanted ifname (kept_net macs ifname options n) key options) (address_mine ifname key)
       (res = None) (tab w) (tab w') \<and>
     (kept_net macs ifname options n = n \<longrightarrow>
        converges (address_wanted ifname n key options) (address_mine ifname key) (res = None) (tab w) (tab w') (tab w''))"
proof -
  note sane = address_sane [OF assms(5,3), of ifname macs key]
  have wf: "wf_net n" using assms(5) by (simp add: plain6_def)
  from AssignIPv6_achieves [OF assms(1,2,4)] obtain res w' where
    r: "AssignIPv6 run ifname (Some n) key options w = (Ret res, w')"
    and a: "achieves (address_wanted ifname n key options) (address_mine ifname key)
       (address_upd n options) (address_new ifname n key options) defaults (address_keep macs) (res = None) (tab w) (tab w')"
    by blast
  have "good_ids (tab w')"
    by (rule achieves_cases(1) [OF a sane assms(2)])
  moreover note AssignIPv6_keeps_ok [OF a assms(4,5)]
  ultimately obtain res' w'' where
    r': "AssignIPv6 run ifname (Some n) key options w' = (Ret res', w'')"
    and a': "achieves (address_wanted ifname n key options) (address_mine ifname key) (address_upd n options)
       (address_new ifname n key options) defaults (address_keep macs) (res' = None) (tab w') (tab w'')"
    using AssignIPv6_achieves [OF assms(1)] by blast
  have "address_wanted ifname (kept_net macs ifname options n) key options s"
    if "s \<in> set (tab w)" "address_wanted ifname n key options s" for s
    using wanted_kept [OF that(2) _ wf, of macs] that assms(4) by (simp add: address_wanted_def)
  from achieves_establishes [OF a sane assms(2) this] have
    "establishes (address_wanted ifname (kept_net macs ifname options n) key options) (address_mine ifname key)
       (res = None) (tab w) (tab w')" .
  moreover have "converges (address_wanted ifname n key options) (address_mine ifname key) (res = None) (tab w) (tab w') (tab w'')"
    if "kept_net macs ifname options n = n"
    using achieves_converges [OF a sane [unfolded that] assms(2) a'] .
  ultimately show ?thesis using r r' by blast
qed

text \<open>The witness: an address of one's own choice, and one with \<open>eui-64\<close> on an interface without an address.\<close>

definition sample_macs :: "string \<Rightarrow> bytes" where
  "sample_macs ifname = [0, 0x0c, 0x42, 0x1d, 3, 0xd4]"

abbreviation sample_addresses :: "reply run" where
  "sample_addresses \<equiv> menu_keeping ''/ipv6/address'' (address_sel ''br0'') [(''dynamic'', ''false'')] (address_keep sample_macs)"

lemma sample_net_plain: "plain6 options sample_net"
proof -
  have "To4 (bs (net_IP sample_net)) = None" by code_simp
  with sample_net_wf show ?thesis by (simp add: plain6_def)
qed

lemma sample_kept: "kept_net sample_macs ''br0'' \<lparr>opt_Eui64 = True, opt_Advertise = True\<rparr> sample_net =
    \<lparr>net_IP = Some [0x20, 1, 0xd, 0xb8, 0, 0, 0, 0, 2, 0x0c, 0x42, 0xff, 0xfe, 0x1d, 3, 0xd4], net_Mask = Some (mask_bytes 16 64)\<rparr>"
  by (simp add: kept_net_def sample_net_def own_suffix_def eui64_def sample_macs_def numeral_replicate)

lemma sample_kept_text:
  "address_keep sample_macs [(''.id'', ''*''), (''interface'', ''br0''), (''address'', ''2001:db8::/64''), (''advertise'', ''true''),
       (''eui-64'', ''true''), (''comment'', c), (''dynamic'', ''false'')] =
   [(''address'', ''2001:db8::20c:42ff:fe1d:3d4/64''), (''.id'', ''*''), (''interface'', ''br0''), (''address'', ''2001:db8::/64''),
     (''advertise'', ''true''), (''eui-64'', ''true''), (''comment'', c), (''dynamic'', ''false'')]"
proof -
  obtain m where m: "ParseCIDR ''2001:db8::/64'' = Some (bs (net_IP sample_net), m)" "net_Mask m = net_Mask sample_net"
    using ParseCIDR_own [OF sample_net_wf] sample_net_plain [of "\<lparr>opt_Eui64 = True, opt_Advertise = True\<rparr>"]
    by (auto simp: sample_net_text plain6_def)
  have "IPNet_String (kept_net sample_macs ''br0'' \<lparr>opt_Eui64 = True, opt_Advertise = True\<rparr> sample_net) =
      ''2001:db8::20c:42ff:fe1d:3d4/64''"
    unfolding sample_kept by (subst IPNet_String_v6) (simp_all add: print_eval)
  moreover have "m\<lparr>net_IP := x\<rparr> = sample_net\<lparr>net_IP := x\<rparr>" for x using m(2) by (cases m; cases sample_net) simp
  ultimately show ?thesis
    by (simp add: address_keep_def m(1) kept_net_def del: IPNet.simps)
qed

theorem AssignIPv6_converges_witness:
  "let options = \<lparr>opt_Eui64 = True, opt_Advertise = True\<rparr> in
   (\<exists>res w' res' w''. AssignIPv6 sample_addresses ''br0'' (Some sample_net) ''k'' options [] = (Ret res, w') \<and>
     AssignIPv6 sample_addresses ''br0'' (Some sample_net) ''k'' options w' = (Ret res', w'') \<and>
     establishes (address_wanted ''br0'' (kept_net sample_macs ''br0'' options sample_net) ''k'' options)
       (address_mine ''br0'' ''k'') (res = None) [] w') \<and>
   (\<exists>w'. AssignIPv6 sample_addresses ''br0'' (Some sample_net) ''k'' options [] = (Ret None, w') \<and>
     map (\<lambda>s. prop_of s ''address'') w' = [''2001:db8::20c:42ff:fe1d:3d4/64''])"
proof -
  let ?options = "\<lparr>opt_Eui64 = True, opt_Advertise = True\<rparr>"
  have "\<exists>res w' res' w''. AssignIPv6 sample_addresses ''br0'' (Some sample_net) ''k'' ?options [] = (Ret res, w') \<and>
     AssignIPv6 sample_addresses ''br0'' (Some sample_net) ''k'' ?options w' = (Ret res', w'') \<and>
     establishes (address_wanted ''br0'' (kept_net sample_macs ''br0'' ?options sample_net) ''k'' ?options)
       (address_mine ''br0'' ''k'') (res = None) [] w'"
    using AssignIPv6_converges [OF menu_keeping_router, of "[]" "[(''dynamic'', ''false'')]" "''br0''" "''k''"
        sample_macs ?options sample_net] sample_net_plain by (auto simp: good_ids_def)
  moreover have "\<exists>w'. AssignIPv6 sample_addresses ''br0'' (Some sample_net) ''k'' ?options [] = (Ret None, w') \<and>
     map (\<lambda>s. prop_of s ''address'') w' = [''2001:db8::20c:42ff:fe1d:3d4/64'']"
    by (simp add: AssignIPv6_def menu_keeping_def net_text_def sample_net_text tab_add_def new_id_def
        unattr_def FormatBool_def sample_kept_text)
  ultimately show ?thesis by (simp only: Let_def simp_thms)
qed

text \<open>A ghost of the router: the number of commands that have written to the address menu.\<close>

definition counts_writes :: "'w run \<Rightarrow> ('w \<Rightarrow> nat) \<Rightarrow> bool" where
  "counts_writes run writes \<longleftrightarrow>
     (\<forall>c cs w. writes (snd (run (c # cs) w)) =
        writes w + (if c \<in> {''/ipv6/address/set'', ''/ipv6/address/add''} then 1 else 0))"

lemma counted: "counts_writes run writes \<Longrightarrow> run (c # cs) w = (r, w') \<Longrightarrow>
    writes w' = writes w + (if c \<in> {''/ipv6/address/set'', ''/ipv6/address/add''} then 1 else 0)"
  unfolding counts_writes_def by (metis snd_conv)

lemma AssignIPv6_writes:
  assumes "counts_writes run writes" "AssignIPv6 run ifname ip key options w = (Ret None, w')"
  shows "writes w' = Suc (writes w) \<or>
     (\<exists>rep. fst (run (''/ipv6/address/print'' # address_query ifname) w) = Inr rep \<and>
        scan_addresses ip options (address_comment key) rep [] = Ret None)"
  using assms(2) unfolding AssignIPv6_def Let_def address_query_def address_comment_def
  by (auto split: prod.splits sum.splits go.splits option.splits if_splits dest!: counted [OF assms(1)])

lemma eui64_step:
  assumes "address_router run macs ifname defaults tab" "counts_writes run writes" "good_ids (tab w)"
    and "prop_of defaults ''dynamic'' = ''false''"
    and "\<forall>s\<in>set (tab w). address_mine ifname key s \<longrightarrow> address_ok macs s" "plain6 options n"
    and "kept_net macs ifname options n \<noteq> n"
    and "AssignIPv6 run ifname (Some n) key options w = (Ret None, w')"
  shows "writes w' = Suc (writes w)" "good_ids (tab w')"
    "\<forall>s\<in>set (tab w'). address_mine ifname key s \<longrightarrow> address_ok macs s"
proof -
  from AssignIPv6_achieves [OF assms(1,3,5), of n options] assms(8) have
    a: "achieves (address_wanted ifname n key options) (address_mine ifname key)
       (address_upd n options) (address_new ifname n key options) defaults (address_keep macs) True (tab w) (tab w')"
    by simp
  show "good_ids (tab w')" by (rule achieves_cases(1) [OF a address_sane [OF assms(6,4)] assms(3)])
  show "\<forall>s\<in>set (tab w'). address_mine ifname key s \<longrightarrow> address_ok macs s"
    by (rule AssignIPv6_keeps_ok [OF a assms(5,6)])
  have none: "\<not> address_wanted ifname n key options s" if "s \<in> set (tab w)" for s
  proof
    assume *: "address_wanted ifname n key options s"
    then have "address_ok macs s" using assms(5) that by (simp add: address_wanted_def)
    with wanted_kept [OF *] assms(6,7) show False by (simp add: plain6_def)
  qed
  obtain r1 w1 where print: "run ((''/ipv6/address'' @ ''/print'') # address_query ifname) w = (r1, w1)"
    by (meson surj_pair)
  show "writes w' = Suc (writes w)"
  proof (rule disjE [OF AssignIPv6_writes [OF assms(2,8)]])
    assume "\<exists>rep. fst (run (''/ipv6/address/print'' # address_query ifname) w) = Inr rep \<and>
        scan_addresses (Some n) options (address_comment key) rep [] = Ret None"
    then obtain rep where rep: "r1 = Inr rep" "scan_addresses (Some n) options (address_comment key) rep [] = Ret None"
      using print by auto
    from address_scan [OF router_print(2) [OF assms(1) print rep(1)] assms(5), of n options "[]"] rep(2) none
    show ?thesis by auto
  qed
qed

text \<open>C10: an address with \<open>eui-64\<close> is never found as wanted unless its last 64 bits are already the
  interface's identifier: the program compares what the router has calculated with what it has sent. Every
  call that succeeds writes to the router, however often the same address has been assigned before.\<close>

theorem eui64_never_settles:
  assumes "address_router run macs ifname defaults tab" "counts_writes run writes" "good_ids (tab w)"
    and "prop_of defaults ''dynamic'' = ''false''"
    and "\<forall>s\<in>set (tab w). address_mine ifname key s \<longrightarrow> address_ok macs s" "plain6 options n"
    and "kept_net macs ifname options n \<noteq> n" "call = (\<lambda>w. snd (AssignIPv6 run ifname (Some n) key options w))"
    and "\<forall>j<k. fst (AssignIPv6 run ifname (Some n) key options ((call ^^ j) w)) = Ret None"
  shows "writes ((call ^^ k) w) = writes w + k"
proof -
  have "writes ((call ^^ j) w) = writes w + j \<and> good_ids (tab ((call ^^ j) w)) \<and>
      (\<forall>s\<in>set (tab ((call ^^ j) w)). address_mine ifname key s \<longrightarrow> address_ok macs s)" if "j \<le> k" for j
    using that
  proof (induction j)
    case 0
    then show ?case using assms(3,5) by simp
  next
    case (Suc j)
    then have "AssignIPv6 run ifname (Some n) key options ((call ^^ j) w) = (Ret None, (call ^^ Suc j) w)"
      using assms(8,9) by (simp add: prod_eq_iff)
    from eui64_step [OF assms(1,2) _ assms(4) _ assms(6,7) this] Suc show ?case by simp
  qed
  then show ?thesis by simp
qed

text \<open>The witness: a router that counts the writing commands; the same address is assigned three times.\<close>

definition counting :: "'w run \<Rightarrow> (nat \<times> 'w) run" where
  "counting run args w =
     (let (r, t) = run args (snd w) in
      (r, (fst w + (if args \<noteq> [] \<and> hd args \<in> {''/ipv6/address/set'', ''/ipv6/address/add''} then 1 else 0), t)))"

lemma counting_counts: "counts_writes (counting run) fst"
  by (simp add: counts_writes_def counting_def split: prod.splits)

lemma counting_runs: "fst (counting run args w) = fst (run args (snd w))" "snd (snd (counting run args w)) = snd (run args (snd w))"
  by (simp_all add: counting_def split: prod.splits)

lemma counting_router:
  "router_keeping run path query sel keys defaults keep tab \<Longrightarrow>
   router_keeping (counting run) path query sel keys defaults keep (\<lambda>w. tab (snd w))"
  by (simp only: router_keeping_def outcome_def counting_runs) blast

lemma AssignIPv6_succeeds:
  assumes "\<And>c cs w. c \<in> {''/ipv6/address/print'', ''/ipv6/address/set'', ''/ipv6/address/add''} \<Longrightarrow>
      \<exists>rep. fst (run (c # cs) w) = Inr rep"
    and "AssignIPv6 run ifname ip key options w = (Ret res, w')"
  shows "res = None"
proof -
  have ran: "\<exists>rep. r = Inr rep" if "run (c # cs) u = (r, u')"
    "c \<in> {''/ipv6/address/print'', ''/ipv6/address/set'', ''/ipv6/address/add''}" for c cs u r u'
    using assms(1) [OF that(2), of cs u] that(1) by simp
  show ?thesis using assms(2) unfolding AssignIPv6_def Let_def
    by (auto split: prod.splits sum.splits go.splits option.splits if_splits dest!: ran)
qed

abbreviation counted_addresses :: "(nat \<times> reply) run" where
  "counted_addresses \<equiv> counting sample_addresses"

lemma counted_router: "address_router counted_addresses sample_macs ''br0'' [(''dynamic'', ''false'')] snd"
  using counting_router [OF menu_keeping_router] .

lemma sample_never_kept: "kept_net sample_macs ''br0'' \<lparr>opt_Eui64 = True, opt_Advertise = True\<rparr> sample_net \<noteq> sample_net"
  unfolding sample_kept by (simp add: sample_net_def numeral_replicate)

lemma counted_call:
  assumes "good_ids (snd w)" "\<forall>s\<in>set (snd w). address_mine ''br0'' ''k'' s \<longrightarrow> address_ok sample_macs s"
  shows "\<exists>w'. AssignIPv6 counted_addresses ''br0'' (Some sample_net) ''k'' \<lparr>opt_Eui64 = True, opt_Advertise = True\<rparr> w = (Ret None, w') \<and>
     good_ids (snd w') \<and> (\<forall>s\<in>set (snd w'). address_mine ''br0'' ''k'' s \<longrightarrow> address_ok sample_macs s)"
proof -
  let ?options = "\<lparr>opt_Eui64 = True, opt_Advertise = True\<rparr>"
  from AssignIPv6_achieves [OF counted_router assms] obtain res w' where
    "AssignIPv6 counted_addresses ''br0'' (Some sample_net) ''k'' ?options w = (Ret res, w')" by blast
  moreover have "\<exists>rep. fst (counted_addresses (c # cs) u) = Inr rep"
    if "c \<in> {''/ipv6/address/print'', ''/ipv6/address/set'', ''/ipv6/address/add''}" for c cs u
    using that by (elim insertE emptyE) (simp_all add: counting_runs menu_keeping_def)
  note AssignIPv6_succeeds [OF this calculation]
  ultimately have "AssignIPv6 counted_addresses ''br0'' (Some sample_net) ''k'' ?options w = (Ret None, w')" by simp
  with eui64_step(2,3) [OF counted_router counting_counts assms(1) _ assms(2) sample_net_plain sample_never_kept]
  show ?thesis by simp
qed

theorem eui64_never_settles_witness:
  "let options = \<lparr>opt_Eui64 = True, opt_Advertise = True\<rparr>;
       call = (\<lambda>w. snd (AssignIPv6 counted_addresses ''br0'' (Some sample_net) ''k'' options w))
   in fst ((call ^^ 3) (0, [])) = 3 \<and> fst (AssignIPv6 counted_addresses ''br0'' (Some sample_net) ''k'' options (0, [])) = Ret None"
proof -
  let ?options = "\<lparr>opt_Eui64 = True, opt_Advertise = True\<rparr>" and ?no = "[(''dynamic'', ''false'')]"
  let ?call = "\<lambda>w. snd (AssignIPv6 counted_addresses ''br0'' (Some sample_net) ''k'' ?options w)"
  have inv: "good_ids (snd ((?call ^^ j) (0, []))) \<and>
      (\<forall>s\<in>set (snd ((?call ^^ j) (0, []))). address_mine ''br0'' ''k'' s \<longrightarrow> address_ok sample_macs s)" for j
  proof (induction j)
    case 0
    then show ?case by (simp add: good_ids_def)
  next
    case (Suc j)
    with counted_call [of "(?call ^^ j) (0, [])"] show ?case by auto
  qed
  have ok: "fst (AssignIPv6 counted_addresses ''br0'' (Some sample_net) ''k'' ?options ((?call ^^ j) (0, []))) = Ret None" for j
    using counted_call [of "(?call ^^ j) (0, [])"] inv [of j] by auto
  then have "fst ((?call ^^ 3) (0, [])) = fst (0 :: nat, [] :: reply) + 3"
    using inv [of 0] by (intro eui64_never_settles [OF counted_router counting_counts _ _ _ sample_net_plain sample_never_kept refl]) simp_all
  with ok [of 0] show ?thesis by (simp only: Let_def funpow_0 fst_conv add_0 simp_thms)
qed

section \<open>Looking up a neighbour\<close>

text \<open>For a timeout of \<open>t\<close> milliseconds below ten seconds the ping interval is
  \<open>00:00:0a.bcd\<close> with \<open>t = 1000a + 100b + 10c + d\<close>; from ten seconds on, which no check
  excludes in mode \<open>proxy-ros:strict\<close>, the seconds have three or more digits.\<close>

theorem ping_interval:
  assumes "0 \<le> t"
  shows "if t < 10000
     then \<exists>a b c d. a < 10 \<and> b < 10 \<and> c < 10 \<and> d < 10 \<and> t = int (1000 * a + 100 * b + 10 * c + d) \<and>
       last (ping_args ip t) = ''=interval=00:00:0'' @ [digch a, CHR ''.'', digch b, digch c, digch d]
     else \<exists>s r. last (ping_args ip t) = ''=interval=00:00:'' @ s @ CHR ''.'' # r \<and>
       CHR ''.'' \<notin> set s \<and> 3 \<le> length s"
proof (cases "t < 10000")
  case True
  let ?n = "nat t"
  have n: "?n < 10000" "t = int ?n" using True assms by auto
  have eq: "?n = 1000 * (?n div 1000) + 100 * (?n mod 1000 div 100) + 10 * (?n mod 1000 div 10 mod 10) + ?n mod 1000 mod 10"
    using digits3 [of "?n mod 1000"] mult_div_mod_eq [of 1000 ?n] by linarith
  have "?n div 1000 < 10" "?n mod 1000 div 100 < 10" "?n mod 1000 div 10 mod 10 < 10" "?n mod 1000 mod 10 < 10"
    using n(1) by auto
  moreover have "t = int (1000 * (?n div 1000) + 100 * (?n mod 1000 div 100) + 10 * (?n mod 1000 div 10 mod 10) + ?n mod 1000 mod 10)"
    using n(2) eq by simp
  moreover have "last (ping_args ip t) = ''=interval=00:00:0'' @ [digch (?n div 1000), CHR ''.'',
      digch (?n mod 1000 div 100), digch (?n mod 1000 div 10 mod 10), digch (?n mod 1000 mod 10)]"
    using ping_interval_text [OF assms, of ip] show_base_1 [OF calculation(1)] by simp
  ultimately show ?thesis using True by (simp only: if_True) blast
next
  case False
  let ?s = "CHR ''0'' # show_base 10 (nat t div 1000)"
  have "10 \<le> nat t div 1000" using False by auto
  then have "3 \<le> length ?s" using show_base_long [of 10 "nat t div 1000"] by simp
  moreover have "CHR ''.'' \<notin> set ?s" using show_base_free [of 10 "CHR ''.''"] by simp
  moreover have "\<exists>r. last (ping_args ip t) = ''=interval=00:00:'' @ ?s @ CHR ''.'' # r"
    using ping_interval_text [OF assms, of ip] by simp
  ultimately show ?thesis using False by (simp only: if_False) blast
qed

theorem ping_interval_witness:
  "if (1500 :: int) < 10000
     then \<exists>a b c d. a < 10 \<and> b < 10 \<and> c < 10 \<and> d < 10 \<and> 1500 = int (1000 * a + 100 * b + 10 * c + d) \<and>
       last (ping_args [] 1500) = ''=interval=00:00:0'' @ [digch a, CHR ''.'', digch b, digch c, digch d]
     else \<exists>s r. last (ping_args [] 1500) = ''=interval=00:00:'' @ s @ CHR ''.'' # r \<and>
       CHR ''.'' \<notin> set s \<and> 3 \<le> length s"
  by (rule ping_interval) simp

definition usable :: "sentence \<Rightarrow> bool" where
  "usable e \<longleftrightarrow> prop_of e ''status'' = ''reachable'' \<or> prop_of e ''status'' = ''stale''"

text \<open>\<open>LookupNeighbor\<close> reports a hardware address exactly if both commands succeed and either
  the first neighbour entry is reachable or stale, and then it is the entry's and a second ping is
  sent, or the lookup is not strict, the ping was answered without loss, and then it is all zero.
  It reports none exactly if both succeed and neither is the case.\<close>

theorem LookupNeighbor_decision:
  "LookupNeighbor run ip t strict w = (Inr r, bg, w') \<longleftrightarrow>
     (\<exists>pingrep w1 rep. run (ping_args ip t) w = (Inr pingrep, w1) \<and>
        run [''/ipv6/neighbor/print'', ''=.proplist=mac-address,status'', ''?address='' @ IP_String ip] w1 =
          (Inr rep, w') \<and>
        (if rep \<noteq> [] \<and> usable (hd rep) then
           ParseMAC (prop_of (hd rep) ''mac-address'') = r \<and> r \<noteq> None \<and> bg = [ping_args ip t]
         else bg = [] \<and>
           r = (if \<not> strict \<and> pingrep \<noteq> [] \<and> prop_of (hd pingrep) ''packet-loss'' = ''0''
                then Some (replicate 6 0) else None)))"
proof -
  have hd: "xs \<noteq> [] \<Longrightarrow> xs ! 0 = hd xs" for xs :: reply by (simp add: hd_conv_nth)
  obtain r1 w1 where 1: "run (ping_args ip t) w = (r1, w1)" by fastforce
  obtain r2 w2 where 2: "run [''/ipv6/neighbor/print'', ''=.proplist=mac-address,status'',
      ''?address='' @ IP_String ip] w1 = (r2, w2)" by fastforce
  show ?thesis
  proof (cases r1)
    case (Inl e)
    with 1 show ?thesis by (simp add: LookupNeighbor_def)
  next
    case r1: (Inr pingrep)
    show ?thesis
    proof (cases r2)
      case (Inl e)
      with 1 2 r1 show ?thesis by (simp add: LookupNeighbor_def Let_def)
    next
      case (Inr rep)
      with 1 2 r1 show ?thesis
        by (cases "rep \<noteq> [] \<and> usable (hd rep)"; cases "ParseMAC (prop_of (hd rep) ''mac-address'')")
          (auto simp: LookupNeighbor_def Let_def usable_def hd)
    qed
  qed
qed

end
