(* ===== verification/RosPool.thy ===== *)
theory RosPool
  imports Ros
begin

text \<open>
  The connections to the router (\<open>ROSConnectionPool\<close>, \<open>NewROSClient\<close> and \<open>RunArgs\<close> of
  \<open>ros.go\<close>): the pool, the calls of \<open>RunArgs\<close> that share it and the keepalive goroutine, as
  a step relation. A step is one critical section under the pool's mutex or one event on a channel,
  a timer or the network, so every interleaving of the goroutines is a sequence of steps. A
  connection is a number; the RouterOS library that makes one is a parameter.
\<close>

section \<open>Connections\<close>

type_synonym conn = nat
type_synonym dialer = "bool \<Rightarrow> string \<Rightarrow> string \<Rightarrow> string \<Rightarrow> ros_error + conn"

definition api_address :: "ROSConnectConfig \<Rightarrow> string" where
  "api_address cfg = rcc_host cfg @ '':'' @ print_int (rcc_port cfg)"

definition makeConnection :: "dialer \<Rightarrow> ROSConnectConfig \<Rightarrow> ros_error + conn" where
  "makeConnection dial cfg =
     dial (rcc_useTLS cfg) (api_address cfg) (rcc_username cfg) (rcc_password cfg)"

text \<open>
  \<open>NewROSClient\<close> starts the keepalive goroutine and then tries a bare connection with a
  timeout of five seconds (in milliseconds here); \<open>tcp\<close> is Go's dialler. The goroutine keeps
  running if that fails.
\<close>

record ROSClient =
  rc_cfg :: ROSConnectConfig

definition NewROSClient ::
  "(bool \<Rightarrow> int \<Rightarrow> string \<Rightarrow> ros_error option) \<Rightarrow> ROSConnectConfig \<Rightarrow> ros_error + ROSClient" where
  "NewROSClient tcp cfg =
     (case tcp (rcc_useTLS cfg) 5000 (api_address cfg) of
        Some e \<Rightarrow> Inl e
      | None \<Rightarrow> Inr \<lparr>rc_cfg = cfg\<rparr>)"

text \<open>An earlier way to connect, without the pool, that nothing calls any more.\<close>

definition makeClient :: "dialer \<Rightarrow> ROSClient \<Rightarrow> ros_error + conn" where
  "makeClient dial c =
     (let cfg = rc_cfg c; address = api_address cfg in
      if rcc_useTLS cfg then dial True address (rcc_username cfg) (rcc_password cfg)
      else dial False address (rcc_username cfg) (rcc_password cfg))"

lemma makeClient_same: "makeClient dial \<lparr>rc_cfg = cfg\<rparr> = makeConnection dial cfg"
  by (simp add: makeClient_def makeConnection_def Let_def)

section \<open>The pool\<close>

text \<open>
  \<open>Get\<close> takes the oldest connection and \<open>Put\<close> appends; the keepalive takes the newest
  and puts it back in front.
\<close>

definition pool_get :: "conn list \<Rightarrow> (conn \<times> conn list) option" where
  "pool_get cs = (if length cs > 0 then Some (hd cs, tl cs) else None)"

definition pool_put :: "conn \<Rightarrow> conn list \<Rightarrow> conn list" where
  "pool_put c cs = cs @ [c]"

definition pool_pick :: "conn list \<Rightarrow> (conn \<times> conn list) option" where
  "pool_pick cs =
     (let count = length cs in
      if count = 0 then None else Some (cs ! (count - 1), take (count - 1) cs))"

definition pool_back :: "conn \<Rightarrow> conn list \<Rightarrow> conn list" where
  "pool_back c cs = [c] @ cs"

text \<open>What both sides rely on: a store of distinct connections.\<close>

locale store =
  fixes get_conn :: "conn list \<Rightarrow> (conn \<times> conn list) option"
    and put_conn :: "conn \<Rightarrow> conn list \<Rightarrow> conn list"
  assumes get_none: "get_conn cs = None \<longleftrightarrow> cs = []"
    and get_some: "get_conn cs = Some (c, cs') \<Longrightarrow> distinct cs \<Longrightarrow>
      distinct cs' \<and> set cs = insert c (set cs') \<and> c \<notin> set cs'"
    and put_set: "set (put_conn c cs) = insert c (set cs)"
    and put_distinct: "distinct (put_conn c cs) \<longleftrightarrow> distinct cs \<and> c \<notin> set cs"
begin

lemma get_member: "get_conn cs = Some (c, cs') \<Longrightarrow> distinct cs \<Longrightarrow> c \<in> set cs"
  using get_some by blast

lemma get_subset: "get_conn cs = Some (c, cs') \<Longrightarrow> distinct cs \<Longrightarrow> set cs' = set cs - {c}"
  using get_some [of cs c cs'] by auto

lemma get_put:
  assumes "distinct cs" "c \<notin> set cs"
  shows "\<exists>d cs'. get_conn (put_conn c cs) = Some (d, cs') \<and> d \<in> insert c (set cs) \<and>
     set cs' = insert c (set cs) - {d}"
proof (cases "get_conn (put_conn c cs)")
  case None
  then have "set (put_conn c cs) = {}" by (simp add: get_none)
  then show ?thesis by (simp add: put_set)
next
  case (Some p)
  moreover have "distinct (put_conn c cs)" using assms by (simp add: put_distinct)
  ultimately show ?thesis
    using get_member get_subset by (cases p) (force simp: put_set)
qed

end

interpretation client: store pool_get pool_put
proof unfold_locales
  show "distinct cs' \<and> set cs = insert c (set cs') \<and> c \<notin> set cs'"
    if "pool_get cs = Some (c, cs')" "distinct cs" for cs c cs'
    using that by (cases cs) (auto simp: pool_get_def)
qed (auto simp: pool_get_def pool_put_def)

interpretation keeper: store pool_pick pool_back
proof unfold_locales
  show "pool_pick cs = None \<longleftrightarrow> cs = []" for cs
    by (simp add: pool_pick_def Let_def)
  show "distinct cs' \<and> set cs = insert c (set cs') \<and> c \<notin> set cs'"
    if "pool_pick cs = Some (c, cs')" "distinct cs" for cs c cs'
    using that by (cases cs rule: rev_cases) (auto simp: pool_pick_def Let_def)
qed (auto simp: pool_back_def)

section \<open>Goroutines\<close>

text \<open>
  A call of \<open>RunArgs\<close>: before \<open>Get\<close>; making a connection; holding one, with the flag
  whether it has reached its \<open>select\<close> and with the result the goroutine has left behind
  after dropping its signal; about to \<open>Put\<close>; done. The goroutine sends its signal with a
  \<open>default\<close> case on a channel without a buffer: the signal is dropped unless the caller is
  already in its \<open>select\<close>.
\<close>

type_synonym result = "ros_error + reply"

datatype call =
    CStart
  | CDial
  | CWait conn bool "result option"
  | CPut conn result
  | CDone result

text \<open>
  The keepalive goroutine: about to pick; checking a connection it took from a pool of the given
  size; about to dial; waiting ten seconds divided by the given number.
\<close>

datatype keep = KPick | KCheck conn nat | KDial | KSleep nat

record ros_state =
  st_cs :: "conn list"
  st_calls :: "nat \<Rightarrow> call"
  st_keep :: keep
  st_open :: "conn set"
  st_made :: "conn set"

definition ros_init :: ros_state where
  "ros_init = \<lparr>st_cs = [], st_calls = (\<lambda>_. CStart), st_keep = KPick, st_open = {}, st_made = {}\<rparr>"

abbreviation set_call :: "nat \<Rightarrow> call \<Rightarrow> ros_state \<Rightarrow> ros_state" where
  "set_call i p s \<equiv> s\<lparr>st_calls := (st_calls s)(i := p)\<rparr>"

definition new_conn :: "conn \<Rightarrow> ros_state \<Rightarrow> ros_state" where
  "new_conn c s = s\<lparr>st_open := insert c (st_open s), st_made := insert c (st_made s)\<rparr>"

definition close_conn :: "conn \<Rightarrow> ros_state \<Rightarrow> ros_state" where
  "close_conn c s = s\<lparr>st_open := st_open s - {c}\<rparr>"

text \<open>
  After a failed check the keepalive closes the connection and dials only if the pool had no other;
  the connection it dials is assigned to a local variable and nowhere else.
\<close>

definition keep_discard :: "nat \<Rightarrow> keep" where
  "keep_discard count = (let count = count - 1 in if count = 0 then KDial else KSleep count)"

inductive pool_step :: "ROSConnectConfig \<Rightarrow> ros_state \<Rightarrow> ros_state \<Rightarrow> bool" for cfg where
  get_pooled: "st_calls s i = CStart \<Longrightarrow> pool_get (st_cs s) = Some (c, cs') \<Longrightarrow>
     pool_step cfg s (set_call i (CWait c False None) (s\<lparr>st_cs := cs'\<rparr>))"
| get_empty: "st_calls s i = CStart \<Longrightarrow> pool_get (st_cs s) = None \<Longrightarrow>
     pool_step cfg s (set_call i CDial s)"
| dial_ok: "st_calls s i = CDial \<Longrightarrow> makeConnection d cfg = Inr c \<Longrightarrow> c \<notin> st_made s \<Longrightarrow>
     pool_step cfg s (set_call i (CWait c False None) (new_conn c s))"
| dial_error: "st_calls s i = CDial \<Longrightarrow> makeConnection d cfg = Inl e \<Longrightarrow>
     pool_step cfg s (set_call i (CDone (Inl e)) s)"
| select: "st_calls s i = CWait c False r \<Longrightarrow> pool_step cfg s (set_call i (CWait c True r) s)"
| signal: "st_calls s i = CWait c True None \<Longrightarrow> pool_step cfg s (set_call i (CPut c r) s)"
| signal_dropped: "st_calls s i = CWait c False None \<Longrightarrow>
     pool_step cfg s (set_call i (CWait c False (Some r)) s)"
| put: "st_calls s i = CPut c r \<Longrightarrow>
     pool_step cfg s (set_call i (CDone r) (s\<lparr>st_cs := pool_put c (st_cs s)\<rparr>))"
| timeout: "st_calls s i = CWait c True r \<Longrightarrow>
     pool_step cfg s (set_call i (CDone (Inl APITimeout)) (close_conn c s))"
| keep_pick: "st_keep s = KPick \<Longrightarrow> pool_pick (st_cs s) = Some (c, cs') \<Longrightarrow>
     pool_step cfg s (s\<lparr>st_cs := cs', st_keep := KCheck c (length (st_cs s))\<rparr>)"
| keep_empty: "st_keep s = KPick \<Longrightarrow> pool_pick (st_cs s) = None \<Longrightarrow>
     pool_step cfg s (s\<lparr>st_keep := KDial\<rparr>)"
| keep_alive: "st_keep s = KCheck c count \<Longrightarrow>
     pool_step cfg s (s\<lparr>st_cs := pool_back c (st_cs s), st_keep := KSleep count\<rparr>)"
| keep_dead: "st_keep s = KCheck c count \<Longrightarrow>
     pool_step cfg s ((close_conn c s)\<lparr>st_keep := keep_discard count\<rparr>)"
| keep_dial_ok: "st_keep s = KDial \<Longrightarrow> makeConnection d cfg = Inr c \<Longrightarrow> c \<notin> st_made s \<Longrightarrow>
     pool_step cfg s ((new_conn c s)\<lparr>st_keep := KSleep 1\<rparr>)"
| keep_dial_error: "st_keep s = KDial \<Longrightarrow> makeConnection d cfg = Inl e \<Longrightarrow>
     pool_step cfg s (s\<lparr>st_keep := KSleep 1\<rparr>)"
| keep_wake: "st_keep s = KSleep n \<Longrightarrow> pool_step cfg s (s\<lparr>st_keep := KPick\<rparr>)"

inductive pool_reachable :: "ROSConnectConfig \<Rightarrow> ros_state \<Rightarrow> bool" for cfg where
  start: "pool_reachable cfg ros_init"
| step: "pool_reachable cfg s \<Longrightarrow> pool_step cfg s s' \<Longrightarrow> pool_reachable cfg s'"

section \<open>The invariant\<close>

fun holds :: "call \<Rightarrow> conn \<Rightarrow> bool" where
  "holds (CWait c _ _) d \<longleftrightarrow> c = d"
| "holds (CPut c _) d \<longleftrightarrow> c = d"
| "holds _ d \<longleftrightarrow> False"

fun keeps :: "keep \<Rightarrow> conn \<Rightarrow> bool" where
  "keeps (KCheck c _) d \<longleftrightarrow> c = d"
| "keeps _ d \<longleftrightarrow> False"

fun keep_ok :: "keep \<Rightarrow> bool" where
  "keep_ok (KCheck _ n) \<longleftrightarrow> 0 < n"
| "keep_ok (KSleep n) \<longleftrightarrow> 0 < n"
| "keep_ok _ \<longleftrightarrow> True"

text \<open>Every connection has at most one owner, owned connections are open, and no count is zero.\<close>

definition pool_inv :: "ros_state \<Rightarrow> bool" where
  "pool_inv s \<longleftrightarrow>
     distinct (st_cs s) \<and> set (st_cs s) \<subseteq> st_open s \<and> st_open s \<subseteq> st_made s \<and>
     (\<forall>i c. holds (st_calls s i) c \<longrightarrow>
        c \<in> st_open s \<and> c \<notin> set (st_cs s) \<and> \<not> keeps (st_keep s) c \<and>
        (\<forall>j. holds (st_calls s j) c \<longrightarrow> j = i)) \<and>
     (\<forall>c. keeps (st_keep s) c \<longrightarrow> c \<in> st_open s \<and> c \<notin> set (st_cs s)) \<and>
     keep_ok (st_keep s)"

lemma keeps_discard [simp]: "\<not> keeps (keep_discard n) c"
  by (simp add: keep_discard_def Let_def)

lemma keep_ok_discard [simp]: "keep_ok (keep_discard n)"
  by (simp add: keep_discard_def Let_def)

lemma pool_inv_init: "pool_inv ros_init"
  by (simp add: pool_inv_def ros_init_def)

lemma inv_holds:
  assumes "pool_inv s" "holds (st_calls s i) c"
  shows "c \<in> st_open s \<and> c \<notin> set (st_cs s) \<and> \<not> keeps (st_keep s) c \<and> (\<forall>j. holds (st_calls s j) c \<longrightarrow> j = i)"
  using assms unfolding pool_inv_def by blast

lemma pool_inv_relabel:
  assumes "pool_inv s" "holds p = holds (st_calls s i)"
  shows "pool_inv (set_call i p s)"
proof -
  have "holds (((st_calls s)(i := p)) j) = holds (st_calls s j)" for j
    using assms(2) by simp
  with assms(1) show ?thesis by (simp add: pool_inv_def del: fun_upd_apply)
qed

text \<open>A call that ends gives its connection up, to the pool or for good.\<close>

lemma pool_inv_release:
  assumes inv: "pool_inv s" and own: "holds (st_calls s i) c"
    and s': "st_calls s' = (st_calls s)(i := CDone r)" "st_keep s' = st_keep s" "st_made s' = st_made s"
      "distinct (st_cs s')" "set (st_cs s') \<subseteq> insert c (set (st_cs s))" "set (st_cs s') \<subseteq> st_open s'"
      "st_open s - {c} \<subseteq> st_open s'" "st_open s' \<subseteq> st_open s"
  shows "pool_inv s'"
proof -
  note c = inv_holds [OF inv own]
  have calls: "d \<in> st_open s' \<and> d \<notin> set (st_cs s') \<and> \<not> keeps (st_keep s') d \<and>
      (\<forall>k. holds (st_calls s' k) d \<longrightarrow> k = j)" if h: "holds (st_calls s' j) d" for j d
  proof -
    have before: "k \<noteq> i \<and> holds (st_calls s k) d" if "holds (st_calls s' k) d" for k
      using that s'(1) by (cases "k = i") simp_all
    note b = before [OF h]
    then have "d \<noteq> c" using c by blast
    note d = inv_holds [OF inv conjunct2 [OF b]]
    have "d \<in> st_open s'" "d \<notin> set (st_cs s')" using d \<open>d \<noteq> c\<close> s'(5,7) by blast+
    moreover have "\<not> keeps (st_keep s') d" using d by (simp add: s'(2))
    ultimately show ?thesis using before d by blast
  qed
  have keep: "d \<in> st_open s' \<and> d \<notin> set (st_cs s')" if "keeps (st_keep s') d" for d
  proof -
    have "keeps (st_keep s) d" using that by (simp add: s'(2))
    moreover from this have "d \<noteq> c" using c by blast
    moreover from calculation have "d \<in> st_open s \<and> d \<notin> set (st_cs s)" using inv unfolding pool_inv_def by blast
    ultimately show ?thesis using s'(5,7) by blast
  qed
  have "st_open s' \<subseteq> st_made s'" "keep_ok (st_keep s')"
    using inv s'(2,3,8) unfolding pool_inv_def by auto
  with calls keep s'(4,6) show ?thesis unfolding pool_inv_def by blast
qed

lemma pool_inv_step: "pool_step cfg s s' \<Longrightarrow> pool_inv s \<Longrightarrow> pool_inv s'"
proof (induction rule: pool_step.induct)
  case (get_pooled s i c cs')
  then have "distinct (st_cs s)" by (simp add: pool_inv_def)
  from client.get_some [OF get_pooled(2) this] get_pooled show ?case
    by (auto simp: pool_inv_def)
next
  case (keep_pick s c cs')
  then have "distinct (st_cs s)" "st_cs s \<noteq> []"
    using keeper.get_none [of "st_cs s"] by (auto simp: pool_inv_def)
  with keeper.get_some [OF keep_pick(2)] keep_pick show ?case
    by (auto simp: pool_inv_def)
next
  case (put s i c r)
  then have "holds (st_calls s i) c" by simp
  with put(2) show ?case
    by (rule pool_inv_release)
      (use put inv_holds [of s i c] in \<open>auto simp: client.put_set client.put_distinct pool_inv_def\<close>)
next
  case (timeout s i c r)
  then have "holds (st_calls s i) c" by simp
  with timeout(2) show ?case
    by (rule pool_inv_release)
      (use timeout inv_holds [of s i c] in \<open>auto simp: close_conn_def pool_inv_def\<close>)
next
  case (select s i c r)
  from select(2) show ?case by (rule pool_inv_relabel) (simp add: select(1) fun_eq_iff)
next
  case (signal s i c r)
  from signal(2) show ?case by (rule pool_inv_relabel) (simp add: signal(1) fun_eq_iff)
next
  case (signal_dropped s i c r)
  from signal_dropped(2) show ?case by (rule pool_inv_relabel) (simp add: signal_dropped(1) fun_eq_iff)
next
  case (keep_alive s c count)
  then show ?case
    by (auto simp: pool_inv_def keeper.put_set keeper.put_distinct)
qed (auto simp: pool_inv_def new_conn_def close_conn_def)

lemma pool_inv_reachable: "pool_reachable cfg s \<Longrightarrow> pool_inv s"
  by (induction rule: pool_reachable.induct) (auto intro: pool_inv_init pool_inv_step)

section \<open>Properties\<close>

text \<open>C11: in every interleaving, a connection is held by at most one call of \<open>RunArgs\<close>; it is not
  in the pool while a call or the keepalive holds it; the connections in the pool are distinct and,
  like those that are held, not closed.\<close>

theorem pool_exclusive:
  assumes "pool_reachable cfg s"
  shows "distinct (st_cs s) \<and> set (st_cs s) \<subseteq> st_open s \<and>
     (\<forall>i c. holds (st_calls s i) c \<longrightarrow> c \<in> st_open s - set (st_cs s) \<and> \<not> keeps (st_keep s) c \<and>
        (\<forall>j. holds (st_calls s j) c \<longrightarrow> j = i)) \<and>
     (\<forall>c. keeps (st_keep s) c \<longrightarrow> c \<in> st_open s - set (st_cs s))"
  using pool_inv_reachable [OF assms] by (simp add: pool_inv_def)

lemma sample_conn: "makeConnection (\<lambda>_ _ _ _. Inr c) cfg = Inr c"
  by (simp add: makeConnection_def)

text \<open>The witness: two calls, one in its \<open>select\<close> and one before it.\<close>

definition two_calls :: ros_state where
  "two_calls =
     ros_init\<lparr>st_calls := (\<lambda>_. CStart)(0 := CWait 5 True None, 1 := CWait 7 False None),
       st_open := {5, 7}, st_made := {5, 7}\<rparr>"

lemma two_calls_reachable: "pool_reachable cfg two_calls"
proof -
  define s1 where "s1 = set_call 0 CDial ros_init"
  define s2 where "s2 = set_call 1 CDial s1"
  define s3 where "s3 = set_call 0 (CWait 5 False None) (new_conn 5 s2)"
  define s4 where "s4 = set_call 1 (CWait 7 False None) (new_conn 7 s3)"
  have "pool_reachable cfg s1" unfolding s1_def
    by (intro pool_reachable.step [OF pool_reachable.start] pool_step.get_empty)
      (simp_all add: ros_init_def pool_get_def)
  then have "pool_reachable cfg s2" unfolding s2_def
    by (rule pool_reachable.step, intro pool_step.get_empty)
      (simp_all add: s1_def ros_init_def pool_get_def)
  then have "pool_reachable cfg s3" unfolding s3_def
    by (rule pool_reachable.step, intro pool_step.dial_ok [OF _ sample_conn])
      (simp_all add: s2_def s1_def ros_init_def)
  then have "pool_reachable cfg s4" unfolding s4_def
    by (rule pool_reachable.step, intro pool_step.dial_ok [OF _ sample_conn])
      (simp_all add: s3_def s2_def s1_def ros_init_def new_conn_def)
  then have "pool_reachable cfg (set_call 0 (CWait 5 True None) s4)"
    by (rule pool_reachable.step, intro pool_step.select)
      (simp add: s4_def s3_def s2_def s1_def ros_init_def new_conn_def)
  moreover have "set_call 0 (CWait 5 True None) s4 = two_calls"
    by (simp add: two_calls_def s4_def s3_def s2_def s1_def ros_init_def new_conn_def insert_commute
        fun_upd_twist)
  ultimately show ?thesis by simp
qed

definition sample_cfg :: ROSConnectConfig where
  "sample_cfg = \<lparr>rcc_host = ''192.0.2.1'', rcc_port = 8728, rcc_username = ''admin'', rcc_password = [], rcc_useTLS = False\<rparr>"

theorem pool_exclusive_witness:
  "pool_reachable sample_cfg two_calls \<and> holds (st_calls two_calls 0) 5 \<and> holds (st_calls two_calls 1) 7 \<and>
     5 \<in> st_open two_calls - set (st_cs two_calls) \<and> \<not> holds (st_calls two_calls 1) 5 \<and> distinct (st_cs two_calls)"
proof -
  have h: "holds (st_calls two_calls 0) 5" "holds (st_calls two_calls 1) 7" by (simp_all add: two_calls_def)
  note ex = pool_exclusive [OF two_calls_reachable [of sample_cfg]]
  from ex h(1) have "5 \<in> st_open two_calls - set (st_cs two_calls)" "\<not> holds (st_calls two_calls 1) 5" "distinct (st_cs two_calls)"
    by (blast, metis zero_neq_one, blast)
  with h two_calls_reachable show ?thesis by blast
qed

lemma dropped_step:
  "pool_step cfg s s' \<Longrightarrow> st_calls s i = CWait c b (Some r) \<Longrightarrow>
   st_calls s' i \<in> {CWait c False (Some r), CWait c True (Some r), CDone (Inl APITimeout)}"
  by (induction rule: pool_step.induct) (cases b; auto simp: new_conn_def close_conn_def)+

lemma done_step: "pool_step cfg s s' \<Longrightarrow> st_calls s i = CDone r \<Longrightarrow> st_calls s' i = CDone r"
  by (induction rule: pool_step.induct) (auto simp: new_conn_def close_conn_def)

text \<open>C35: once the signal of a call has been dropped because the reply came before the call reached
  its \<open>select\<close>, the call can only end with the timeout error, whatever the reply was.\<close>

theorem dropped_reply_times_out:
  assumes "(pool_step cfg)\<^sup>*\<^sup>* s s'" "st_calls s i = CWait c b (Some r)"
  shows "st_calls s' i \<in> {CWait c False (Some r), CWait c True (Some r), CDone (Inl APITimeout)}"
  using assms(1)
proof (induction rule: rtranclp_induct)
  case base
  then show ?case using assms(2) by (cases b) simp_all
next
  case (step s' s'')
  then show ?case using dropped_step [OF step(2), of i c _ r] done_step [OF step(2), of i] by auto
qed

theorem dropped_reply_times_out_witness:
  "\<exists>s. pool_reachable sample_cfg s \<and> st_calls s 1 = CWait 7 False (Some (Inr [])) \<and>
     (\<forall>s'. (pool_step sample_cfg)\<^sup>*\<^sup>* s s' \<longrightarrow>
        st_calls s' 1 \<in> {CWait 7 False (Some (Inr [])), CWait 7 True (Some (Inr [])), CDone (Inl APITimeout)})"
proof (intro exI conjI allI impI)
  let ?s = "set_call 1 (CWait 7 False (Some (Inr []))) two_calls"
  show "pool_reachable sample_cfg ?s"
    by (rule pool_reachable.step [OF two_calls_reachable], rule pool_step.signal_dropped)
      (simp add: two_calls_def)
  show "st_calls ?s 1 = CWait 7 False (Some (Inr []))" by simp
  show "st_calls s' 1 \<in> {CWait 7 False (Some (Inr [])), CWait 7 True (Some (Inr [])), CDone (Inl APITimeout)}"
    if "(pool_step sample_cfg)\<^sup>*\<^sup>* ?s s'" for s'
    by (rule dropped_reply_times_out [OF that, where b = False]) simp
qed

definition keep_pause :: "nat \<Rightarrow> int go" where
  "keep_pause count = (if count = 0 then Panic else Ret (go_div 10000000000 (int count)))"

text \<open>The keepalive never divides by zero when it computes its pause, which is at most the ten
  seconds of an empty pool (in nanoseconds).\<close>

theorem keep_pause_ok:
  assumes "pool_reachable cfg s" "st_keep s = KSleep n"
  shows "\<exists>d. keep_pause n = Ret d \<and> 0 \<le> d \<and> d \<le> 10000000000"
proof -
  have "0 < n" using pool_inv_reachable [OF assms(1)] assms(2) by (simp add: pool_inv_def)
  then have "(10000000000 :: int) div int n \<le> 10000000000" "0 \<le> (10000000000 :: int) div int n"
    by (auto intro: int_div_le_self pos_imp_zdiv_nonneg_iff [THEN iffD2])
  with \<open>0 < n\<close> show ?thesis by (simp add: keep_pause_def go_div_nonneg)
qed

theorem keep_pause_ok_witness:
  "\<exists>s d. pool_reachable sample_cfg s \<and> st_keep s = KSleep 1 \<and> keep_pause 1 = Ret d \<and> 0 \<le> d \<and> d \<le> 10000000000"
proof -
  have "pool_step sample_cfg ros_init (ros_init\<lparr>st_keep := KDial\<rparr>)"
    by (rule pool_step.keep_empty) (simp_all add: ros_init_def pool_pick_def)
  moreover have "pool_step sample_cfg (ros_init\<lparr>st_keep := KDial\<rparr>) ((new_conn 3 (ros_init\<lparr>st_keep := KDial\<rparr>))\<lparr>st_keep := KSleep 1\<rparr>)"
    by (rule pool_step.keep_dial_ok [OF _ sample_conn]) (simp_all add: ros_init_def)
  ultimately have "pool_reachable sample_cfg ((new_conn 3 (ros_init\<lparr>st_keep := KDial\<rparr>))\<lparr>st_keep := KSleep 1\<rparr>)"
    by (blast intro: pool_reachable.intros)
  from keep_pause_ok [OF this] this show ?thesis by fastforce
qed

lemma leak_round:
  assumes "pool_reachable cfg s" "st_cs s = []" "st_calls s = (\<lambda>_. CStart)" "st_keep s = KPick" "c \<notin> st_made s"
  shows "pool_reachable cfg ((new_conn c s)\<lparr>st_keep := KPick\<rparr>)"
proof -
  have "pool_step cfg s (s\<lparr>st_keep := KDial\<rparr>)"
    using assms(2,4) by (intro pool_step.keep_empty) (simp_all add: pool_pick_def)
  moreover have "pool_step cfg (s\<lparr>st_keep := KDial\<rparr>) ((new_conn c (s\<lparr>st_keep := KDial\<rparr>))\<lparr>st_keep := KSleep 1\<rparr>)"
    using assms(5) by (intro pool_step.keep_dial_ok [OF _ sample_conn]) simp_all
  moreover have "pool_step cfg ((new_conn c (s\<lparr>st_keep := KDial\<rparr>))\<lparr>st_keep := KSleep 1\<rparr>)
      ((new_conn c (s\<lparr>st_keep := KDial\<rparr>))\<lparr>st_keep := KSleep 1\<rparr>\<lparr>st_keep := KPick\<rparr>)"
    by (rule pool_step.keep_wake) simp
  ultimately have "pool_reachable cfg ((new_conn c (s\<lparr>st_keep := KDial\<rparr>))\<lparr>st_keep := KSleep 1\<rparr>\<lparr>st_keep := KPick\<rparr>)"
    using assms(1) by (blast intro: pool_reachable.step)
  then show ?thesis by (simp add: new_conn_def)
qed

lemma leak_rounds:
  "\<exists>s. pool_reachable cfg s \<and> st_cs s = [] \<and> st_calls s = (\<lambda>_. CStart) \<and> st_keep s = KPick \<and>
     st_open s = {..<n} \<and> st_made s = {..<n}"
proof (induction n)
  case 0
  have "pool_reachable cfg ros_init" by (rule pool_reachable.start)
  then show ?case by (intro exI [where x = ros_init]) (simp add: ros_init_def)
next
  case (Suc n)
  then obtain s where s: "pool_reachable cfg s" "st_cs s = []" "st_calls s = (\<lambda>_. CStart)" "st_keep s = KPick"
      "st_open s = {..<n}" "st_made s = {..<n}" by blast
  have "pool_reachable cfg ((new_conn n s)\<lparr>st_keep := KPick\<rparr>)"
    using s by (intro leak_round) simp_all
  then show ?case
    by (intro exI [where x = "(new_conn n s)\<lparr>st_keep := KPick\<rparr>"])
      (simp add: new_conn_def s lessThan_Suc)
qed

definition unowned :: "ros_state \<Rightarrow> conn set" where
  "unowned s = {c \<in> st_open s. c \<notin> set (st_cs s) \<and> (\<forall>i. \<not> holds (st_calls s i) c) \<and> \<not> keeps (st_keep s) c}"

text \<open>C34: an idle program leaks: as long as the router accepts connections and no call uses the
  pool, each round of the keepalive opens another connection that is neither in the pool nor held
  by anyone, so for every \<open>n\<close> there is a run with \<open>n\<close> such connections.\<close>

theorem keepalive_leaks: "\<exists>s. pool_reachable cfg s \<and> st_cs s = [] \<and> card (unowned s) = n"
proof -
  obtain s where s: "pool_reachable cfg s" "st_cs s = []" "st_calls s = (\<lambda>_. CStart)" "st_keep s = KPick"
      "st_open s = {..<n}"
    using leak_rounds by blast
  then have "unowned s = {..<n}" by (auto simp: unowned_def)
  with s show ?thesis by (intro exI [where x = s]) simp
qed

end
