(* ===== verification/Link.thy ===== *)
theory Link
  imports GoText "HOL-Library.AList"
begin

text \<open>
  \<open>link.go\<close> and \<open>ifNameToIndex\<close> of \<open>cgo.go\<close>: interface names with a VLAN identifier, the
  choice of interfaces, and the VLAN devices. The netlink library and the C library are
  parameters: functions on the state \<open>'k\<close> of the kernel.
\<close>

section \<open>The kernel's interfaces\<close>

text \<open>
  A link as the netlink library returns it; \<open>nl_vlan\<close> is the VLAN identifier of a
  \<open>*netlink.Vlan\<close>, and \<open>None\<close> for the other types of links.
\<close>

record net_link =
  nl_name :: string
  nl_index :: int
  nl_parent :: int
  nl_vlan :: "int option"

datatype link_error =
    Malformed string
  | NotFound string
  | NoIndex string
  | NotVlan string int string
  | AddFailed string
  | SetUpFailed string
  | NoneUsable "string list"

record 'k link_ops =
  LinkByName :: "string \<Rightarrow> 'k \<Rightarrow> net_link option"
  LinkAdd :: "net_link \<Rightarrow> 'k \<Rightarrow> bool \<times> 'k"
  LinkSetUp :: "net_link \<Rightarrow> 'k \<Rightarrow> bool \<times> 'k"
  LinkDel :: "net_link \<Rightarrow> 'k \<Rightarrow> bool \<times> 'k"
  if_nametoindex :: "string \<Rightarrow> 'k \<Rightarrow> int"

definition ifNameToIndex :: "'k link_ops \<Rightarrow> string \<Rightarrow> 'k \<Rightarrow> link_error + int" where
  "ifNameToIndex ops name k =
     (let index = if_nametoindex ops name k in if index = 0 then Inl (NoIndex name) else Inr index)"

section \<open>Names\<close>

record DecodedInterface =
  di_name :: string
  di_vlan :: int

definition NewDecodedInterface :: "nat \<Rightarrow> string \<Rightarrow> link_error + DecodedInterface" where
  "NewDecodedInterface iw ifname =
     (let parts = Split CHR ''@'' ifname in
      if length parts = 1 then Inr \<lparr>di_name = ifname, di_vlan = 0\<rparr>
      else if length parts = 2 then
        (case Atoi iw (parts ! 1) of
           (vlan, None) \<Rightarrow> Inr \<lparr>di_name = parts ! 0, di_vlan = vlan\<rparr>
         | (_, Some _) \<Rightarrow> Inl (Malformed ifname))
      else Inl (Malformed ifname))"

definition ActualName :: "DecodedInterface \<Rightarrow> string" where
  "ActualName i =
     (if di_vlan i = 0 then di_name i else di_name i @ ''.vlan'' @ print_int (di_vlan i))"

section \<open>VLAN devices\<close>

text \<open>\<open>createVlanDev\<close> ignores nothing: each call that fails ends it, a device that cannot be set up stays.\<close>

definition createVlanDev :: "'k link_ops \<Rightarrow> string \<Rightarrow> string \<Rightarrow> int \<Rightarrow> 'k \<Rightarrow> link_error option \<times> 'k" where
  "createVlanDev ops linkname devname id' k =
     (case LinkByName ops linkname k of
        None \<Rightarrow> (Some (NotFound linkname), k)
      | Some master \<Rightarrow>
          (let vlan = \<lparr>nl_name = devname, nl_index = 0, nl_parent = nl_index master, nl_vlan = Some id'\<rparr>;
               (ok, k) = LinkAdd ops vlan k
           in if \<not> ok then (Some (AddFailed devname), k)
              else let (ok, k) = LinkSetUp ops vlan k
                   in if \<not> ok then (Some (SetUpFailed devname), k) else (None, k)))"

text \<open>0: there is no such device; 1: it is something else; 2: it is the VLAN device wanted.\<close>

definition checkVlanDev :: "'k link_ops \<Rightarrow> string \<Rightarrow> string \<Rightarrow> int \<Rightarrow> 'k \<Rightarrow> nat" where
  "checkVlanDev ops linkname devname id' k =
     (case LinkByName ops devname k of
        None \<Rightarrow> 0
      | Some vlink \<Rightarrow>
          (case nl_vlan vlink of
             None \<Rightarrow> 1
           | Some vid \<Rightarrow>
               if vid \<noteq> id' then 1
               else (case LinkByName ops linkname k of
                       None \<Rightarrow> 1
                     | Some master \<Rightarrow> if nl_index master \<noteq> nl_parent vlink then 1 else 2)))"

definition deleteVlanDev :: "'k link_ops \<Rightarrow> string \<Rightarrow> 'k \<Rightarrow> bool \<times> 'k" where
  "deleteVlanDev ops devname k =
     (case LinkByName ops devname k of None \<Rightarrow> (True, k) | Some vlan \<Rightarrow> LinkDel ops vlan k)"

definition PrepareVLAN :: "'k link_ops \<Rightarrow> DecodedInterface \<Rightarrow> 'k \<Rightarrow> link_error option \<times> 'k" where
  "PrepareVLAN ops i k =
     (let result = checkVlanDev ops (di_name i) (ActualName i) (di_vlan i) k in
      if result = 1 then (Some (NotVlan (ActualName i) (di_vlan i) (di_name i)), k)
      else if result = 2 then (None, k)
      else createVlanDev ops (di_name i) (ActualName i) (di_vlan i) k)"

definition Exists :: "'k link_ops \<Rightarrow> DecodedInterface \<Rightarrow> 'k \<Rightarrow> bool \<times> 'k" where
  "Exists ops i k =
     (if di_vlan i = 0 then (\<not> isl (ifNameToIndex ops (di_name i) k), k)
      else (case PrepareVLAN ops i k of (Some e, k) \<Rightarrow> (False, k) | (None, k) \<Rightarrow> (True, k)))"

definition Index :: "'k link_ops \<Rightarrow> DecodedInterface \<Rightarrow> 'k \<Rightarrow> (link_error + int) \<times> 'k" where
  "Index ops i k =
     (if di_vlan i \<noteq> 0 then
        (case PrepareVLAN ops i k of
           (Some e, k) \<Rightarrow> (Inl e, k)
         | (None, k) \<Rightarrow> (ifNameToIndex ops (ActualName i) k, k))
      else (ifNameToIndex ops (ActualName i) k, k))"

section \<open>Choosing interfaces\<close>

fun first_interface ::
  "'k link_ops \<Rightarrow> nat \<Rightarrow> string list \<Rightarrow> 'k \<Rightarrow> DecodedInterface option \<times> 'k" where
  "first_interface ops iw [] k = (None, k)"
| "first_interface ops iw (name # names) k =
     (case NewDecodedInterface iw name of
        Inl e \<Rightarrow> first_interface ops iw names k
      | Inr di \<Rightarrow> (let (ok, k) = Exists ops di k in
          if ok then (Some di, k) else first_interface ops iw names k))"

definition findFirstInterface ::
  "'k link_ops \<Rightarrow> nat \<Rightarrow> string list \<Rightarrow> 'k \<Rightarrow> (link_error + DecodedInterface) \<times> 'k" where
  "findFirstInterface ops iw ifnames k =
     (case first_interface ops iw ifnames k of
        (Some di, k) \<Rightarrow> (Inr di, k)
      | (None, k) \<Rightarrow> (Inl (NoneUsable ifnames), k))"

text \<open>A Go map with string keys: an association list with distinct keys.\<close>

fun collect ::
  "'k link_ops \<Rightarrow> nat \<Rightarrow> string list \<Rightarrow> (string \<times> DecodedInterface) list \<Rightarrow> 'k \<Rightarrow>
   (string \<times> DecodedInterface) list \<times> 'k" where
  "collect ops iw [] dis k = (dis, k)"
| "collect ops iw (name # names) dis k =
     (case NewDecodedInterface iw name of
        Inl e \<Rightarrow> collect ops iw names dis k
      | Inr di \<Rightarrow> (let (ok, k) = Exists ops di k in
          collect ops iw names (if ok then AList.update name di dis else dis) k))"

definition collectInterfaces ::
  "'k link_ops \<Rightarrow> nat \<Rightarrow> string list \<Rightarrow> 'k \<Rightarrow> (link_error + (string \<times> DecodedInterface) list) \<times> 'k" where
  "collectInterfaces ops iw ifnames k =
     (let (dis, k) = collect ops iw ifnames [] k in
      if length dis = 0 then (Inl (NoneUsable ifnames), k) else (Inr dis, k))"

section \<open>The documented kernel\<close>

text \<open>
  What the properties rely on: links are found by name and their index is not zero; adding a link
  fails if its name is taken, and otherwise appends it with an index of its own; setting a link up
  changes no name, index or parent.
\<close>

definition find_link :: "string \<Rightarrow> net_link list \<Rightarrow> net_link option" where
  "find_link name ls = find (\<lambda>l. nl_name l = name) ls"

definition link_kernel :: "'k link_ops \<Rightarrow> ('k \<Rightarrow> net_link list) \<Rightarrow> bool" where
  "link_kernel ops links \<longleftrightarrow>
     (\<forall>name k. LinkByName ops name k = find_link name (links k)) \<and>
     (\<forall>k. \<forall>l\<in>set (links k). nl_index l \<noteq> 0) \<and>
     (\<forall>name k. if_nametoindex ops name k =
        (case find_link name (links k) of None \<Rightarrow> 0 | Some l \<Rightarrow> nl_index l)) \<and>
     (\<forall>l k. fst (LinkAdd ops l k) \<longrightarrow> find_link (nl_name l) (links k) = None \<and>
        (\<exists>idx. links (snd (LinkAdd ops l k)) = links k @ [l\<lparr>nl_index := idx\<rparr>])) \<and>
     (\<forall>l k. \<not> fst (LinkAdd ops l k) \<longrightarrow> links (snd (LinkAdd ops l k)) = links k) \<and>
     (\<forall>l k. links (snd (LinkSetUp ops l k)) = links k)"

lemma find_link_append:
  "find_link name (ls @ ms) = (case find_link name ls of None \<Rightarrow> find_link name ms | Some l \<Rightarrow> Some l)"
  by (induction ls) (auto simp: find_link_def)

lemma find_link_Nil [simp]: "find_link name [] = None"
  by (simp add: find_link_def)

lemma find_link_Cons: "find_link name (l # ls) = (if nl_name l = name then Some l else find_link name ls)"
  by (simp add: find_link_def)

lemma find_link_SomeD: "find_link name ls = Some l \<Longrightarrow> l \<in> set ls \<and> nl_name l = name"
  by (induction ls) (auto simp: find_link_Cons split: if_splits)

lemma kernel_find:
  assumes "link_kernel ops links"
  shows "LinkByName ops name k = find_link name (links k)"
    "ifNameToIndex ops name k =
       (case find_link name (links k) of None \<Rightarrow> Inl (NoIndex name) | Some l \<Rightarrow> Inr (nl_index l))"
proof -
  show "LinkByName ops name k = find_link name (links k)"
    using assms unfolding link_kernel_def by blast
  have "if_nametoindex ops name k = (case find_link name (links k) of None \<Rightarrow> 0 | Some l \<Rightarrow> nl_index l)"
    "\<forall>l\<in>set (links k). nl_index l \<noteq> 0"
    using assms unfolding link_kernel_def by blast+
  then show "ifNameToIndex ops name k =
       (case find_link name (links k) of None \<Rightarrow> Inl (NoIndex name) | Some l \<Rightarrow> Inr (nl_index l))"
    by (auto simp: ifNameToIndex_def Let_def dest!: find_link_SomeD split: option.splits)
qed

lemma kernel_add:
  assumes "link_kernel ops links" "LinkAdd ops l k = (ok, k')"
  shows "ok \<Longrightarrow> find_link (nl_name l) (links k) = None"
    "ok \<Longrightarrow> \<exists>idx. links k' = links k @ [l\<lparr>nl_index := idx\<rparr>]" "\<not> ok \<Longrightarrow> links k' = links k"
  using assms unfolding link_kernel_def by (metis fst_conv snd_conv)+

lemma kernel_up: "link_kernel ops links \<Longrightarrow> LinkSetUp ops l k = (ok, k') \<Longrightarrow> links k' = links k"
  unfolding link_kernel_def by (metis snd_conv)

text \<open>The links there were are kept, in their order; at most the named one is added.\<close>

definition grown :: "net_link list \<Rightarrow> net_link list \<Rightarrow> bool" where
  "grown ls ms \<longleftrightarrow> (\<exists>new. ms = ls @ new)"

lemma grown_refl [simp]: "grown ls ls"
  by (simp add: grown_def)

lemma grown_trans: "grown ls ms \<Longrightarrow> grown ms ns \<Longrightarrow> grown ls ns"
  by (auto simp: grown_def)

lemma grown_find: "grown ls ms \<Longrightarrow> find_link name ls = Some l \<Longrightarrow> find_link name ms = Some l"
  by (auto simp: grown_def find_link_append)

end
