(* ===== verification/LinkProps.thy ===== *)
theory LinkProps
  imports Link GoNetText
begin

text \<open>
  What the interface layer guarantees on a kernel that behaves as documented: the VLAN device is the
  wanted one after \<open>PrepareVLAN\<close>, existing links are never changed, and the interfaces that
  \<open>findFirstInterface\<close> and \<open>collectInterfaces\<close> return can be opened.
\<close>

section \<open>Preparing a VLAN device\<close>

lemma checkVlanDev_find:
  assumes "link_kernel ops links"
  shows "checkVlanDev ops linkname devname v k = 2 \<longleftrightarrow>
     (\<exists>d m. find_link devname (links k) = Some d \<and> find_link linkname (links k) = Some m \<and>
        nl_vlan d = Some v \<and> nl_parent d = nl_index m)"
    "checkVlanDev ops linkname devname v k = 0 \<longleftrightarrow> find_link devname (links k) = None"
    "checkVlanDev ops linkname devname v k \<in> {0, 1, 2}"
  by (auto simp: checkVlanDev_def kernel_find [OF assms] split: option.splits)

lemma checkVlanDev_grown:
  assumes "link_kernel ops links" "grown (links k) (links k')" "checkVlanDev ops linkname devname v k = 2"
  shows "checkVlanDev ops linkname devname v k' = 2"
  using assms(3) grown_find [OF assms(2)] by (auto simp: checkVlanDev_find [OF assms(1)])

lemma createVlanDev_ok:
  assumes ker: "link_kernel ops links" and run: "createVlanDev ops linkname devname v k = (r, k')"
    and none: "find_link devname (links k) = None"
  shows "grown (links k) (links k') \<and> length (links k') \<le> Suc (length (links k)) \<and>
     (r = None \<longrightarrow> checkVlanDev ops linkname devname v k' = 2)"
proof (cases "find_link linkname (links k)")
  case None
  with run show ?thesis by (auto simp: createVlanDev_def kernel_find [OF ker])
next
  case (Some m)
  let ?l = "\<lparr>nl_name = devname, nl_index = 0, nl_parent = nl_index m, nl_vlan = Some v\<rparr>"
  obtain ok k1 where add: "LinkAdd ops ?l k = (ok, k1)" by fastforce
  show ?thesis
  proof (cases ok)
    case False
    with run Some add show ?thesis
      using kernel_add(3) [OF ker add] by (auto simp: createVlanDev_def kernel_find [OF ker])
  next
    case True
    obtain up k2 where up: "LinkSetUp ops ?l k1 = (up, k2)" by fastforce
    obtain idx where "links k1 = links k @ [?l\<lparr>nl_index := idx\<rparr>]"
      using kernel_add(2) [OF ker add True] by blast
    then have k2: "links k2 = links k @ [?l\<lparr>nl_index := idx\<rparr>]"
      using kernel_up [OF ker up] by simp
    have "checkVlanDev ops linkname devname v k2 = 2"
      using none Some by (simp add: checkVlanDev_find(1) [OF ker] k2 find_link_append find_link_Cons)
    moreover have "k' = k2" using run Some add True up by (auto simp: createVlanDev_def kernel_find [OF ker] split: if_splits)
    ultimately show ?thesis by (simp add: k2 grown_def)
  qed
qed

lemma PrepareVLAN_ok:
  assumes ker: "link_kernel ops links" and run: "PrepareVLAN ops i k = (r, k')"
  shows "grown (links k) (links k')" "length (links k') \<le> Suc (length (links k))"
    "r = None \<Longrightarrow> checkVlanDev ops (di_name i) (ActualName i) (di_vlan i) k' = 2"
proof -
  let ?c = "checkVlanDev ops (di_name i) (ActualName i) (di_vlan i)"
  consider "?c k = 0" | "?c k = 1" | "?c k = 2"
    using checkVlanDev_find(3) [OF ker, of "di_name i" "ActualName i" "di_vlan i" k] by auto
  then have "grown (links k) (links k') \<and> length (links k') \<le> Suc (length (links k)) \<and> (r = None \<longrightarrow> ?c k' = 2)"
  proof cases
    case 1
    then have "createVlanDev ops (di_name i) (ActualName i) (di_vlan i) k = (r, k')"
      using run by (simp add: PrepareVLAN_def)
    from createVlanDev_ok [OF ker this] 1 show ?thesis by (simp add: checkVlanDev_find(2) [OF ker])
  qed (use run in \<open>auto simp: PrepareVLAN_def\<close>)
  then show "grown (links k) (links k')" "length (links k') \<le> Suc (length (links k))"
    "r = None \<Longrightarrow> ?c k' = 2" by auto
qed

lemma PrepareVLAN_again:
  "checkVlanDev ops (di_name i) (ActualName i) (di_vlan i) k = 2 \<Longrightarrow> PrepareVLAN ops i k = (None, k)"
  by (simp add: PrepareVLAN_def)

section \<open>Usable interfaces\<close>

text \<open>An interface is usable if its index can be looked up, now and without changing anything.\<close>

definition usable_if :: "'k link_ops \<Rightarrow> ('k \<Rightarrow> net_link list) \<Rightarrow> DecodedInterface \<Rightarrow> 'k \<Rightarrow> bool" where
  "usable_if ops links di k \<longleftrightarrow>
     (\<exists>l. find_link (ActualName di) (links k) = Some l) \<and>
     (di_vlan di \<noteq> 0 \<longrightarrow> checkVlanDev ops (di_name di) (ActualName di) (di_vlan di) k = 2)"

lemma usable_Index:
  assumes "link_kernel ops links" "usable_if ops links di k"
  shows "\<exists>l\<in>set (links k). nl_name l = ActualName di \<and> Index ops di k = (Inr (nl_index l), k)"
  using assms(2) PrepareVLAN_again [of ops di k]
  by (auto simp: usable_if_def Index_def kernel_find [OF assms(1)] dest: find_link_SomeD)

lemma usable_grown:
  assumes "link_kernel ops links" "grown (links k) (links k')" "usable_if ops links di k"
  shows "usable_if ops links di k'"
  using assms(3) grown_find [OF assms(2)] checkVlanDev_grown [OF assms(1,2)]
  unfolding usable_if_def by blast

lemma Exists_ok:
  assumes ker: "link_kernel ops links" and run: "Exists ops i k = (ok, k')"
  shows "grown (links k) (links k')" "ok \<Longrightarrow> usable_if ops links i k'"
proof -
  have "grown (links k) (links k') \<and> (ok \<longrightarrow> usable_if ops links i k')"
  proof (cases "di_vlan i = 0")
    case True
    with run show ?thesis
      by (auto simp: Exists_def usable_if_def ActualName_def kernel_find [OF ker] split: option.splits)
  next
    case False
    obtain r k1 where p: "PrepareVLAN ops i k = (r, k1)" by fastforce
    with run False have "k' = k1" "ok = (r = None)" by (auto simp: Exists_def split: option.splits)
    with PrepareVLAN_ok [OF ker p] show ?thesis
      by (auto simp: usable_if_def checkVlanDev_find(1) [OF ker])
  qed
  then show "grown (links k) (links k')" "ok \<Longrightarrow> usable_if ops links i k'" by auto
qed

lemma first_interface_ok:
  "link_kernel ops links \<Longrightarrow> first_interface ops iw names k = (r, k') \<Longrightarrow>
   grown (links k) (links k') \<and>
   (\<forall>di. r = Some di \<longrightarrow> usable_if ops links di k' \<and> (\<exists>n\<in>set names. NewDecodedInterface iw n = Inr di))"
proof (induction names arbitrary: k)
  case Nil
  then show ?case by auto
next
  case (Cons name names)
  show ?case
  proof (cases "NewDecodedInterface iw name")
    case (Inl e)
    with Cons show ?thesis by auto
  next
    case (Inr di)
    obtain ok k1 where e: "Exists ops di k = (ok, k1)" by fastforce
    note ex = Exists_ok [OF Cons.prems(1) e]
    show ?thesis
    proof (cases ok)
      case True
      with Cons.prems(2) Inr e ex show ?thesis by auto
    next
      case False
      with Cons.prems(2) Inr e have "first_interface ops iw names k1 = (r, k')" by simp
      from Cons.IH [OF Cons.prems(1) this] ex(1) show ?thesis by (auto intro: grown_trans)
    qed
  qed
qed

lemma set_update_subset: "set (AList.update k v al) \<subseteq> insert (k, v) (set al)"
  by (induction al) auto

lemma collect_ok:
  "link_kernel ops links \<Longrightarrow> collect ops iw names dis k = (dis', k') \<Longrightarrow> distinct (map fst dis) \<Longrightarrow>
   \<forall>(n, di)\<in>set dis. usable_if ops links di k \<and> n \<in> ns \<and> NewDecodedInterface iw n = Inr di \<Longrightarrow>
   grown (links k) (links k') \<and> distinct (map fst dis') \<and>
   (\<forall>(n, di)\<in>set dis'. usable_if ops links di k' \<and> n \<in> ns \<union> set names \<and> NewDecodedInterface iw n = Inr di)"
proof (induction names arbitrary: k dis ns)
  case Nil
  then show ?case by auto
next
  case (Cons name names)
  show ?case
  proof (cases "NewDecodedInterface iw name")
    case (Inl e)
    with Cons show ?thesis by (fastforce dest!: Cons.IH)
  next
    case (Inr di)
    obtain ok k1 where e: "Exists ops di k = (ok, k1)" by fastforce
    note ex = Exists_ok [OF Cons.prems(1) e]
    let ?dis = "if ok then AList.update name di dis else dis"
    have run: "collect ops iw names ?dis k1 = (dis', k')" using Cons.prems(2) Inr e by simp
    have "\<forall>(n, di)\<in>set ?dis. usable_if ops links di k1 \<and> n \<in> insert name ns \<and> NewDecodedInterface iw n = Inr di"
      using Cons.prems(4) usable_grown [OF Cons.prems(1) ex(1)] ex(2) Inr
        set_update_subset [of name di dis] by (cases ok) fastforce+
    from Cons.IH [OF Cons.prems(1) run _ this] Cons.prems(3) ex(1) show ?thesis
      by (auto intro: grown_trans simp: distinct_update)
  qed
qed

section \<open>A reference kernel\<close>

text \<open>A kernel whose state is the list of its links; it satisfies the hypothesis.\<close>

definition live :: "net_link list \<Rightarrow> net_link list" where
  "live k = filter (\<lambda>l. nl_index l \<noteq> 0) k"

definition ref_links :: "net_link list link_ops" where
  "ref_links =
     \<lparr>LinkByName = (\<lambda>name k. find_link name (live k)),
      LinkAdd = (\<lambda>l k. if find_link (nl_name l) (live k) = None
        then (True, k @ [l\<lparr>nl_index := int (Suc (length k))\<rparr>]) else (False, k)),
      LinkSetUp = (\<lambda>l k. (True, k)),
      LinkDel = (\<lambda>l k. (True, filter (\<lambda>m. nl_name m \<noteq> nl_name l) k)),
      if_nametoindex = (\<lambda>name k. case find_link name (live k) of None \<Rightarrow> 0 | Some l \<Rightarrow> nl_index l)\<rparr>"

lemma ref_links_kernel: "link_kernel ref_links live"
  by (auto simp: link_kernel_def ref_links_def live_def)

definition sample_links :: "net_link list" where
  "sample_links = [\<lparr>nl_name = ''eth0'', nl_index = 2, nl_parent = 0, nl_vlan = None\<rparr>]"

definition sample_vlan :: DecodedInterface where
  "sample_vlan = \<lparr>di_name = ''eth0'', di_vlan = 5\<rparr>"

lemma sample_vlan_name: "ActualName sample_vlan = ''eth0.vlan5''"
  by (simp add: ActualName_def sample_vlan_def print_int_def print_eval)

lemma sample_prepare:
  "PrepareVLAN ref_links sample_vlan sample_links =
     (None, sample_links @ [\<lparr>nl_name = ''eth0.vlan5'', nl_index = 2, nl_parent = 2, nl_vlan = Some 5\<rparr>])"
  unfolding PrepareVLAN_def sample_vlan_name
  by (simp add: sample_vlan_def sample_links_def checkVlanDev_def createVlanDev_def ref_links_def live_def
      find_link_Cons)

section \<open>Properties\<close>

text \<open>C33: on a kernel that behaves as documented, \<open>PrepareVLAN\<close> keeps all links and adds at most
  one; when it succeeds there is a VLAN device of the name, identifier and parent wanted, and
  preparing it again succeeds and changes nothing; it fails without a change if the name belongs
  to another device.\<close>

theorem PrepareVLAN_correct:
  assumes "link_kernel ops links" "PrepareVLAN ops i k = (r, k')"
  shows "(\<exists>new. links k' = links k @ new \<and> length new \<le> 1) \<and>
     (r = None \<longrightarrow> PrepareVLAN ops i k' = (None, k') \<and>
        (\<exists>d m. find_link (ActualName i) (links k') = Some d \<and> find_link (di_name i) (links k') = Some m \<and>
           nl_vlan d = Some (di_vlan i) \<and> nl_parent d = nl_index m)) \<and>
     (checkVlanDev ops (di_name i) (ActualName i) (di_vlan i) k = 1 \<longrightarrow> r \<noteq> None \<and> k' = k)"
proof -
  note p = PrepareVLAN_ok [OF assms]
  have "\<exists>new. links k' = links k @ new \<and> length new \<le> 1"
    using p(1,2) by (auto simp: grown_def)
  moreover have "PrepareVLAN ops i k' = (None, k') \<and>
      (\<exists>d m. find_link (ActualName i) (links k') = Some d \<and> find_link (di_name i) (links k') = Some m \<and>
         nl_vlan d = Some (di_vlan i) \<and> nl_parent d = nl_index m)" if "r = None"
    using PrepareVLAN_again [OF p(3) [OF that]] p(3) [OF that, unfolded checkVlanDev_find(1) [OF assms(1)]]
    by blast
  moreover have "r \<noteq> None \<and> k' = k" if "checkVlanDev ops (di_name i) (ActualName i) (di_vlan i) k = 1"
    using assms(2) that by (auto simp: PrepareVLAN_def)
  ultimately show ?thesis by blast
qed

theorem PrepareVLAN_correct_witness:
  "\<exists>k' new. PrepareVLAN ref_links sample_vlan sample_links = (None, k') \<and> live k' = live sample_links @ new \<and>
     length new \<le> 1 \<and> PrepareVLAN ref_links sample_vlan k' = (None, k')"
  using PrepareVLAN_correct [OF ref_links_kernel sample_prepare] sample_prepare by blast

text \<open>On such a kernel, an interface that \<open>findFirstInterface\<close> returns is named in the list and
  can be opened: its index can be looked up without a further change, and it is the index of a link
  of its name. The links there were are kept.\<close>

theorem findFirstInterface_usable:
  assumes "link_kernel ops links" "findFirstInterface ops iw names k = (r, k')"
  shows "(\<exists>new. links k' = links k @ new) \<and>
     (\<forall>di. r = Inr di \<longrightarrow> (\<exists>n\<in>set names. NewDecodedInterface iw n = Inr di) \<and>
        (\<exists>l\<in>set (links k'). nl_name l = ActualName di \<and> Index ops di k' = (Inr (nl_index l), k')))"
proof -
  obtain d k1 where f: "first_interface ops iw names k = (d, k1)" by fastforce
  then have "k1 = k'" "\<forall>di. r = Inr di \<longrightarrow> d = Some di"
    using assms(2) by (auto simp: findFirstInterface_def split: option.splits)
  with first_interface_ok [OF assms(1) f] show ?thesis
    using usable_Index [OF assms(1)] by (auto simp: grown_def)
qed

lemma sample_decode: "NewDecodedInterface 64 ''eth0'' = Inr \<lparr>di_name = ''eth0'', di_vlan = 0\<rparr>"
  by (simp add: NewDecodedInterface_def)

lemma sample_exists: "Exists ref_links \<lparr>di_name = ''eth0'', di_vlan = 0\<rparr> sample_links = (True, sample_links)"
  by (simp add: Exists_def ifNameToIndex_def ref_links_def live_def sample_links_def find_link_Cons)

theorem findFirstInterface_usable_witness:
  "\<exists>di. findFirstInterface ref_links 64 [''a@b@c'', ''eth0''] sample_links = (Inr di, sample_links) \<and>
     (\<exists>l\<in>set (live sample_links). nl_name l = ActualName di \<and>
        Index ref_links di sample_links = (Inr (nl_index l), sample_links))"
proof -
  have "findFirstInterface ref_links 64 [''a@b@c'', ''eth0''] sample_links =
      (Inr \<lparr>di_name = ''eth0'', di_vlan = 0\<rparr>, sample_links)"
    using sample_decode sample_exists by (simp add: findFirstInterface_def NewDecodedInterface_def)
  with findFirstInterface_usable [OF ref_links_kernel this] show ?thesis by blast
qed

text \<open>On such a kernel, \<open>collectInterfaces\<close> returns a map that is not empty and in which every
  entry is under its own configured name and can be opened.\<close>

theorem collectInterfaces_usable:
  assumes "link_kernel ops links" "collectInterfaces ops iw names k = (Inr dis, k')"
  shows "dis \<noteq> [] \<and> distinct (map fst dis) \<and> (\<exists>new. links k' = links k @ new) \<and>
     (\<forall>(n, di)\<in>set dis. n \<in> set names \<and> NewDecodedInterface iw n = Inr di \<and>
        (\<exists>l\<in>set (links k'). nl_name l = ActualName di \<and> Index ops di k' = (Inr (nl_index l), k')))"
proof -
  have "collect ops iw names [] k = (dis, k')" "dis \<noteq> []"
    using assms(2) by (auto simp: collectInterfaces_def Let_def split: prod.splits if_splits)
  with collect_ok [OF assms(1) this(1), of "{}"] have c: "grown (links k) (links k')" "distinct (map fst dis)"
    "\<forall>(n, di)\<in>set dis. usable_if ops links di k' \<and> n \<in> set names \<and> NewDecodedInterface iw n = Inr di"
    by auto
  have "\<forall>(n, di)\<in>set dis. n \<in> set names \<and> NewDecodedInterface iw n = Inr di \<and>
      (\<exists>l\<in>set (links k'). nl_name l = ActualName di \<and> Index ops di k' = (Inr (nl_index l), k'))"
    using c(3) usable_Index [OF assms(1), of _ k'] by blast
  with \<open>dis \<noteq> []\<close> c(1,2) show ?thesis by (simp add: grown_def)
qed

theorem collectInterfaces_usable_witness:
  "\<exists>dis. collectInterfaces ref_links 64 [''nope'', ''eth0''] sample_links = (Inr dis, sample_links) \<and> dis \<noteq> [] \<and>
     (\<forall>(n, di)\<in>set dis. n \<in> set [''nope'', ''eth0''] \<and> NewDecodedInterface 64 n = Inr di)"
proof -
  have "collectInterfaces ref_links 64 [''nope'', ''eth0''] sample_links =
      (Inr [(''eth0'', \<lparr>di_name = ''eth0'', di_vlan = 0\<rparr>)], sample_links)"
    using sample_decode sample_exists
    by (simp add: collectInterfaces_def NewDecodedInterface_def Exists_def ifNameToIndex_def ref_links_def live_def
        sample_links_def find_link_Cons)
  from this collectInterfaces_usable [OF ref_links_kernel this] show ?thesis by blast
qed

text \<open>An interface name without \<open>@\<close> denotes itself, with \<open>@n\<close> the VLAN \<open>n\<close> of the part
  before it, and with \<open>@0\<close> the untagged interface; more than one \<open>@\<close> or no number after it is an
  error. The device of a VLAN has a name of its own.\<close>

theorem NewDecodedInterface_text:
  assumes "CHR ''@'' \<notin> set name" "0 < iw"
  shows "NewDecodedInterface iw name = Inr \<lparr>di_name = name, di_vlan = 0\<rparr> \<and>
     (0 \<le> v \<and> v < 2 ^ (iw - 1) \<longrightarrow>
        NewDecodedInterface iw (name @ ''@'' @ print_int v) = Inr \<lparr>di_name = name, di_vlan = v\<rparr>) \<and>
     (snd (Atoi iw rest) \<noteq> None \<longrightarrow>
        NewDecodedInterface iw (name @ ''@'' @ rest) = Inl (Malformed (name @ ''@'' @ rest))) \<and>
     (CHR ''@'' \<in> set rest \<longrightarrow>
        NewDecodedInterface iw (name @ ''@'' @ rest) = Inl (Malformed (name @ ''@'' @ rest))) \<and>
     ActualName \<lparr>di_name = name, di_vlan = 0\<rparr> = name \<and>
     (v \<noteq> 0 \<longrightarrow> ActualName \<lparr>di_name = name, di_vlan = v\<rparr> \<noteq> name)"
proof -
  have split: "Split CHR ''@'' (name @ ''@'' @ t) = name # Split CHR ''@'' t" for t
    using Split_append_sep [OF assms(1)] by simp
  have num: "CHR ''@'' \<notin> set (print_int v)" if "0 \<le> v"
    using that show_base_free [of 10 "CHR ''@''" "nat v"] by (simp add: print_int_def is_dig_def digval_def Let_def)
  have "length (Split CHR ''@'' rest) \<noteq> 1" if "CHR ''@'' \<in> set rest"
  proof
    assume "length (Split CHR ''@'' rest) = 1"
    then obtain y where y: "Split CHR ''@'' rest = [y]" by (auto simp: length_Suc_conv)
    then have "y = rest" by (metis Join_Split Join.simps(2))
    with y Split_free [of y "CHR ''@''" rest] that show False by simp
  qed
  moreover have "Split CHR ''@'' rest = [rest]" if "CHR ''@'' \<notin> set rest"
    using that by (rule Split_no_sep)
  ultimately have "NewDecodedInterface iw (name @ ''@'' @ rest) = Inl (Malformed (name @ ''@'' @ rest))"
    if "CHR ''@'' \<in> set rest \<or> snd (Atoi iw rest) \<noteq> None"
    using that unfolding NewDecodedInterface_def split Let_def
    by (cases "CHR ''@'' \<in> set rest") (auto split: prod.splits option.splits)
  moreover have "NewDecodedInterface iw (name @ ''@'' @ print_int v) = Inr \<lparr>di_name = name, di_vlan = v\<rparr>"
    if "0 \<le> v" "v < 2 ^ (iw - 1)"
    using Atoi_print_int [OF assms(2) that] Split_no_sep [OF num [OF that(1)]]
    unfolding NewDecodedInterface_def split Let_def by simp
  moreover have "NewDecodedInterface iw name = Inr \<lparr>di_name = name, di_vlan = 0\<rparr>"
    using Split_no_sep [OF assms(1)] by (simp add: NewDecodedInterface_def)
  ultimately show ?thesis by (simp add: ActualName_def)
qed

theorem NewDecodedInterface_text_witness:
  "NewDecodedInterface 64 (''eth0'' @ ''@'' @ print_int 101) = Inr \<lparr>di_name = ''eth0'', di_vlan = 101\<rparr> \<and>
   NewDecodedInterface 64 (''eth0'' @ ''@'' @ ''1@2'') = Inl (Malformed (''eth0'' @ ''@'' @ ''1@2''))"
  using NewDecodedInterface_text [of "''eth0''" 64 101 "''1@2''"] by simp

end
