(* ===== verification/Sock.thy ===== *)
theory Sock
  imports Util Filters
begin

text \<open>
  The sockets of \<open>sock.go\<close> and \<open>bindToDeviceRaw\<close> of \<open>cgo.go\<close>. The kernel is a
  parameter: a record of system calls on its state \<open>'k\<close>. The program shares sockets by pointer
  (the lists given to \<open>epollOnce\<close>, the maps of the proxy), and \<open>epollOnce\<close> marks them
  invalid through the pointer: sockets live in a heap.
\<close>

section \<open>The kernel\<close>

record net_if =
  nif_name :: string
  nif_index :: int
  nif_hw :: bytes

datatype if_addr = AddrIPNet IPNet | AddrOther string

datatype read_result = EAGAIN | ReadError string | ReadData bytes

record epoll_event =
  ev_events :: "32 word"
  ev_fd :: int

text \<open>The socket address of \<open>bind\<close>; the other fields of the C structure are all ones.\<close>

record sockaddr_ll =
  sll_family :: int
  sll_protocol :: int
  sll_ifindex :: int

record 'k sys =
  sys_socket :: "int \<Rightarrow> 'k \<Rightarrow> int option \<times> 'k"
  sys_interface :: "int \<Rightarrow> 'k \<Rightarrow> net_if option"
  sys_addrs :: "net_if \<Rightarrow> 'k \<Rightarrow> if_addr list option"
  sys_bind :: "int \<Rightarrow> sockaddr_ll \<Rightarrow> 'k \<Rightarrow> bool \<times> 'k"
  sys_attach_filter :: "int \<Rightarrow> insn list \<Rightarrow> 'k \<Rightarrow> bool \<times> 'k"
  sys_read :: "int \<Rightarrow> nat \<Rightarrow> 'k \<Rightarrow> read_result \<times> 'k"
  sys_write :: "int \<Rightarrow> bytes \<Rightarrow> 'k \<Rightarrow> bool \<times> 'k"
  sys_close :: "int \<Rightarrow> 'k \<Rightarrow> bool \<times> 'k"
  epoll_create1 :: "'k \<Rightarrow> int option \<times> 'k"
  epoll_ctl_add :: "int \<Rightarrow> int \<Rightarrow> epoll_event \<Rightarrow> 'k \<Rightarrow> bool \<times> 'k"
  epoll_ctl_del :: "int \<Rightarrow> int \<Rightarrow> 'k \<Rightarrow> 'k"
  epoll_wait :: "int \<Rightarrow> nat \<Rightarrow> int \<Rightarrow> 'k \<Rightarrow> epoll_event list option \<times> 'k"

definition AF_PACKET :: int where "AF_PACKET = 17"
definition ETH_P_IPV6 :: int where "ETH_P_IPV6 = 0x86dd"
definition EPOLLIN :: "32 word" where "EPOLLIN = 1"
definition EPOLLERR :: "32 word" where "EPOLLERR = 8"
definition EPOLLHUP :: "32 word" where "EPOLLHUP = 16"

section \<open>Sockets\<close>

record Socket =
  so_fd :: int
  so_netif :: net_if
  so_isValid :: bool

type_synonym sref = nat

record 'k world =
  w_heap :: "sref \<Rightarrow> Socket"
  w_next :: sref
  w_kern :: 'k

datatype sock_error =
    SocketFailed
  | NoInterface int
  | BindFailed int
  | FilterFailed
  | ReadFailed string
  | WriteFailed
  | CloseFailed
  | EpollCreateFailed
  | EpollAddFailed
  | EpollWaitFailed
  | SocketClosed
  | TimedOut
  | Unreachable

definition bindToDeviceRaw :: "'k sys \<Rightarrow> int \<Rightarrow> int \<Rightarrow> 'k \<Rightarrow> bool \<times> 'k" where
  "bindToDeviceRaw sys fd ifindex k =
     sys_bind sys fd
       \<lparr>sll_family = AF_PACKET, sll_protocol = htons ETH_P_IPV6, sll_ifindex = wrap 32 ifindex\<rparr> k"

definition NewSocket :: "'k sys \<Rightarrow> int \<Rightarrow> 'k world \<Rightarrow> (sock_error + sref) \<times> 'k world" where
  "NewSocket sys ifindex w =
     (case sys_socket sys (htons ETH_P_IPV6) (w_kern w) of
        (None, k) \<Rightarrow> (Inl SocketFailed, w\<lparr>w_kern := k\<rparr>)
      | (Some fd, k) \<Rightarrow>
          (case sys_interface sys ifindex k of
             None \<Rightarrow> (Inl (NoInterface ifindex), w\<lparr>w_kern := snd (sys_close sys fd k)\<rparr>)
           | Some netif \<Rightarrow>
               (let (ok, k) = bindToDeviceRaw sys fd ifindex k in
                if \<not> ok then (Inl (BindFailed ifindex), w\<lparr>w_kern := snd (sys_close sys fd k)\<rparr>)
                else (Inr (w_next w),
                  w\<lparr>w_heap := (w_heap w)(w_next w := \<lparr>so_fd = fd, so_netif = netif, so_isValid = True\<rparr>),
                    w_next := Suc (w_next w), w_kern := k\<rparr>))))"

definition ApplyBPF :: "'k sys \<Rightarrow> sref \<Rightarrow> insn list \<Rightarrow> 'k world \<Rightarrow> bool \<times> 'k world" where
  "ApplyBPF sys s is w =
     (let (ok, k) = sys_attach_filter sys (so_fd (w_heap w s)) is (w_kern w) in (ok, w\<lparr>w_kern := k\<rparr>))"

text \<open>\<open>Inr None\<close> is the result \<open>nil, nil\<close>: there is nothing to read.\<close>

definition readImmediate :: "'k sys \<Rightarrow> sref \<Rightarrow> 'k world \<Rightarrow> (sock_error + slice) \<times> 'k world" where
  "readImmediate sys s w =
     (let (r, k) = sys_read sys (so_fd (w_heap w s)) 2048 (w_kern w); w = w\<lparr>w_kern := k\<rparr> in
      case r of
        EAGAIN \<Rightarrow> (Inr None, w)
      | ReadError e \<Rightarrow> (Inl (ReadFailed e), w)
      | ReadData b \<Rightarrow> (Inr (Some b), w))"

definition WriteOnce :: "'k sys \<Rightarrow> sref \<Rightarrow> bytes \<Rightarrow> 'k world \<Rightarrow> sock_error option \<times> 'k world" where
  "WriteOnce sys s packet w =
     (let (ok, k) = sys_write sys (so_fd (w_heap w s)) packet (w_kern w)
      in (if ok then None else Some WriteFailed, w\<lparr>w_kern := k\<rparr>))"

definition onClosed :: "sref \<Rightarrow> 'k world \<Rightarrow> 'k world" where
  "onClosed s w = w\<lparr>w_heap := (w_heap w)(s := (w_heap w s)\<lparr>so_isValid := False\<rparr>)\<rparr>"

definition Close :: "'k sys \<Rightarrow> sref \<Rightarrow> 'k world \<Rightarrow> sock_error option \<times> 'k world" where
  "Close sys s w =
     (if \<not> so_isValid (w_heap w s) then (None, w)
      else let w = onClosed s w; (ok, k) = sys_close sys (so_fd (w_heap w s)) (w_kern w)
           in (if ok then None else Some CloseFailed, w\<lparr>w_kern := k\<rparr>))"

fun link_local :: "if_addr list \<Rightarrow> slice" where
  "link_local [] = None"
| "link_local (AddrIPNet n # as) =
     (if length (bs (net_IP n)) = 16 \<and> IsLinkLocalUnicast (bs (net_IP n)) then net_IP n else link_local as)"
| "link_local (AddrOther t # as) = link_local as"

definition LinkLocal :: "'k sys \<Rightarrow> sref \<Rightarrow> 'k world \<Rightarrow> slice" where
  "LinkLocal sys s w =
     (case sys_addrs sys (so_netif (w_heap w s)) (w_kern w) of None \<Rightarrow> None | Some ips \<Rightarrow> link_local ips)"

text \<open>The loops that drain a socket end when there is nothing to read, or never.\<close>

partial_function (option) FlushAll :: "'k sys \<Rightarrow> sref \<Rightarrow> 'k world \<Rightarrow> 'k world option" where
  "FlushAll sys s w =
     (case readImmediate sys s w of
        (Inr (Some b), w) \<Rightarrow> FlushAll sys s w
      | (_, w) \<Rightarrow> Some w)"

partial_function (option) ClearBuf :: "'k sys \<Rightarrow> sref \<Rightarrow> 'k world \<Rightarrow> (sock_error option \<times> 'k world) option" where
  "ClearBuf sys s w =
     (let (r, k) = sys_read sys (so_fd (w_heap w s)) 2048 (w_kern w); w = w\<lparr>w_kern := k\<rparr> in
      case r of
        EAGAIN \<Rightarrow> Some (None, w)
      | ReadError e \<Rightarrow> Some (Some (ReadFailed e), w)
      | ReadData b \<Rightarrow> ClearBuf sys s w)"

section \<open>Waiting for several sockets\<close>

text \<open>A timeout is in nanoseconds; \<open>nil\<close> waits for ever.\<close>

definition epoll_timeout :: "nat \<Rightarrow> int option \<Rightarrow> int" where
  "epoll_timeout iw timeout =
     (case timeout of None \<Rightarrow> -1 | Some t \<Rightarrow> wrap iw (go_div t 1000000))"

fun epoll_add_all :: "'k sys \<Rightarrow> int \<Rightarrow> sref list \<Rightarrow> 'k world \<Rightarrow> bool \<times> 'k world" where
  "epoll_add_all sys epfd [] w = (True, w)"
| "epoll_add_all sys epfd (s # ss) w =
     (let event = \<lparr>ev_events = EPOLLIN, ev_fd = wrap 32 (so_fd (w_heap w s))\<rparr>;
          (ok, k) = epoll_ctl_add sys epfd (so_fd (w_heap w s)) event (w_kern w);
          w = w\<lparr>w_kern := k\<rparr>
      in if \<not> ok then (False, w) else epoll_add_all sys epfd ss w)"

text \<open>The last socket of the list with the descriptor of an event.\<close>

fun sock_of :: "(sref \<Rightarrow> Socket) \<Rightarrow> sref list \<Rightarrow> int \<Rightarrow> sref option \<Rightarrow> sref option" where
  "sock_of h [] fd sock = sock"
| "sock_of h (s # ss) fd sock = sock_of h ss fd (if so_fd (h s) = fd then Some s else sock)"

text \<open>
  One pass over the events of a round. An error event marks its socket invalid and, while other
  sockets remain, starts another round at once, with the socket to read found so far.
  \<open>remain\<close> counts down to zero in the code's \<open>int\<close> and below it, where the test
  \<open>remainsock > 0\<close> fails as well.
\<close>

datatype 'w scan = Retry nat "sref option" 'w | Done "sref option" 'w

definition ev_failed :: "epoll_event \<Rightarrow> bool" where
  "ev_failed ev \<longleftrightarrow> ev_events ev AND EPOLLERR \<noteq> 0 \<or> ev_events ev AND EPOLLHUP \<noteq> 0"

definition drop_sock :: "'k sys \<Rightarrow> int \<Rightarrow> int \<Rightarrow> sref \<Rightarrow> 'k world \<Rightarrow> 'k world" where
  "drop_sock sys epfd fd sock w = (onClosed sock w)\<lparr>w_kern := epoll_ctl_del sys epfd fd (w_kern w)\<rparr>"

definition pick_sock :: "epoll_event \<Rightarrow> sref \<Rightarrow> sref option \<Rightarrow> sref option" where
  "pick_sock ev sock readSock =
     (if ev_events ev AND EPOLLIN \<noteq> 0 \<and> readSock = None then Some sock else readSock)"

fun epoll_scan ::
  "'k sys \<Rightarrow> int \<Rightarrow> sref list \<Rightarrow> epoll_event list \<Rightarrow> nat \<Rightarrow> sref option \<Rightarrow> 'k world \<Rightarrow> 'k world scan" where
  "epoll_scan sys epfd socks [] remain readSock w = Done readSock w"
| "epoll_scan sys epfd socks (ev # evs) remain readSock w =
     (case sock_of (w_heap w) socks (ev_fd ev) None of
        None \<Rightarrow> epoll_scan sys epfd socks evs remain readSock w
      | Some sock \<Rightarrow>
          if ev_failed ev then
            (if remain - 1 > 0 then Retry (remain - 1) readSock (drop_sock sys epfd (ev_fd ev) sock w)
             else epoll_scan sys epfd socks evs (remain - 1) (pick_sock ev sock readSock)
               (drop_sock sys epfd (ev_fd ev) sock w))
          else epoll_scan sys epfd socks evs remain (pick_sock ev sock readSock) w)"

lemma epoll_scan_Retry: "epoll_scan sys epfd socks evs remain rs w = Retry r rs' w' \<Longrightarrow> 0 < r \<and> r < remain"
  by (induction sys epfd socks evs remain rs w arbitrary: r rule: epoll_scan.induct)
    (fastforce split: option.splits if_splits)+

function epoll_rounds ::
  "'k sys \<Rightarrow> int \<Rightarrow> sref list \<Rightarrow> int \<Rightarrow> nat \<Rightarrow> sref option \<Rightarrow> 'k world \<Rightarrow> (sock_error + sref option) \<times> 'k world" where
  "epoll_rounds sys epfd socks tmo remain readSock w =
     (case epoll_wait sys epfd (length socks) tmo (w_kern w) of
        (None, k) \<Rightarrow> (Inl EpollWaitFailed, w\<lparr>w_kern := k\<rparr>)
      | (Some evs, k) \<Rightarrow>
          (case epoll_scan sys epfd socks evs remain readSock (w\<lparr>w_kern := k\<rparr>) of
             Retry r rs w \<Rightarrow> epoll_rounds sys epfd socks tmo r rs w
           | Done rs w \<Rightarrow> (Inr rs, w)))"
  by pat_completeness auto
termination
  by (relation "measure (\<lambda>(sys, epfd, socks, tmo, remain, rs, w). remain)") (auto dest!: sym [of "Retry _ _ _"] epoll_scan_Retry)

declare epoll_rounds.simps [simp del]

definition epollOnce ::
  "nat \<Rightarrow> 'k sys \<Rightarrow> sref list \<Rightarrow> int option \<Rightarrow> 'k world \<Rightarrow> (sock_error + sref option) \<times> 'k world" where
  "epollOnce iw sys socks timeout w =
     (case epoll_create1 sys (w_kern w) of
        (None, k) \<Rightarrow> (Inl EpollCreateFailed, w\<lparr>w_kern := k\<rparr>)
      | (Some epfd, k) \<Rightarrow>
          (let (ok, w) = epoll_add_all sys epfd socks (w\<lparr>w_kern := k\<rparr>) in
           if \<not> ok then (Inl EpollAddFailed, w)
           else (case epoll_rounds sys epfd socks (epoll_timeout iw timeout) (length socks) None w of
                   (Inl e, w) \<Rightarrow> (Inl e, w)
                 | (Inr rs, w) \<Rightarrow> (Inr rs, w\<lparr>w_kern := snd (sys_close sys epfd (w_kern w))\<rparr>))))"

definition ReadOnce ::
  "nat \<Rightarrow> 'k sys \<Rightarrow> sref \<Rightarrow> int option \<Rightarrow> 'k world \<Rightarrow> (sock_error + slice) \<times> 'k world" where
  "ReadOnce iw sys s timeout w =
     (case epollOnce iw sys [s] timeout w of
        (Inl e, w) \<Rightarrow> (Inl e, w)
      | (Inr s2, w) \<Rightarrow>
          if \<not> so_isValid (w_heap w s) then (Inl SocketClosed, w)
          else if s2 = None then (Inl TimedOut, w)
          else readImmediate sys s w)"

text \<open>
  \<open>ReadOnceChan\<close> runs \<open>ReadOnce\<close> in a goroutine that sends one result on a channel with room for it.
\<close>

record SocketReadResult =
  rr_data :: slice
  rr_err :: "sock_error option"

definition ReadOnceChan ::
  "nat \<Rightarrow> 'k sys \<Rightarrow> sref \<Rightarrow> int option \<Rightarrow> 'k world \<Rightarrow> SocketReadResult \<times> 'k world" where
  "ReadOnceChan iw sys s timeout w =
     (case ReadOnce iw sys s timeout w of
        (Inl e, w) \<Rightarrow> (\<lparr>rr_data = None, rr_err = Some e\<rparr>, w)
      | (Inr b, w) \<Rightarrow> (\<lparr>rr_data = b, rr_err = None\<rparr>, w))"

text \<open>The result of \<open>ReadMultiSocksOnce\<close> as Go returns it: the index, the data, the error.\<close>

fun position :: "sref \<Rightarrow> sref list \<Rightarrow> nat option" where
  "position s [] = None"
| "position s (so # ss) = (if so = s then Some 0 else map_option Suc (position s ss))"

definition ReadMultiSocksOnce ::
  "nat \<Rightarrow> 'k sys \<Rightarrow> sref list \<Rightarrow> int option \<Rightarrow> 'k world \<Rightarrow> (int \<times> slice \<times> sock_error option) \<times> 'k world" where
  "ReadMultiSocksOnce iw sys socks timeout w =
     (case epollOnce iw sys socks timeout w of
        (Inl e, w) \<Rightarrow> ((-1, None, Some e), w)
      | (Inr None, w) \<Rightarrow> ((-1, None, None), w)
      | (Inr (Some s), w) \<Rightarrow>
          (case position s socks of
             None \<Rightarrow> ((-1, None, Some Unreachable), w)
           | Some i \<Rightarrow>
               (case readImmediate sys (socks ! i) w of
                  (Inl e, w) \<Rightarrow> ((int i, None, Some e), w)
                | (Inr d, w) \<Rightarrow> ((int i, d, None), w))))"

end
