(* ===== verification/SockProps.thy ===== *)
theory SockProps
  imports Sock
begin

text \<open>
  What the socket layer guarantees for any kernel: which sockets \<open>epollOnce\<close> can return and what
  it does to them, how often it waits, which descriptors it leaves open, when draining a socket
  ends, and that a hangup of the last socket looks like a timeout to \<open>ReadMultiSocksOnce\<close>.
\<close>

section \<open>The heap\<close>

text \<open>Sockets may become invalid, and nothing else changes about them.\<close>

definition invalidated :: "sref set \<Rightarrow> (sref \<Rightarrow> Socket) \<Rightarrow> (sref \<Rightarrow> Socket) \<Rightarrow> bool" where
  "invalidated S h h' \<longleftrightarrow>
     (\<forall>s. so_fd (h' s) = so_fd (h s) \<and> so_netif (h' s) = so_netif (h s) \<and>
        (so_isValid (h' s) \<longrightarrow> so_isValid (h s)) \<and> (s \<notin> S \<longrightarrow> h' s = h s))"

lemma invalidated_refl [simp]: "invalidated S h h"
  by (simp add: invalidated_def)

lemma invalidated_trans: "invalidated S h h' \<Longrightarrow> invalidated S h' h'' \<Longrightarrow> invalidated S h h''"
  by (auto simp: invalidated_def)

lemma invalidated_onClosed: "s \<in> S \<Longrightarrow> invalidated S (w_heap w) (w_heap (onClosed s w))"
  by (simp add: invalidated_def onClosed_def)

lemma sock_of_mem: "sock_of h socks fd acc = Some s \<Longrightarrow> s \<in> set socks \<and> so_fd (h s) = fd \<or> acc = Some s"
  by (induction socks arbitrary: acc) (fastforce split: if_splits)+

lemma onClosed_kern [simp]: "w_kern (onClosed s w) = w_kern w"
  by (simp add: onClosed_def)

lemma add_all_heap: "epoll_add_all sys epfd ss w = (ok, w') \<Longrightarrow> w_heap w' = w_heap w"
  by (induction sys epfd ss w rule: epoll_add_all.induct) (auto simp: Let_def split: prod.splits if_splits)

fun scan_world :: "'w scan \<Rightarrow> 'w" where
  "scan_world (Retry _ _ w) = w"
| "scan_world (Done _ w) = w"

fun scan_sock :: "'w scan \<Rightarrow> sref option" where
  "scan_sock (Retry _ rs _) = rs"
| "scan_sock (Done rs _) = rs"

lemma scan_ok:
  "set_option rs \<subseteq> set socks \<Longrightarrow>
   invalidated (set socks) (w_heap w) (w_heap (scan_world (epoll_scan sys epfd socks evs remain rs w))) \<and>
   set_option (scan_sock (epoll_scan sys epfd socks evs remain rs w)) \<subseteq> set socks"
proof (induction sys epfd socks evs remain rs w rule: epoll_scan.induct)
  case (1 sys epfd socks remain rs w)
  then show ?case by simp
next
  case (2 sys epfd socks ev evs remain rs w)
  show ?case
  proof (cases "sock_of (w_heap w) socks (ev_fd ev) None")
    case None
    with 2 show ?thesis by simp
  next
    case (Some s)
    then have s: "s \<in> set socks" using sock_of_mem [OF Some] by simp
    have drop: "invalidated (set socks) (w_heap w) (w_heap (drop_sock sys epfd (ev_fd ev) s w))"
      using invalidated_onClosed [OF s, of w] by (simp add: drop_sock_def)
    have pick: "set_option (pick_sock ev s rs) \<subseteq> set socks"
      using s 2(4) by (simp add: pick_sock_def)
    show ?thesis
    proof (cases "ev_failed ev")
      case True
      show ?thesis
      proof (cases "remain - 1 > 0")
        case True
        with Some \<open>ev_failed ev\<close> 2(4) drop show ?thesis by simp
      next
        case False
        from 2(2) [OF Some \<open>ev_failed ev\<close> False pick] drop Some \<open>ev_failed ev\<close> False show ?thesis
          by (auto intro: invalidated_trans)
      qed
    next
      case False
      from 2(3) [OF Some False pick] Some False show ?thesis by simp
    qed
  qed
qed

lemma rounds_ok:
  "set_option rs \<subseteq> set socks \<Longrightarrow> epoll_rounds sys epfd socks tmo remain rs w = (r, w') \<Longrightarrow>
   invalidated (set socks) (w_heap w) (w_heap w') \<and> (\<forall>x. r = Inr x \<longrightarrow> set_option x \<subseteq> set socks)"
proof (induction sys epfd socks tmo remain rs w rule: epoll_rounds.induct)
  case (1 sys epfd socks tmo remain rs w)
  obtain evs k where wait: "epoll_wait sys epfd (length socks) tmo (w_kern w) = (evs, k)" by fastforce
  show ?case
  proof (cases evs)
    case None
    with 1(3) wait show ?thesis by (auto simp: epoll_rounds.simps)
  next
    case (Some es)
    note scan = scan_ok [OF 1(2), of "w\<lparr>w_kern := k\<rparr>" sys epfd es remain]
    show ?thesis
    proof (cases "epoll_scan sys epfd socks es remain rs (w\<lparr>w_kern := k\<rparr>)")
      case (Retry n rs1 w1)
      with 1(3) wait Some have "epoll_rounds sys epfd socks tmo n rs1 w1 = (r, w')"
        by (simp add: epoll_rounds.simps [of sys epfd socks tmo remain])
      with 1(1) [OF wait [symmetric] Some Retry] scan Retry show ?thesis
        by (auto intro: invalidated_trans)
    next
      case (Done rs1 w1)
      with 1(3) wait Some scan show ?thesis
        by (auto simp: epoll_rounds.simps [of sys epfd socks tmo remain])
    qed
  qed
qed

lemma epollOnce_ok:
  assumes "epollOnce iw sys socks timeout w = (r, w')"
  shows "invalidated (set socks) (w_heap w) (w_heap w')" "r = Inr (Some s) \<Longrightarrow> s \<in> set socks"
proof -
  have "invalidated (set socks) (w_heap w) (w_heap w') \<and> (\<forall>x. r = Inr x \<longrightarrow> set_option x \<subseteq> set socks)"
  proof (cases "epoll_create1 sys (w_kern w)")
    case (Pair fd k)
    show ?thesis
    proof (cases fd)
      case None
      with Pair assms show ?thesis by (auto simp: epollOnce_def)
    next
      case (Some epfd)
      obtain ok w1 where add: "epoll_add_all sys epfd socks (w\<lparr>w_kern := k\<rparr>) = (ok, w1)" by fastforce
      have h1: "w_heap w1 = w_heap w" using add_all_heap [OF add] by simp
      obtain r2 w2 where rounds:
        "epoll_rounds sys epfd socks (epoll_timeout iw timeout) (length socks) None w1 = (r2, w2)" by fastforce
      have "invalidated (set socks) (w_heap w1) (w_heap w2) \<and> (\<forall>x. r2 = Inr x \<longrightarrow> set_option x \<subseteq> set socks)"
        by (rule rounds_ok [OF _ rounds]) simp
      with Pair Some add rounds h1 assms show ?thesis
        by (auto simp: epollOnce_def split: if_splits sum.splits)
    qed
  qed
  then show "invalidated (set socks) (w_heap w) (w_heap w')" "r = Inr (Some s) \<Longrightarrow> s \<in> set socks" by auto
qed

section \<open>What the kernel sees\<close>

text \<open>A view of the kernel that adding and removing descriptors does not change is not changed by a scan.\<close>

definition epoll_view :: "'k sys \<Rightarrow> ('k \<Rightarrow> 'a) \<Rightarrow> bool" where
  "epoll_view sys f \<longleftrightarrow>
     (\<forall>epfd fd ev k. f (snd (epoll_ctl_add sys epfd fd ev k)) = f k) \<and>
     (\<forall>epfd fd k. f (epoll_ctl_del sys epfd fd k) = f k)"

lemma view_add_all:
  assumes "epoll_view sys f"
  shows "epoll_add_all sys epfd ss w = (ok, w') \<Longrightarrow> f (w_kern w') = f (w_kern w)"
  using assms
proof (induction sys epfd ss w rule: epoll_add_all.induct)
  case (1 sys epfd w)
  then show ?case by simp
next
  case (2 sys epfd s ss w)
  let ?ev = "\<lparr>ev_events = EPOLLIN, ev_fd = wrap 32 (so_fd (w_heap w s))\<rparr>"
  obtain ok1 k where add: "epoll_ctl_add sys epfd (so_fd (w_heap w s)) ?ev (w_kern w) = (ok1, k)" by fastforce
  have k: "f k = f (w_kern w)" using 2(3) add unfolding epoll_view_def by (metis snd_conv)
  show ?case
  proof (cases ok1)
    case False
    with 2(2) add k show ?thesis by auto
  next
    case True
    with 2(2) add have "epoll_add_all sys epfd ss (w\<lparr>w_kern := k\<rparr>) = (ok, w')" by simp
    from 2(1) [OF refl add [symmetric] refl refl _ this 2(3)] True k show ?thesis by simp
  qed
qed

lemma view_scan:
  assumes "epoll_view sys f"
  shows "f (w_kern (scan_world (epoll_scan sys epfd socks evs remain rs w))) = f (w_kern w)"
  using assms
  by (induction sys epfd socks evs remain rs w rule: epoll_scan.induct)
    (auto simp: drop_sock_def epoll_view_def split: option.splits)

lemma view_rounds:
  assumes "epoll_view sys f" "\<And>epfd n t k. f (snd (epoll_wait sys epfd n t k)) = f k"
  shows "epoll_rounds sys epfd socks tmo remain rs w = (r, w') \<Longrightarrow> f (w_kern w') = f (w_kern w)"
  using assms
proof (induction sys epfd socks tmo remain rs w rule: epoll_rounds.induct)
  case (1 sys epfd socks tmo remain rs w)
  obtain evs k where wait: "epoll_wait sys epfd (length socks) tmo (w_kern w) = (evs, k)" by fastforce
  have k: "f k = f (w_kern w)" using 1(4) [of epfd "length socks" tmo "w_kern w"] wait by simp
  show ?case
  proof (cases evs)
    case None
    with 1(2) wait k show ?thesis by (auto simp: epoll_rounds.simps)
  next
    case (Some es)
    note scan = view_scan [OF 1(3), of epfd socks es remain rs "w\<lparr>w_kern := k\<rparr>"]
    show ?thesis
    proof (cases "epoll_scan sys epfd socks es remain rs (w\<lparr>w_kern := k\<rparr>)")
      case (Retry n rs1 w1)
      with 1(2) wait Some have "epoll_rounds sys epfd socks tmo n rs1 w1 = (r, w')"
        by (simp add: epoll_rounds.simps [of sys epfd socks tmo remain])
      with 1(1) [OF wait [symmetric] Some Retry _ 1(3,4)] scan Retry k show ?thesis by simp
    next
      case (Done rs1 w1)
      with 1(2) wait Some scan k show ?thesis
        by (auto simp: epoll_rounds.simps [of sys epfd socks tmo remain])
    qed
  qed
qed

lemma rounds_waits:
  assumes "epoll_view sys cnt" "\<And>epfd n t k. cnt (snd (epoll_wait sys epfd n t k)) = Suc (cnt k)"
  shows "epoll_rounds sys epfd socks tmo remain rs w = (r, w') \<Longrightarrow> cnt (w_kern w') \<le> cnt (w_kern w) + max 1 remain"
  using assms
proof (induction sys epfd socks tmo remain rs w rule: epoll_rounds.induct)
  case (1 sys epfd socks tmo remain rs w)
  obtain evs k where wait: "epoll_wait sys epfd (length socks) tmo (w_kern w) = (evs, k)" by fastforce
  have k: "cnt k = Suc (cnt (w_kern w))" using 1(4) [of epfd "length socks" tmo "w_kern w"] wait by simp
  show ?case
  proof (cases evs)
    case None
    with 1(2) wait k show ?thesis by (auto simp: epoll_rounds.simps)
  next
    case (Some es)
    note scan = view_scan [OF 1(3), of epfd socks es remain rs "w\<lparr>w_kern := k\<rparr>"]
    show ?thesis
    proof (cases "epoll_scan sys epfd socks es remain rs (w\<lparr>w_kern := k\<rparr>)")
      case (Retry n rs1 w1)
      with 1(2) wait Some have "epoll_rounds sys epfd socks tmo n rs1 w1 = (r, w')"
        by (simp add: epoll_rounds.simps [of sys epfd socks tmo remain])
      with 1(1) [OF wait [symmetric] Some Retry _ 1(3,4)] scan Retry k epoll_scan_Retry [OF Retry]
      show ?thesis by simp
    next
      case (Done rs1 w1)
      with 1(2) wait Some scan k show ?thesis
        by (auto simp: epoll_rounds.simps [of sys epfd socks tmo remain])
    qed
  qed
qed

lemma rounds_error:
  "epoll_rounds sys epfd socks tmo remain rs w = (Inl e, w') \<Longrightarrow> e = EpollWaitFailed"
proof (induction sys epfd socks tmo remain rs w rule: epoll_rounds.induct)
  case (1 sys epfd socks tmo remain rs w)
  from 1(2) show ?case
    by (subst (asm) epoll_rounds.simps) (auto dest: 1(1) [rotated -1] split: prod.splits option.splits scan.splits)
qed

text \<open>The parts of a run of \<open>epollOnce\<close> after the descriptor has been made.\<close>

lemma epollOnce_parts:
  assumes "epollOnce iw sys socks timeout w = (r, w')"
  obtains (no_fd) k where "epoll_create1 sys (w_kern w) = (None, k)" "r = Inl EpollCreateFailed" "w_kern w' = k"
  | (no_add) epfd k w1 where "epoll_create1 sys (w_kern w) = (Some epfd, k)" "r = Inl EpollAddFailed"
      "epoll_add_all sys epfd socks (w\<lparr>w_kern := k\<rparr>) = (False, w1)" "w' = w1"
  | (failed) epfd k w1 e where "epoll_create1 sys (w_kern w) = (Some epfd, k)" "r = Inl e"
      "epoll_add_all sys epfd socks (w\<lparr>w_kern := k\<rparr>) = (True, w1)"
      "epoll_rounds sys epfd socks (epoll_timeout iw timeout) (length socks) None w1 = (Inl e, w')"
  | (ok) epfd k w1 rs w2 where "epoll_create1 sys (w_kern w) = (Some epfd, k)" "r = Inr rs"
      "epoll_add_all sys epfd socks (w\<lparr>w_kern := k\<rparr>) = (True, w1)"
      "epoll_rounds sys epfd socks (epoll_timeout iw timeout) (length socks) None w1 = (Inr rs, w2)"
      "w_kern w' = snd (sys_close sys epfd (w_kern w2))"
  using assms unfolding epollOnce_def
  by (auto split: prod.splits option.splits if_splits sum.splits simp: Let_def)

definition packet_kernel :: "'k sys \<Rightarrow> ('k \<Rightarrow> int \<Rightarrow> bytes list) \<Rightarrow> bool" where
  "packet_kernel sys queue \<longleftrightarrow>
     (\<forall>fd n k. case queue k fd of
        [] \<Rightarrow> fst (sys_read sys fd n k) = EAGAIN \<and> queue (snd (sys_read sys fd n k)) = queue k
      | p # ps \<Rightarrow> fst (sys_read sys fd n k) = ReadData (take n p) \<and>
          queue (snd (sys_read sys fd n k)) = (queue k)(fd := ps))"

section \<open>A reference kernel\<close>

text \<open>
  A kernel with open descriptors, a script of what \<open>epoll_wait\<close> returns, and a queue of packets
  per descriptor; it counts the waits.
\<close>

record ref_kernel =
  rk_fds :: "int set"
  rk_fresh :: int
  rk_waits :: nat
  rk_events :: "epoll_event list list"
  rk_queue :: "int \<Rightarrow> bytes list"

definition ref_sys :: "ref_kernel sys" where
  "ref_sys =
     \<lparr>sys_socket = (\<lambda>proto k. (Some (rk_fresh k), k\<lparr>rk_fds := insert (rk_fresh k) (rk_fds k), rk_fresh := rk_fresh k + 1\<rparr>)),
      sys_interface = (\<lambda>i k. Some \<lparr>nif_name = ''eth0'', nif_index = i, nif_hw = replicate 6 2\<rparr>),
      sys_addrs = (\<lambda>n k. Some []),
      sys_bind = (\<lambda>fd a k. (True, k)),
      sys_attach_filter = (\<lambda>fd is k. (True, k)),
      sys_read = (\<lambda>fd n k. case rk_queue k fd of [] \<Rightarrow> (EAGAIN, k)
        | p # ps \<Rightarrow> (ReadData (take n p), k\<lparr>rk_queue := (rk_queue k)(fd := ps)\<rparr>)),
      sys_write = (\<lambda>fd p k. (True, k)),
      sys_close = (\<lambda>fd k. (True, k\<lparr>rk_fds := rk_fds k - {fd}\<rparr>)),
      epoll_create1 = (\<lambda>k. if rk_fresh k \<in> rk_fds k then (None, k)
        else (Some (rk_fresh k), k\<lparr>rk_fds := insert (rk_fresh k) (rk_fds k), rk_fresh := rk_fresh k + 1\<rparr>)),
      epoll_ctl_add = (\<lambda>epfd fd ev k. (fd \<in> rk_fds k, k)),
      epoll_ctl_del = (\<lambda>epfd fd k. k),
      epoll_wait = (\<lambda>epfd n t k. (case rk_events k of [] \<Rightarrow> Some [] | evs # _ \<Rightarrow> Some (take n evs),
        k\<lparr>rk_waits := Suc (rk_waits k), rk_events := tl (rk_events k)\<rparr>))\<rparr>"

definition ref_world :: "epoll_event list list \<Rightarrow> bytes list \<Rightarrow> ref_kernel world" where
  "ref_world evs ps =
     \<lparr>w_heap = (\<lambda>s. \<lparr>so_fd = 3 + int s, so_netif = \<lparr>nif_name = ''eth0'', nif_index = 2, nif_hw = replicate 6 2\<rparr>,
        so_isValid = True\<rparr>),
      w_next = 2,
      w_kern = \<lparr>rk_fds = {3, 4}, rk_fresh = 5, rk_waits = 0, rk_events = evs, rk_queue = (\<lambda>_. ps)\<rparr>\<rparr>"

lemma ref_views: "epoll_view ref_sys rk_waits" "epoll_view ref_sys rk_fds"
  by (simp_all add: epoll_view_def ref_sys_def)

lemma ref_packets: "packet_kernel ref_sys rk_queue"
  by (simp add: packet_kernel_def ref_sys_def split: list.splits)

section \<open>Properties\<close>

text \<open>C32: \<open>epollOnce\<close> returns after at most as many waits as there are sockets (one, if there are
  none): each repetition follows an error event and leaves one socket less. It only returns sockets
  it was given, and changes nothing about sockets except that those given may become invalid.\<close>

theorem epollOnce_bounded:
  assumes "epoll_view sys waits" "\<And>epfd n t k. waits (snd (epoll_wait sys epfd n t k)) = Suc (waits k)"
    and "\<And>k. waits (snd (epoll_create1 sys k)) = waits k" "\<And>fd k. waits (snd (sys_close sys fd k)) = waits k"
    and "epollOnce iw sys socks timeout w = (r, w')"
  shows "waits (w_kern w') \<le> waits (w_kern w) + max 1 (length socks) \<and>
     invalidated (set socks) (w_heap w) (w_heap w') \<and> (\<forall>s. r = Inr (Some s) \<longrightarrow> s \<in> set socks)"
proof -
  have "waits (w_kern w') \<le> waits (w_kern w) + max 1 (length socks)"
    using assms(5)
  proof (cases rule: epollOnce_parts)
    case (no_fd k)
    then show ?thesis using assms(3) [of "w_kern w"] by simp
  next
    case (no_add epfd k w1)
    then show ?thesis using assms(3) [of "w_kern w"] view_add_all [OF assms(1) no_add(3)] by simp
  next
    case (failed epfd k w1 e)
    then show ?thesis
      using assms(3) [of "w_kern w"] view_add_all [OF assms(1) failed(3)] rounds_waits [OF assms(1,2) failed(4)]
      by simp
  next
    case (ok epfd k w1 rs w2)
    then show ?thesis
      using assms(3) [of "w_kern w"] view_add_all [OF assms(1) ok(3)] rounds_waits [OF assms(1,2) ok(4)] assms(4)
      by simp
  qed
  with epollOnce_ok [OF assms(5)] show ?thesis by blast
qed

text \<open>The witness: the first of two sockets fails in the first round, the second is readable in the next.\<close>

definition two_rounds :: "epoll_event list list" where
  "two_rounds = [[\<lparr>ev_events = EPOLLERR, ev_fd = 3\<rparr>], [\<lparr>ev_events = EPOLLIN, ev_fd = 4\<rparr>]]"

lemma two_rounds_run:
  "fst (epollOnce 64 ref_sys [0, 1] None (ref_world two_rounds [])) = Inr (Some 1)"
  "rk_waits (w_kern (snd (epollOnce 64 ref_sys [0, 1] None (ref_world two_rounds [])))) = 2"
  by (simp_all add: epollOnce_def epoll_rounds.simps ref_sys_def ref_world_def two_rounds_def ev_failed_def
      pick_sock_def drop_sock_def onClosed_def EPOLLERR_def EPOLLIN_def EPOLLHUP_def wrap_def)

theorem epollOnce_bounded_witness:
  "let (r, w') = epollOnce 64 ref_sys [0, 1] None (ref_world two_rounds []) in
   rk_waits (w_kern w') \<le> 0 + max 1 (length [0 :: sref, 1]) \<and> r = Inr (Some 1) \<and> rk_waits (w_kern w') = 2 \<and>
   invalidated (set [0, 1]) (w_heap (ref_world two_rounds [])) (w_heap w')"
proof -
  obtain r w' where e: "epollOnce 64 ref_sys [0, 1] None (ref_world two_rounds []) = (r, w')" by fastforce
  have "rk_waits (w_kern w') \<le> rk_waits (w_kern (ref_world two_rounds [])) + max 1 (length [0 :: sref, 1]) \<and>
      invalidated (set [0, 1]) (w_heap (ref_world two_rounds [])) (w_heap w') \<and>
      (\<forall>s. r = Inr (Some s) \<longrightarrow> s \<in> set [0, 1])"
    by (rule epollOnce_bounded [OF ref_views(1) _ _ _ e]) (simp_all add: ref_sys_def)
  with two_rounds_run e show ?thesis by (simp add: ref_world_def)
qed

text \<open>\<open>epollOnce\<close> closes the descriptor it makes when it succeeds, and leaves it open on every
  error after it has been made.\<close>

theorem epollOnce_descriptors:
  assumes "epoll_view sys fds" "\<And>epfd n t k. fds (snd (epoll_wait sys epfd n t k)) = fds k"
    and "\<And>k. fds (snd (epoll_create1 sys k)) =
      (case fst (epoll_create1 sys k) of None \<Rightarrow> fds k | Some fd \<Rightarrow> insert fd (fds k))"
    and "\<And>k fd. fst (epoll_create1 sys k) = Some fd \<Longrightarrow> fd \<notin> fds k"
    and "\<And>fd k. fds (snd (sys_close sys fd k)) = fds k - {fd}"
    and "epollOnce iw sys socks timeout w = (r, w')"
  shows "if isl r \<and> r \<noteq> Inl EpollCreateFailed
     then \<exists>epfd. epfd \<notin> fds (w_kern w) \<and> fds (w_kern w') = insert epfd (fds (w_kern w))
     else fds (w_kern w') = fds (w_kern w)"
  using assms(6)
proof (cases rule: epollOnce_parts)
  case (no_fd k)
  then show ?thesis using assms(3) [of "w_kern w"] by simp
next
  case (no_add epfd k w1)
  then show ?thesis
    using assms(3,4) [of "w_kern w"] view_add_all [OF assms(1) no_add(3)] by auto
next
  case (failed epfd k w1 e)
  moreover have "e = EpollWaitFailed"
    by (rule rounds_error [OF failed(4)])
  ultimately show ?thesis
    using assms(3,4) [of "w_kern w"] view_add_all [OF assms(1) failed(3)] view_rounds [OF assms(1,2) failed(4)]
    by auto
next
  case (ok epfd k w1 rs w2)
  then show ?thesis
    using assms(3,4) [of "w_kern w"] view_add_all [OF assms(1) ok(3)] view_rounds [OF assms(1,2) ok(4)] assms(5)
    by auto
qed

theorem epollOnce_descriptors_witness:
  "\<exists>epfd. epfd \<notin> {3, 4 :: int} \<and>
     rk_fds (w_kern (snd (epollOnce 64 ref_sys [7] None (ref_world [] [])))) = insert epfd {3, 4}"
proof -
  obtain r w' where e: "epollOnce 64 ref_sys [7] None (ref_world [] []) = (r, w')" by fastforce
  then have r: "r = Inl EpollAddFailed"
    by (simp add: epollOnce_def ref_sys_def ref_world_def wrap_def)
  have "if isl r \<and> r \<noteq> Inl EpollCreateFailed
     then \<exists>epfd. epfd \<notin> rk_fds (w_kern (ref_world [] [])) \<and>
       rk_fds (w_kern w') = insert epfd (rk_fds (w_kern (ref_world [] [])))
     else rk_fds (w_kern w') = rk_fds (w_kern (ref_world [] []))"
    by (rule epollOnce_descriptors [OF ref_views(2) _ _ _ _ e])
      (auto simp: ref_sys_def split: if_splits)
  with e r show ?thesis by (simp add: ref_world_def)
qed

lemma position_mem: "s \<in> set socks \<Longrightarrow> \<exists>i. position s socks = Some i \<and> i < length socks \<and> socks ! i = s"
  by (induction socks) auto

text \<open>\<open>ReadMultiSocksOnce\<close> returns the index of a socket of the list whenever it returns data or
  a read error, and -1 otherwise; the code after its loop is not reached.\<close>

theorem ReadMultiSocksOnce_index:
  assumes "ReadMultiSocksOnce iw sys socks timeout w = ((i, d, e), w')"
  shows "(i = -1 \<and> d = None \<or> 0 \<le> i \<and> i < int (length socks)) \<and>
     (d \<noteq> None \<longrightarrow> 0 \<le> i \<and> e = None) \<and> e \<noteq> Some Unreachable"
proof -
  obtain r w1 where e: "epollOnce iw sys socks timeout w = (r, w1)" by fastforce
  note ok = epollOnce_ok [OF e]
  have r: "r \<noteq> Inl Unreachable"
    using e by (cases rule: epollOnce_parts) (auto dest: rounds_error)
  show ?thesis
  proof (cases r)
    case (Inl x)
    with assms e r show ?thesis by (auto simp: ReadMultiSocksOnce_def)
  next
    case (Inr rs)
    show ?thesis
    proof (cases rs)
      case None
      with assms e Inr show ?thesis by (auto simp: ReadMultiSocksOnce_def)
    next
      case (Some s)
      with ok(2) Inr obtain j where j: "position s socks = Some j" "j < length socks"
        using position_mem by blast
      moreover have "fst (readImmediate sys x w1) \<noteq> Inl Unreachable" for x
        by (auto simp: readImmediate_def Let_def split: prod.splits read_result.splits)
      ultimately show ?thesis
        using assms e Inr Some
        by (auto simp: ReadMultiSocksOnce_def split: prod.splits sum.splits) (metis fst_conv)
    qed
  qed
qed

theorem ReadMultiSocksOnce_index_witness:
  "\<exists>w'. ReadMultiSocksOnce 64 ref_sys [0, 1] None (ref_world two_rounds [[9]]) = ((1, Some [9], None), w') \<and>
     (0 :: int) \<le> 1 \<and> 1 < int (length [0 :: sref, 1])"
proof -
  have "\<exists>w'. ReadMultiSocksOnce 64 ref_sys [0, 1] None (ref_world two_rounds [[9]]) = ((1, Some [9], None), w')"
    by (simp add: ReadMultiSocksOnce_def epollOnce_def epoll_rounds.simps ref_sys_def ref_world_def two_rounds_def
        ev_failed_def pick_sock_def drop_sock_def onClosed_def EPOLLERR_def EPOLLIN_def EPOLLHUP_def wrap_def
        readImmediate_def)
  then obtain w' where "ReadMultiSocksOnce 64 ref_sys [0, 1] None (ref_world two_rounds [[9]]) = ((1, Some [9], None), w')"
    by blast
  from this ReadMultiSocksOnce_index [OF this] show ?thesis by auto
qed

lemma hangup_timeout:
  assumes "epoll_create1 sys (w_kern w) = (Some epfd, k1)"
    and "epoll_ctl_add sys epfd (so_fd (w_heap w s)) \<lparr>ev_events = EPOLLIN, ev_fd = wrap 32 (so_fd (w_heap w s))\<rparr> k1 = (True, k2)"
    and "epoll_wait sys epfd 1 (-1) k2 = (Some [\<lparr>ev_events = EPOLLHUP, ev_fd = so_fd (w_heap w s)\<rparr>], k3)"
  shows "fst (ReadMultiSocksOnce iw sys [s] None w) = (-1, None, None) \<and>
     \<not> so_isValid (w_heap (snd (ReadMultiSocksOnce iw sys [s] None w)) s)"
proof -
  have "ev_failed \<lparr>ev_events = EPOLLHUP, ev_fd = fd\<rparr>" "\<not> EPOLLHUP AND EPOLLIN \<noteq> 0" for fd
    by (simp_all add: ev_failed_def EPOLLHUP_def EPOLLIN_def)
  then show ?thesis
    using assms
    by (simp add: ReadMultiSocksOnce_def epollOnce_def epoll_rounds.simps epoll_timeout_def pick_sock_def
        drop_sock_def onClosed_def)
qed

text \<open>When the only socket hangs up while \<open>ReadMultiSocksOnce\<close> waits for it without a timeout,
  the result is -1 and no error, as if a timeout had passed.\<close>

theorem hangup_is_timeout:
  assumes "epoll_create1 sys (w_kern w) = (Some epfd, k1)"
    and "epoll_ctl_add sys epfd (so_fd (w_heap w s)) \<lparr>ev_events = EPOLLIN, ev_fd = wrap 32 (so_fd (w_heap w s))\<rparr> k1 = (True, k2)"
    and "epoll_wait sys epfd 1 (-1) k2 = (Some [\<lparr>ev_events = EPOLLHUP, ev_fd = so_fd (w_heap w s)\<rparr>], k3)"
  shows "fst (ReadMultiSocksOnce iw sys [s] None w) = (-1, None, None) \<and>
     \<not> so_isValid (w_heap (snd (ReadMultiSocksOnce iw sys [s] None w)) s)"
  using assms by (rule hangup_timeout)

theorem hangup_is_timeout_witness:
  "fst (ReadMultiSocksOnce 64 ref_sys [0] None (ref_world [[\<lparr>ev_events = EPOLLHUP, ev_fd = 3\<rparr>]] [])) = (-1, None, None)"
proof -
  let ?w = "ref_world [[\<lparr>ev_events = EPOLLHUP, ev_fd = 3\<rparr>]] []"
  let ?k1 = "(w_kern ?w)\<lparr>rk_fds := {5, 3, 4}, rk_fresh := 6\<rparr>"
  have "epoll_create1 ref_sys (w_kern ?w) = (Some 5, ?k1)"
    "epoll_ctl_add ref_sys 5 (so_fd (w_heap ?w 0)) \<lparr>ev_events = EPOLLIN, ev_fd = wrap 32 (so_fd (w_heap ?w 0))\<rparr> ?k1 = (True, ?k1)"
    "epoll_wait ref_sys 5 1 (-1) ?k1 = (Some [\<lparr>ev_events = EPOLLHUP, ev_fd = so_fd (w_heap ?w 0)\<rparr>],
       ?k1\<lparr>rk_waits := 1, rk_events := []\<rparr>)"
    by (simp_all add: ref_sys_def ref_world_def wrap_def)
  from hangup_is_timeout [OF this] show ?thesis by blast
qed

lemma FlushAll_queue:
  assumes "packet_kernel sys queue"
  shows "\<exists>w'. FlushAll sys s w = Some w' \<and> w_heap w' = w_heap w \<and>
     queue (w_kern w') = (queue (w_kern w))(so_fd (w_heap w s) := [])"
proof (induction "queue (w_kern w) (so_fd (w_heap w s))" arbitrary: w)
  case Nil
  let ?fd = "so_fd (w_heap w s)"
  obtain r k where r: "sys_read sys ?fd 2048 (w_kern w) = (r, k)" by fastforce
  have "r = EAGAIN" "queue k = queue (w_kern w)"
    using assms [unfolded packet_kernel_def, rule_format, of ?fd 2048 "w_kern w"] r Nil by auto
  with r Nil show ?case
    by (simp add: FlushAll.simps [of sys s w] readImmediate_def fun_eq_iff)
next
  case (Cons p ps)
  let ?fd = "so_fd (w_heap w s)"
  obtain r k where r: "sys_read sys ?fd 2048 (w_kern w) = (r, k)" by fastforce
  have q: "r = ReadData (take 2048 p)" "queue k = (queue (w_kern w))(?fd := ps)"
    using assms [unfolded packet_kernel_def, rule_format, of ?fd 2048 "w_kern w"] r Cons(2) [symmetric] by auto
  with Cons(1) [of "w\<lparr>w_kern := k\<rparr>"] r show ?case
    by (simp add: FlushAll.simps [of sys s w] readImmediate_def)
qed

text \<open>On a kernel that keeps a queue of packets per descriptor, \<open>FlushAll\<close> returns and leaves the
  queue of the socket empty and those of other descriptors as they were.\<close>

theorem FlushAll_drains:
  assumes "packet_kernel sys queue"
  shows "\<exists>w'. FlushAll sys s w = Some w' \<and> w_heap w' = w_heap w \<and>
     queue (w_kern w') = (queue (w_kern w))(so_fd (w_heap w s) := [])"
  using assms by (rule FlushAll_queue)

theorem FlushAll_drains_witness:
  "\<exists>w'. FlushAll ref_sys 1 (ref_world [] [[1], [2, 3]]) = Some w' \<and> w_heap w' = w_heap (ref_world [] [[1], [2, 3]]) \<and>
     rk_queue (w_kern w') = (rk_queue (w_kern (ref_world [] [[1], [2, 3]])))(4 := [])"
  using FlushAll_drains [OF ref_packets, of 1 "ref_world [] [[1], [2, 3]]"] by (simp add: ref_world_def)

text \<open>A timeout of \<open>ms\<close> milliseconds, as the configuration stores it in nanoseconds, is passed to
  the kernel as \<open>ms\<close> if it fits an \<open>int\<close> of the platform, and no timeout as -1.\<close>

theorem epoll_timeout_exact:
  assumes "iw = 32 \<or> iw = 64" "- (2 ^ (iw - 1)) \<le> ms" "ms < 2 ^ (iw - 1)"
  shows "epoll_timeout iw (Some (1000000 * ms)) = ms \<and> epoll_timeout iw None = -1"
  using assms go_div_mult_cancel [of 1000000 ms] wrap_id [of iw ms] by (auto simp: epoll_timeout_def)

theorem epoll_timeout_exact_witness:
  "epoll_timeout 32 (Some (1000000 * 5000)) = 5000 \<and> epoll_timeout 32 None = -1"
  by (rule epoll_timeout_exact) simp_all

end
