(* ===== verification/Packet.thy ===== *)
theory Packet
  imports Filters
begin

text \<open>
  \<open>packet.go\<close>: building and parsing ICMPv6 packets. The encoding itself is the work of the
  package gopacket, which is a parameter: a pair of functions on the layers the program fills in and
  reads. Fields of these layers that the program does not touch are left out.
\<close>

section \<open>Layers\<close>

record Ethernet =
  eth_SrcMAC :: slice
  eth_DstMAC :: slice
  eth_EthernetType :: "16 word"

record IPv6 =
  ip6_Version :: "8 word"
  ip6_TrafficClass :: "8 word"
  ip6_FlowLabel :: "32 word"
  ip6_NextHeader :: "8 word"
  ip6_HopLimit :: "8 word"
  ip6_SrcIP :: slice
  ip6_DstIP :: slice

record ICMPv6 =
  icmp_TypeCode :: "16 word"

text \<open>
  An option holds a slice of the packet: what lies beyond it in the packet's buffer can be reached by
  slicing up to its capacity.
\<close>

record ICMPv6Option =
  opt_Type :: byte
  opt_Data :: slice
  opt_spare :: bytes

record RouterSolicitation =
  rs_Options :: "ICMPv6Option list"

record RouterAdvertisement =
  ra_Options :: "ICMPv6Option list"

record NeighborSolicitation =
  ns_TargetAddress :: slice
  ns_Options :: "ICMPv6Option list"

record NeighborAdvertisement =
  na_Flags :: byte
  na_TargetAddress :: slice
  na_Options :: "ICMPv6Option list"

definition new_option :: "byte \<Rightarrow> slice \<Rightarrow> ICMPv6Option" where
  "new_option t d = \<lparr>opt_Type = t, opt_Data = d, opt_spare = []\<rparr>"

section \<open>Building and parsing\<close>

record 'l ICMPv6Data =
  d_SrcMAC :: slice
  d_DstMAC :: slice
  d_SrcIP :: slice
  d_DstIP :: slice
  d_Type :: "16 word"
  d_Layer :: 'l

text \<open>
  gopacket: \<open>SerializeLayers\<close> returns whether it failed, and leaves what it has written so far in
  the buffer; \<open>DecodeLayers\<close> fills the layers or fails.
\<close>

record 'l codec =
  SerializeLayers :: "Ethernet \<Rightarrow> IPv6 \<Rightarrow> ICMPv6 \<Rightarrow> 'l \<Rightarrow> bool \<times> bytes"
  DecodeLayers :: "bytes \<Rightarrow> (Ethernet \<times> IPv6 \<times> ICMPv6 \<times> 'l) option"

definition eth_header :: "'l ICMPv6Data \<Rightarrow> Ethernet" where
  "eth_header data =
     \<lparr>eth_SrcMAC = d_SrcMAC data, eth_DstMAC = d_DstMAC data, eth_EthernetType = 0x86dd\<rparr>"

definition ip6_header :: "'l ICMPv6Data \<Rightarrow> IPv6" where
  "ip6_header data =
     \<lparr>ip6_Version = 6, ip6_TrafficClass = 0xb8, ip6_FlowLabel = 0, ip6_NextHeader = 0x3a,
      ip6_HopLimit = 255, ip6_SrcIP = d_SrcIP data, ip6_DstIP = d_DstIP data\<rparr>"

definition icmp_header :: "'l ICMPv6Data \<Rightarrow> ICMPv6" where
  "icmp_header data = \<lparr>icmp_TypeCode = push_bit 8 (d_Type data)\<rparr>"

definition makeICMPv6 :: "'l codec \<Rightarrow> 'l ICMPv6Data \<Rightarrow> bytes" where
  "makeICMPv6 codec data =
     snd (SerializeLayers codec (eth_header data) (ip6_header data) (icmp_header data) (d_Layer data))"

definition parseICMPv6 :: "'l codec \<Rightarrow> bytes \<Rightarrow> 'l ICMPv6Data option" where
  "parseICMPv6 codec packet =
     (case DecodeLayers codec packet of
        None \<Rightarrow> None
      | Some (eth, ip6, icmp6, layer) \<Rightarrow>
          Some \<lparr>d_SrcMAC = eth_SrcMAC eth, d_DstMAC = eth_DstMAC eth, d_SrcIP = ip6_SrcIP ip6,
            d_DstIP = ip6_DstIP ip6, d_Type = drop_bit 8 (icmp_TypeCode icmp6), d_Layer = layer\<rparr>)"

definition allRouterMAC :: bytes where
  "allRouterMAC = [0x33, 0x33, 0x00, 0x00, 0x00, 0x02]"

definition allRouterIP :: bytes where
  "allRouterIP = [0xFF, 0x02, 0x00, 0x00, 0x00, 0x00, 0x00, 0x00,
     0x00, 0x00, 0x00, 0x00, 0x00, 0x00, 0x00, 0x02]"

definition unspecifiedIP :: bytes where
  "unspecifiedIP = [0x00, 0x00, 0x00, 0x00, 0x00, 0x00, 0x00, 0x00,
     0x00, 0x00, 0x00, 0x00, 0x00, 0x00, 0x00, 0x00]"

definition makeRouterSolicitation :: "RouterSolicitation codec \<Rightarrow> slice \<Rightarrow> slice \<Rightarrow> bytes" where
  "makeRouterSolicitation codec addr lladdr =
     makeICMPv6 codec
       \<lparr>d_SrcMAC = lladdr, d_DstMAC = Some allRouterMAC, d_SrcIP = addr, d_DstIP = Some allRouterIP,
        d_Type = 133, d_Layer = \<lparr>rs_Options = [new_option 1 lladdr]\<rparr>\<rparr>"

section \<open>The documented codec\<close>

text \<open>
  A decoder is made for one type of last layers, and it finds the next layer by the fields that say what
  follows: it gets from the Ethernet header to the IPv6 header by the Ethernet type 0x86dd, from there
  to the ICMPv6 header by the next header 58, and from there to the last layer by the type of
  message, \<open>ty\<close>. With headers that say so, hardware addresses of six bytes, IP addresses of sixteen,
  version 6 and no flow label, serialising does not fail, decoding the packet gives the layers back,
  and the packet has the standard form of Ethernet and IPv6 headers without extensions. Nothing is
  known of packets whose headers announce other layers.
\<close>

definition eth_ok :: "Ethernet \<Rightarrow> bool" where
  "eth_ok e \<longleftrightarrow> (\<exists>s d. eth_SrcMAC e = Some s \<and> eth_DstMAC e = Some d \<and> length s = 6 \<and> length d = 6)"

definition ip6_ok :: "IPv6 \<Rightarrow> bool" where
  "ip6_ok i \<longleftrightarrow> ip6_Version i = 6 \<and> ip6_FlowLabel i = 0 \<and> (\<exists>s d. ip6_SrcIP i = Some s \<and> ip6_DstIP i = Some d \<and> length s = 16 \<and> length d = 16)"

definition word_bytes :: "16 word \<Rightarrow> bytes" where
  "word_bytes w = [ucast (drop_bit 8 w), ucast w]"

definition announces :: "byte \<Rightarrow> Ethernet \<Rightarrow> IPv6 \<Rightarrow> ICMPv6 \<Rightarrow> bool" where
  "announces ty e i c \<longleftrightarrow>
     eth_EthernetType e = 0x86dd \<and> ip6_NextHeader i = 58 \<and> ucast (drop_bit 8 (icmp_TypeCode c)) = ty"

definition standard_codec :: "'l codec \<Rightarrow> byte \<Rightarrow> ('l \<Rightarrow> bool) \<Rightarrow> bool" where
  "standard_codec codec ty layer_ok \<longleftrightarrow>
     (\<forall>e i c l. eth_ok e \<and> ip6_ok i \<and> announces ty e i c \<and> layer_ok l \<longrightarrow>
        (\<exists>pkt hd tl. SerializeLayers codec e i c l = (False, pkt) \<and>
           DecodeLayers codec pkt = Some (e, i, c, l) \<and>
           length hd = 39 \<and>
           pkt = the (eth_DstMAC e) @ the (eth_SrcMAC e) @ word_bytes (eth_EthernetType e) @ take 6 hd @
             [ip6_NextHeader i] @ drop 6 hd @ [ucast (drop_bit 8 (icmp_TypeCode c))] @ tl))"

definition data_ok :: "'l ICMPv6Data \<Rightarrow> bool" where
  "data_ok data \<longleftrightarrow> eth_ok (eth_header data) \<and> ip6_ok (ip6_header data)"

lemma data_ok_iff:
  "data_ok data \<longleftrightarrow>
     (\<exists>sm dm si di. d_SrcMAC data = Some sm \<and> d_DstMAC data = Some dm \<and> d_SrcIP data = Some si \<and>
        d_DstIP data = Some di \<and> length sm = 6 \<and> length dm = 6 \<and> length si = 16 \<and> length di = 16)"
  by (auto simp: data_ok_def eth_ok_def ip6_ok_def eth_header_def ip6_header_def)

lemma type_code: "drop_bit 8 (push_bit 8 w) = take_bit 8 (w :: 16 word)"
  by (rule bit_word_eqI) (auto simp: bit_simps dest: bit_imp_le_length)

lemma type_byte: "ucast (drop_bit 8 (push_bit 8 w)) = (ucast (w :: 16 word) :: byte)"
  by (rule bit_word_eqI) (auto simp: bit_simps)

lemma announces_built: "announces (ucast (d_Type data)) (eth_header data) (ip6_header data) (icmp_header data)"
  by (simp add: announces_def eth_header_def ip6_header_def icmp_header_def type_byte)

lemma make_frame:
  assumes "standard_codec codec (ucast (d_Type data)) layer_ok" "data_ok data" "layer_ok (d_Layer data)"
  shows "DecodeLayers codec (makeICMPv6 codec data) =
      Some (eth_header data, ip6_header data, icmp_header data, d_Layer data)"
    "icmpv6_frame (makeICMPv6 codec data) (ucast (ucast (d_Type data) :: byte))"
    "take 6 (makeICMPv6 codec data) = bs (d_DstMAC data)"
proof -
  obtain pkt hd tl where pkt: "SerializeLayers codec (eth_header data) (ip6_header data) (icmp_header data) (d_Layer data) = (False, pkt)"
      "DecodeLayers codec pkt = Some (eth_header data, ip6_header data, icmp_header data, d_Layer data)"
      "length hd = 39"
      "pkt = the (eth_DstMAC (eth_header data)) @ the (eth_SrcMAC (eth_header data)) @
         word_bytes (eth_EthernetType (eth_header data)) @ take 6 hd @ [ip6_NextHeader (ip6_header data)] @ drop 6 hd @
         [ucast (drop_bit 8 (icmp_TypeCode (icmp_header data)))] @ tl"
    using assms announces_built [of data] unfolding standard_codec_def data_ok_def by meson
  note headers = eth_header_def ip6_header_def icmp_header_def type_byte
  have make: "makeICMPv6 codec data = pkt" using pkt(1) by (simp add: makeICMPv6_def)
  obtain sm dm where mac: "d_SrcMAC data = Some sm" "d_DstMAC data = Some dm" "length sm = 6" "length dm = 6"
    using assms(2) by (auto simp: data_ok_iff)
  show "DecodeLayers codec (makeICMPv6 codec data) =
      Some (eth_header data, ip6_header data, icmp_header data, d_Layer data)"
    by (simp add: make pkt(2))
  show "take 6 (makeICMPv6 codec data) = bs (d_DstMAC data)"
    by (simp add: make pkt(4) mac headers)
  have "word_bytes 0x86dd = [0x86, 0xdd]" by code_simp
  then have "take 2 (drop 12 pkt) = [0x86, 0xdd]" "pkt ! 20 = 0x3a" "pkt ! 54 = ucast (d_Type data)" "54 < length pkt"
    using pkt(3) by (simp_all add: pkt(4) mac nth_append headers)
  then show "icmpv6_frame (makeICMPv6 codec data) (ucast (ucast (d_Type data) :: byte))"
    by (simp add: make icmpv6_frame_def)
qed

lemma parse_built:
  assumes "standard_codec codec (ucast (d_Type data)) layer_ok" "data_ok data" "layer_ok (d_Layer data)"
  shows "parseICMPv6 codec (makeICMPv6 codec data) = Some (data\<lparr>d_Type := take_bit 8 (d_Type data)\<rparr>)"
  using make_frame(1) [OF assms]
  by (simp add: parseICMPv6_def eth_header_def ip6_header_def icmp_header_def type_code)

section \<open>A reference codec\<close>

text \<open>
  A codec for layers that are byte strings and messages of type \<open>ty\<close>, which keeps the places of the
  fields that filters look at but not those of the others. It refuses packets that announce other layers.
\<close>

definition ref_encode :: "Ethernet \<Rightarrow> IPv6 \<Rightarrow> ICMPv6 \<Rightarrow> bytes \<Rightarrow> bytes" where
  "ref_encode e i c l =
     bs (eth_DstMAC e) @ bs (eth_SrcMAC e) @ word_bytes (eth_EthernetType e) @
     [0x60, ip6_TrafficClass i, 0, 0, 0, 0, ip6_NextHeader i, ip6_HopLimit i] @
     bs (ip6_SrcIP i) @ bs (ip6_DstIP i) @ word_bytes (icmp_TypeCode c) @ l"

definition bytes_word :: "bytes \<Rightarrow> 16 word" where
  "bytes_word b = push_bit 8 (ucast (b ! 0)) OR ucast (b ! 1)"

definition ref_decode :: "byte \<Rightarrow> bytes \<Rightarrow> (Ethernet \<times> IPv6 \<times> ICMPv6 \<times> bytes) option" where
  "ref_decode ty p =
     (if length p < 56 \<or> bytes_word (take 2 (drop 12 p)) \<noteq> 0x86dd \<or> p ! 20 \<noteq> 58 \<or> p ! 54 \<noteq> ty then None
      else Some
        (\<lparr>eth_SrcMAC = Some (take 6 (drop 6 p)), eth_DstMAC = Some (take 6 p), eth_EthernetType = bytes_word (take 2 (drop 12 p))\<rparr>,
         \<lparr>ip6_Version = 6, ip6_TrafficClass = p ! 15, ip6_FlowLabel = 0, ip6_NextHeader = p ! 20,
          ip6_HopLimit = p ! 21, ip6_SrcIP = Some (take 16 (drop 22 p)), ip6_DstIP = Some (take 16 (drop 38 p))\<rparr>,
         \<lparr>icmp_TypeCode = bytes_word (take 2 (drop 54 p))\<rparr>, drop 56 p))"

definition ref_codec :: "byte \<Rightarrow> bytes codec" where
  "ref_codec ty = \<lparr>SerializeLayers = (\<lambda>e i c l. (False, ref_encode e i c l)), DecodeLayers = ref_decode ty\<rparr>"

lemma bytes_word_word_bytes: "bytes_word (word_bytes w) = w"
  unfolding bytes_word_def word_bytes_def
  by (rule bit_word_eqI) (auto simp: bit_simps dest: bit_imp_le_length)

lemma length_word_bytes [simp]: "length (word_bytes w) = 2"
  by (simp add: word_bytes_def)

lemma ref_codec_standard: "standard_codec (ref_codec ty) ty (\<lambda>_. True)"
  unfolding standard_codec_def
proof (intro allI impI)
  fix e :: Ethernet and i :: IPv6 and c :: ICMPv6 and l :: bytes
  assume ok: "eth_ok e \<and> ip6_ok i \<and> announces ty e i c \<and> True"
  then obtain sm dm si di where f: "eth_SrcMAC e = Some sm" "eth_DstMAC e = Some dm" "length sm = 6" "length dm = 6"
      "ip6_SrcIP i = Some si" "ip6_DstIP i = Some di" "length si = 16" "length di = 16"
      "ip6_Version i = 6" "ip6_FlowLabel i = 0"
    by (auto simp: eth_ok_def ip6_ok_def)
  have next_layers: "eth_EthernetType e = 0x86dd" "ip6_NextHeader i = 58" "ucast (drop_bit 8 (icmp_TypeCode c)) = ty"
    using ok by (simp_all add: announces_def)
  let ?hd = "[0x60, ip6_TrafficClass i, 0, 0, 0, 0, ip6_HopLimit i] @ si @ di"
  let ?tl = "ucast (icmp_TypeCode c) # l"
  have "ref_encode e i c l = the (eth_DstMAC e) @ the (eth_SrcMAC e) @ word_bytes (eth_EthernetType e) @ take 6 ?hd @
      [ip6_NextHeader i] @ drop 6 ?hd @ [ucast (drop_bit 8 (icmp_TypeCode c))] @ ?tl"
    by (simp add: ref_encode_def f word_bytes_def)
  moreover have "ref_encode e i c l ! 54 = ty"
    using f next_layers(3) by (simp add: ref_encode_def nth_append word_bytes_def)
  then have "ref_decode ty (ref_encode e i c l) = Some (e, i, c, l)"
    using f next_layers(1,2) by (cases e; cases i; cases c)
      (simp add: ref_decode_def ref_encode_def nth_append bytes_word_word_bytes)
  moreover have "length ?hd = 39" using f by simp
  ultimately show "\<exists>pkt hd tl. SerializeLayers (ref_codec ty) e i c l = (False, pkt) \<and>
      DecodeLayers (ref_codec ty) pkt = Some (e, i, c, l) \<and> length hd = 39 \<and>
      pkt = the (eth_DstMAC e) @ the (eth_SrcMAC e) @ word_bytes (eth_EthernetType e) @ take 6 hd @
        [ip6_NextHeader i] @ drop 6 hd @ [ucast (drop_bit 8 (icmp_TypeCode c))] @ tl"
    by (intro exI [where x = "ref_encode e i c l"] exI [where x = ?hd] exI [where x = ?tl])
      (simp only: ref_codec_def codec.simps simp_thms)
qed

text \<open>The same for a type of layers that has an encoding as byte strings.\<close>

definition layer_codec :: "byte \<Rightarrow> ('l \<Rightarrow> bytes) \<Rightarrow> (bytes \<Rightarrow> 'l) \<Rightarrow> 'l codec" where
  "layer_codec ty enc dec =
     \<lparr>SerializeLayers = (\<lambda>e i c l. (False, ref_encode e i c (enc l))),
      DecodeLayers = (\<lambda>p. map_option (\<lambda>(e, i, c, b). (e, i, c, dec b)) (ref_decode ty p))\<rparr>"

lemma layer_codec_standard: "standard_codec (layer_codec ty enc dec) ty (\<lambda>l. dec (enc l) = l)"
  unfolding standard_codec_def
proof (intro allI impI)
  fix e i c l
  assume ok: "eth_ok e \<and> ip6_ok i \<and> announces ty e i c \<and> dec (enc l) = l"
  then have "eth_ok e \<and> ip6_ok i \<and> announces ty e i c \<and> True" by simp
  with ref_codec_standard obtain pkt hd tl where "SerializeLayers (ref_codec ty) e i c (enc l) = (False, pkt)"
      "DecodeLayers (ref_codec ty) pkt = Some (e, i, c, enc l)" "length hd = 39"
      "pkt = the (eth_DstMAC e) @ the (eth_SrcMAC e) @ word_bytes (eth_EthernetType e) @ take 6 hd @
         [ip6_NextHeader i] @ drop 6 hd @ [ucast (drop_bit 8 (icmp_TypeCode c))] @ tl"
    unfolding standard_codec_def by metis
  with ok show "\<exists>pkt hd tl. SerializeLayers (layer_codec ty enc dec) e i c l = (False, pkt) \<and>
      DecodeLayers (layer_codec ty enc dec) pkt = Some (e, i, c, l) \<and> length hd = 39 \<and>
      pkt = the (eth_DstMAC e) @ the (eth_SrcMAC e) @ word_bytes (eth_EthernetType e) @ take 6 hd @
        [ip6_NextHeader i] @ drop 6 hd @ [ucast (drop_bit 8 (icmp_TypeCode c))] @ tl"
    by (intro exI [where x = pkt] exI [where x = hd] exI [where x = tl])
      (simp add: layer_codec_def ref_codec_def)
qed

section \<open>Properties\<close>

text \<open>C31: with a codec that behaves as documented, for the type of message at hand, what \<open>makeICMPv6\<close>
  builds announces and gives back its layers: parsing it returns all fields, of the type, whose field
  has sixteen bits, the low byte; it is an IPv6 packet with an ICMPv6 header of that type behind
  the fixed headers, and its hop limit is the 255 without which neighbour discovery messages are dropped.\<close>

theorem parse_make:
  assumes "standard_codec codec (ucast (d_Type data)) layer_ok" "data_ok data" "layer_ok (d_Layer data)"
  shows "parseICMPv6 codec (makeICMPv6 codec data) = Some (data\<lparr>d_Type := take_bit 8 (d_Type data)\<rparr>) \<and>
     icmpv6_frame (makeICMPv6 codec data) (ucast (ucast (d_Type data) :: byte)) \<and>
     (\<exists>e i c. DecodeLayers codec (makeICMPv6 codec data) = Some (e, i, c, d_Layer data) \<and> ip6_HopLimit i = 255)"
  using parse_built [OF assms] make_frame(1,2) [OF assms] by (simp add: ip6_header_def)

text \<open>The witness and the next one use a neighbour solicitation with an empty layer.\<close>

definition sample_data :: "bytes ICMPv6Data" where
  "sample_data =
     \<lparr>d_SrcMAC = Some (replicate 6 2), d_DstMAC = Some [0x33, 0x33, 0xff, 1, 2, 3],
      d_SrcIP = Some (replicate 16 0), d_DstIP = Some ([0xff, 2] @ replicate 9 0 @ [1, 0xff, 1, 2, 3]),
      d_Type = 135, d_Layer = [7]\<rparr>"

lemma sample_data_ok: "data_ok sample_data"
  by (simp add: data_ok_iff sample_data_def)

theorem parse_make_witness:
  "parseICMPv6 (ref_codec 135) (makeICMPv6 (ref_codec 135) sample_data) = Some (sample_data\<lparr>d_Type := take_bit 8 (d_Type sample_data)\<rparr>) \<and>
   icmpv6_frame (makeICMPv6 (ref_codec 135) sample_data) 135 \<and>
   take_bit 8 (d_Type sample_data) = 135 \<and>
   parseICMPv6 (ref_codec 136) (makeICMPv6 (ref_codec 135) sample_data) = None"
proof -
  have type: "ucast (d_Type sample_data) = (135 :: byte)" "take_bit 8 (d_Type sample_data) = 135"
    by (simp_all add: sample_data_def)
  from parse_make [where layer_ok = "\<lambda>_. True", OF _ sample_data_ok TrueI, of "ref_codec 135"] type ref_codec_standard [of 135]
  have "parseICMPv6 (ref_codec 135) (makeICMPv6 (ref_codec 135) sample_data) = Some (sample_data\<lparr>d_Type := take_bit 8 (d_Type sample_data)\<rparr>)"
    "icmpv6_frame (makeICMPv6 (ref_codec 135) sample_data) 135"
    by simp_all
  moreover have "parseICMPv6 (ref_codec 136) (makeICMPv6 (ref_codec 135) sample_data) = None"
    by code_simp
  ultimately show ?thesis using type(2) by blast
qed

text \<open>The proxy's solicitations pass its own filter: a packet of type 135 that
  \<open>makeICMPv6\<close> builds for the hardware address \<open>multicastAddr\<close> computes is accepted by
  \<open>bpfND\<close>, and a packet passes \<open>bpfICMPv6\<close> for a type below 256 exactly if it is of that type.\<close>

theorem own_packets_pass:
  assumes "standard_codec codec (ucast (d_Type data)) layer_ok" "data_ok data" "layer_ok (d_Layer data)" "bpf_machine run"
    and "multicastAddr ip spare = Ret (g, mac)" "d_DstMAC data = Some mac" "d_Type data = 135"
    and "0 \<le> t" "t < 256"
  shows "run bpfND a (makeICMPv6 codec data) = 262144 \<and>
     run (bpfICMPv6 t) a (makeICMPv6 codec data) = (if t = 135 then 262144 else 0)"
proof
  note frame = make_frame(2,3) [OF assms(1-3)]
  have "take 2 mac = [0x33, 0x33]"
    using assms(5) by (auto simp: multicastAddr_def go_bind_Ret_iff Let_def)
  moreover have "take 2 (take 6 (makeICMPv6 codec data)) = take 2 mac"
    using frame(2) assms(6) by simp
  ultimately have "take 2 (makeICMPv6 codec data) = [0x33, 0x33]" by simp
  with frame(1) assms(7) show "run bpfND a (makeICMPv6 codec data) = 262144"
    by (simp add: nd_filter_run [OF assms(4)])
  have "uint (word_of_int t :: 32 word) = t"
    using assms(8,9) by (simp add: uint_word_of_int_eq take_bit_int_eq_self)
  then have "(word_of_int t :: 32 word) = 135 \<longleftrightarrow> t = 135" by auto
  with frame(1) assms(7) show "run (bpfICMPv6 t) a (makeICMPv6 codec data) = (if t = 135 then 262144 else 0)"
    unfolding bpfICMPv6_def icmp_tail [OF assms(4)] by (auto simp: icmpv6_frame_def)
qed

theorem own_packets_pass_witness:
  "bpf_ref bpfND 0 (makeICMPv6 (ref_codec 135) sample_data) = 262144 \<and>
   bpf_ref (bpfICMPv6 136) 0 (makeICMPv6 (ref_codec 135) sample_data) = (if (136 :: int) = 135 then 262144 else 0)"
proof (rule own_packets_pass [OF _ sample_data_ok TrueI bpf_machine_ref])
  show "standard_codec (ref_codec 135) (ucast (d_Type sample_data)) (\<lambda>_. True)"
    using ref_codec_standard [of 135] by (simp add: sample_data_def)
  show "multicastAddr (replicate 13 9 @ [1, 2, 3]) [] = Ret ([0xff, 2] @ replicate 9 0 @ [1, 0xff, 1, 2, 3], [0x33, 0x33, 0xff, 1, 2, 3])"
    by (simp add: multicastAddr_def go_slice_def numeral_replicate)
qed (simp_all add: sample_data_def)

end
