(* ===== verification/RA.thy ===== *)
theory RA
  imports Config Ros Link Sock Packet
begin

text \<open>
  The router advertisement client (\<open>RAClient\<close> of \<open>ra.go\<close>): its socket, the solicitation,
  what it reads from an advertisement, the reconciliation of the router with the configuration, the
  listening loop and the worker that starts it again after an error. Everything outside the program
  is in a \<open>platform\<close>; the outcomes of the \<open>select\<close>s and of the test of the context are an
  explicit schedule, so a run of the worker is a function of the schedule and the platform.
\<close>

section \<open>The client\<close>

record 'k platform =
  pf_iw :: nat
  pf_sys :: "'k sys"
  pf_links :: "'k link_ops"
  pf_rs :: "RouterSolicitation codec"
  pf_ra :: "RouterAdvertisement codec"
  pf_ns :: "NeighborSolicitation codec"
  pf_na :: "NeighborAdvertisement codec"

record 'r RAClient =
  rcl_cfg :: RAConfig
  rcl_ros :: "'r run option"
  rcl_extSock :: "sref option"
  rcl_routerInfo :: "RouterInfo option"

definition NewRAClient :: "RAConfig \<Rightarrow> 'r run option \<Rightarrow> 'r RAClient" where
  "NewRAClient cfg ros =
     \<lparr>rcl_cfg = cfg, rcl_ros = ros, rcl_extSock = None, rcl_routerInfo = None\<rparr>"

record ('k, 'r) ra_state =
  rt_client :: "'r RAClient"
  rt_world :: "'k world"
  rt_router :: 'r

datatype ra_error =
    IfError link_error
  | SockError sock_error
  | Canceled
  | ParseFailed
  | NoPrefix
  | InitSockFailed ra_error
  | SolicitFailed ra_error

text \<open>A socket whose filter cannot be attached stays open: \<open>initSock\<close> forgets it.\<close>

definition initSock ::
  "'k platform \<Rightarrow> 'r RAClient \<Rightarrow> 'k world \<Rightarrow> ra_error option \<times> 'r RAClient \<times> 'k world" where
  "initSock pf c w =
     (if (case rcl_extSock c of None \<Rightarrow> False | Some s \<Rightarrow> so_isValid (w_heap w s)) then (None, c, w)
      else case findFirstInterface (pf_links pf) (pf_iw pf) (rac_extIfs (rcl_cfg c)) (w_kern w) of
        (Inl e, k) \<Rightarrow> (Some (IfError e), c, w\<lparr>w_kern := k\<rparr>)
      | (Inr extif, k) \<Rightarrow>
          (case Index (pf_links pf) extif k of
             (Inl e, k) \<Rightarrow> (Some (IfError e), c, w\<lparr>w_kern := k\<rparr>)
           | (Inr extifidx, k) \<Rightarrow>
               (case NewSocket (pf_sys pf) extifidx (w\<lparr>w_kern := k\<rparr>) of
                  (Inl e, w) \<Rightarrow> (Some (SockError e), c, w)
                | (Inr extsock, w) \<Rightarrow>
                    (let (ok, w) = ApplyBPF (pf_sys pf) extsock bpfRA w in
                     if \<not> ok then (Some (SockError FilterFailed), c, w)
                     else (None, c\<lparr>rcl_extSock := Some extsock\<rparr>, w)))))"

section \<open>Advertisements\<close>

text \<open>
  The loop over the options: the last prefix information option counts. Its data is indexed and
  sliced without a check of its length.
\<close>

fun read_options :: "ICMPv6Option list \<Rightarrow> RouterInfo \<Rightarrow> RouterInfo go" where
  "read_options [] info = Ret info"
| "read_options (opt # opts) info =
     (if opt_Type opt = 3 then
        go_bind (go_index (bs (opt_Data opt)) 0) (\<lambda>len.
          go_bind (go_slice (bs (opt_Data opt)) (opt_spare opt) 14 30) (\<lambda>ip.
            read_options opts
              (info\<lparr>ri_prefix := \<lparr>net_IP = Some ip, net_Mask = CIDRMask (int (unat len)) 128\<rparr>\<rparr>)))
      else read_options opts info)"

definition receive ::
  "'k platform \<Rightarrow> 'r RAClient \<Rightarrow> bool \<Rightarrow> bool \<Rightarrow> 'k world \<Rightarrow> (ra_error + RouterInfo) go \<times> 'k world" where
  "receive pf c canceled timeout w =
     (case rcl_extSock c of
        None \<Rightarrow> (Panic, w)
      | Some s \<Rightarrow>
          if canceled then (Ret (Inl Canceled), w)
          else (let (result, w) = ReadOnceChan (pf_iw pf) (pf_sys pf) s
                 (if timeout then Some (rac_timeout (rcl_cfg c)) else None) w
             in case rr_err result of
            Some e \<Rightarrow> (Ret (Inl (SockError e)), w)
          | None \<Rightarrow>
              (case parseICMPv6 (pf_ra pf) (bs (rr_data result)) of
                 None \<Rightarrow> (Ret (Inl ParseFailed), w)
               | Some ra \<Rightarrow>
                   (case read_options (ra_Options (d_Layer ra))
                       \<lparr>ri_prefix = \<lparr>net_IP = None, net_Mask = None\<rparr>, ri_gateway = d_SrcIP ra\<rparr> of
                      Panic \<Rightarrow> (Panic, w)
                    | Ret info \<Rightarrow> (Ret (Inr info), w)))))"

definition soilicit ::
  "'k platform \<Rightarrow> bool \<Rightarrow> 'r RAClient \<Rightarrow> 'k world \<Rightarrow> ra_error option go \<times> 'r RAClient \<times> 'k world" where
  "soilicit pf canceled c w =
     (if rcl_routerInfo c \<noteq> None then (Ret None, c, w)
      else case rcl_extSock c of
        None \<Rightarrow> (Panic, c, w)
      | Some s \<Rightarrow>
          (let rs = makeRouterSolicitation (pf_rs pf) (LinkLocal (pf_sys pf) s w)
                 (Some (nif_hw (so_netif (w_heap w s))))
           in case WriteOnce (pf_sys pf) s rs w of
             (Some e, w) \<Rightarrow> (Ret (Some (SockError e)), c, w)
           | (None, w) \<Rightarrow>
               (case receive pf c canceled True w of
                  (Panic, w) \<Rightarrow> (Panic, c, w)
                | (Ret (Inl e), w) \<Rightarrow> (Ret (Some e), c, w)
                | (Ret (Inr rinfo), w) \<Rightarrow>
                    if net_IP (ri_prefix rinfo) = None then (Ret (Some NoPrefix), c, w)
                    else (Ret None, c\<lparr>rcl_routerInfo := Some rinfo\<rparr>, w))))"

section \<open>Reconciliation\<close>

text \<open>
  Errors of the operations on the router are only logged: the result is the list of the logged
  errors. Without a RouterOS client the first operation dereferences \<open>nil\<close>.
\<close>

type_synonym log = "ros_error list"

definition on_router ::
  "'r run option \<Rightarrow> ('r run \<Rightarrow> 'r \<Rightarrow> ros_error option go \<times> 'r) \<Rightarrow> 'r \<Rightarrow> log go \<times> 'r" where
  "on_router ros f r =
     (case ros of
        None \<Rightarrow> (Panic, r)
      | Some run \<Rightarrow>
          (case f run r of
             (Panic, r) \<Rightarrow> (Panic, r)
           | (Ret None, r) \<Rightarrow> (Ret [], r)
           | (Ret (Some e), r) \<Rightarrow> (Ret [e], r)))"

definition log_seq :: "('r \<Rightarrow> log go \<times> 'r) \<Rightarrow> ('r \<Rightarrow> log go \<times> 'r) \<Rightarrow> 'r \<Rightarrow> log go \<times> 'r" where
  "log_seq f g r =
     (case f r of
        (Panic, r) \<Rightarrow> (Panic, r)
      | (Ret l, r) \<Rightarrow> (case g r of (Panic, r) \<Rightarrow> (Panic, r) | (Ret l', r) \<Rightarrow> (Ret (l @ l'), r)))"

fun log_each :: "('a \<Rightarrow> 'r \<Rightarrow> log go \<times> 'r) \<Rightarrow> 'a list \<Rightarrow> 'r \<Rightarrow> log go \<times> 'r" where
  "log_each f [] r = (Ret [], r)"
| "log_each f (x # xs) r = log_seq (f x) (log_each f xs) r"

definition set_gateway ::
  "'r run option \<Rightarrow> RouterInfo option \<Rightarrow> string \<Rightarrow> 'r \<Rightarrow> log go \<times> 'r" where
  "set_gateway ros rinfo ifname r =
     (if ifname = [] then (Ret [], r)
      else case rinfo of
        None \<Rightarrow> (Panic, r)
      | Some ri \<Rightarrow>
          on_router ros (\<lambda>run r. let (e, r) = SetIPv6Gateway run ifname (bs (ri_gateway ri)) r in (Ret e, r)) r)"

definition assign_ip ::
  "'r run option \<Rightarrow> RouterInfo option \<Rightarrow> ROSIPAssign \<Rightarrow> 'r \<Rightarrow> log go \<times> 'r" where
  "assign_ip ros rinfo a r =
     (case ResolveFIP rinfo (ia_ip a) of
        Panic \<Rightarrow> (Panic, r)
      | Ret ip \<Rightarrow>
          on_router ros (\<lambda>run. AssignIPv6 run (ia_ifname a) ip (FlexibleIP_String (ia_ip a)) (ia_options a)) r)"

definition export_pool ::
  "'r run option \<Rightarrow> RouterInfo option \<Rightarrow> ROSPoolAssign \<Rightarrow> 'r \<Rightarrow> log go \<times> 'r" where
  "export_pool ros rinfo pool r =
     (case ResolveFIP rinfo (pa_ip pool) of
        Ret (Some prefix) \<Rightarrow>
          on_router ros (\<lambda>run. ExportIPv6Pool run (pa_poolname pool) prefix (pa_prefixLength pool)) r
      | _ \<Rightarrow> (Panic, r))"

definition reconcile :: "RAConfig \<Rightarrow> 'r run option \<Rightarrow> RouterInfo option \<Rightarrow> 'r \<Rightarrow> log go \<times> 'r" where
  "reconcile cfg ros rinfo r =
     (if rac_mode cfg = ''ros'' then
        log_seq (set_gateway ros rinfo (rac_rosExtIf cfg))
          (log_seq (log_each (assign_ip ros rinfo) (rac_rosExtIPs cfg))
            (log_seq (log_each (assign_ip ros rinfo) (rac_rosIntIPs cfg))
              (log_each (export_pool ros rinfo) (rac_rosPools cfg)))) r
      else (Ret [], r))"

section \<open>The worker\<close>

definition client_reconcile :: "('k, 'r) ra_state \<Rightarrow> log go \<times> ('k, 'r) ra_state" where
  "client_reconcile st =
     (let c = rt_client st; (l, r) = reconcile (rcl_cfg c) (rcl_ros c) (rcl_routerInfo c) (rt_router st)
      in (l, st\<lparr>rt_router := r\<rparr>))"

definition info_changed :: "RouterInfo \<Rightarrow> RouterInfo \<Rightarrow> bool" where
  "info_changed rinfo old \<longleftrightarrow>
     IPNet_String (ri_prefix rinfo) \<noteq> IPNet_String (ri_prefix old) \<or>
     \<not> IP_Equal (bs (ri_gateway rinfo)) (bs (ri_gateway old))"

text \<open>One round of the listening loop: \<open>None\<close> if it goes on.\<close>

definition listen_step ::
  "'k platform \<Rightarrow> bool \<Rightarrow> ('k, 'r) ra_state \<Rightarrow> ra_error option go \<times> ('k, 'r) ra_state" where
  "listen_step pf canceled st =
     (case receive pf (rt_client st) canceled False (rt_world st) of
        (Panic, w) \<Rightarrow> (Panic, st\<lparr>rt_world := w\<rparr>)
      | (Ret (Inl e), w) \<Rightarrow> (Ret (Some e), st\<lparr>rt_world := w\<rparr>)
      | (Ret (Inr rinfo), w) \<Rightarrow>
          (let st = st\<lparr>rt_world := w\<rparr>; c = rt_client st in
           case rcl_routerInfo c of
             None \<Rightarrow> (Panic, st)
           | Some old \<Rightarrow>
               if info_changed rinfo old then
                 (case client_reconcile (st\<lparr>rt_client := c\<lparr>rcl_routerInfo := Some rinfo\<rparr>\<rparr>) of
                    (Panic, st) \<Rightarrow> (Panic, st)
                  | (Ret l, st) \<Rightarrow> (Ret None, st))
               else (Ret None, st)))"

fun listen ::
  "'k platform \<Rightarrow> bool list \<Rightarrow> ('k, 'r) ra_state \<Rightarrow> ra_error option go \<times> ('k, 'r) ra_state" where
  "listen pf [] st = (Ret None, st)"
| "listen pf (sel # sels) st =
     (case listen_step pf sel st of (Ret None, st) \<Rightarrow> listen pf sels st | (r, st) \<Rightarrow> (r, st))"

definition RA_workInternal ::
  "'k platform \<Rightarrow> bool \<Rightarrow> bool list \<Rightarrow> ('k, 'r) ra_state \<Rightarrow> ra_error option go \<times> ('k, 'r) ra_state" where
  "RA_workInternal pf canceled sels st =
     (case initSock pf (rt_client st) (rt_world st) of
        (Some e, c, w) \<Rightarrow> (Ret (Some (InitSockFailed e)), st\<lparr>rt_client := c, rt_world := w\<rparr>)
      | (None, c, w) \<Rightarrow>
          (case soilicit pf canceled c w of
             (Panic, c, w) \<Rightarrow> (Panic, st\<lparr>rt_client := c, rt_world := w\<rparr>)
           | (Ret (Some e), c, w) \<Rightarrow> (Ret (Some (SolicitFailed e)), st\<lparr>rt_client := c, rt_world := w\<rparr>)
           | (Ret None, c, w) \<Rightarrow>
               (case client_reconcile (st\<lparr>rt_client := c, rt_world := w\<rparr>) of
                  (Panic, st) \<Rightarrow> (Panic, st)
                | (Ret l, st) \<Rightarrow> listen pf sels st)))"

text \<open>
  A round of \<open>Work\<close>: the outcomes of the \<open>select\<close>s in the solicitation and in the
  listening loop, and whether the context is done when an error is looked at. \<open>None\<close>: the
  worker still runs when the schedule ends.
\<close>

type_synonym ra_round = "bool \<times> bool list \<times> bool"

fun RA_Work ::
  "'k platform \<Rightarrow> ra_round list \<Rightarrow> ('k, 'r) ra_state \<Rightarrow> ra_error option go \<times> ('k, 'r) ra_state" where
  "RA_Work pf [] st = (Ret None, st)"
| "RA_Work pf ((canceled, sels, done') # rounds) st =
     (case RA_workInternal pf canceled sels st of
        (Ret (Some e), st) \<Rightarrow> if done' then (Ret (Some e), st) else RA_Work pf rounds st
      | (r, st) \<Rightarrow> (r, st))"

end
