(* ===== verification/RAProps.thy ===== *)
theory RAProps
  imports RA ConfigProps RosProps SockProps LinkProps
begin

text \<open>
  Properties of the router advertisement client: what it reads from an advertisement, the invariant of
  its state, the absence of panics, what it makes of the router, and what an advertisement
  without a prefix does to it.
\<close>

section \<open>Options\<close>

definition prefix_option :: "ICMPv6Option \<Rightarrow> bool" where
  "prefix_option o' \<longleftrightarrow> opt_Type o' = 3"

text \<open>The data has a byte, and thirty with the rest of the packet's buffer.\<close>

definition readable :: "ICMPv6Option \<Rightarrow> bool" where
  "readable o' \<longleftrightarrow> bs (opt_Data o') \<noteq> [] \<and> 30 \<le> length (bs (opt_Data o')) + length (opt_spare o')"

definition option_prefix :: "ICMPv6Option \<Rightarrow> IPNet" where
  "option_prefix o' =
     \<lparr>net_IP = Some (take 16 (drop 14 (bs (opt_Data o') @ opt_spare o'))),
      net_Mask = CIDRMask (int (unat (hd (bs (opt_Data o'))))) 128\<rparr>"

lemma read_options_step:
  "read_options (o' # os) info =
     (if \<not> prefix_option o' then read_options os info
      else if readable o' then read_options os (info\<lparr>ri_prefix := option_prefix o'\<rparr>) else Panic)"
  by (cases "bs (opt_Data o')")
    (auto simp: prefix_option_def readable_def option_prefix_def go_index_def go_slice_def go_bind_def)

declare read_options.simps(2) [simp del]

lemma read_options_result:
  "read_options os info =
     (if list_all readable (filter prefix_option os)
      then Ret (if filter prefix_option os = [] then info
        else info\<lparr>ri_prefix := option_prefix (last (filter prefix_option os))\<rparr>)
      else Panic)"
  by (induction os arbitrary: info) (auto simp: read_options_step)

lemma option_prefix_shape: "readable o' \<Longrightarrow> rinfo_shape (info\<lparr>ri_prefix := option_prefix o'\<rparr>)"
  unfolding rinfo_shape_def
  by (intro disjI2 exI [where x = "take 16 (drop 14 (bs (opt_Data o') @ opt_spare o'))"]
      exI [where x = "unat (hd (bs (opt_Data o')))"]) (auto simp: option_prefix_def readable_def min_def)

lemma read_options_shape:
  assumes "read_options os info = Ret info'" "rinfo_shape info"
  shows "rinfo_shape info'"
proof (cases "filter prefix_option os = []")
  case True
  with assms show ?thesis by (simp add: read_options_result)
next
  case False
  then have "last (filter prefix_option os) \<in> set (filter prefix_option os)" by (rule last_in_set)
  with assms(1) have "readable (last (filter prefix_option os))"
    by (auto simp: read_options_result list_all_iff split: if_splits)
  from option_prefix_shape [OF this, of info] assms(1) False show ?thesis
    by (simp add: read_options_result split: if_splits)
qed

lemma receive_shape: "receive pf c b t w = (Ret (Inr info), w') \<Longrightarrow> rinfo_shape info"
proof -
  have nil: "rinfo_shape \<lparr>ri_prefix = \<lparr>net_IP = None, net_Mask = None\<rparr>, ri_gateway = g\<rparr>" for g
    by (simp add: rinfo_shape_def)
  show "receive pf c b t w = (Ret (Inr info), w') \<Longrightarrow> rinfo_shape info"
    unfolding receive_def
    by (auto split: option.splits if_splits prod.splits sum.splits go.splits dest: read_options_shape [OF _ nil])
qed

section \<open>The state of the client\<close>

definition info_ok :: "('k, 'r) ra_state \<Rightarrow> bool" where
  "info_ok st \<longleftrightarrow> (\<forall>ri. rcl_routerInfo (rt_client st) = Some ri \<longrightarrow> rinfo_shape ri)"

text \<open>
  What every step keeps of the state before: well-formed router information, the knowledge of
  it, the configuration, the RouterOS client and the socket.
\<close>

definition kept :: "('k, 'r) ra_state \<Rightarrow> ('k, 'r) ra_state \<Rightarrow> bool" where
  "kept st st' \<longleftrightarrow>
     (info_ok st \<longrightarrow> info_ok st') \<and>
     (rcl_routerInfo (rt_client st) \<noteq> None \<longrightarrow> rcl_routerInfo (rt_client st') \<noteq> None) \<and>
     (rcl_extSock (rt_client st) \<noteq> None \<longrightarrow> rcl_extSock (rt_client st') \<noteq> None) \<and>
     rcl_cfg (rt_client st') = rcl_cfg (rt_client st) \<and> rcl_ros (rt_client st') = rcl_ros (rt_client st)"

lemma kept_refl: "kept st st"
  by (simp add: kept_def)

lemma kept_trans: "kept st st' \<Longrightarrow> kept st' st'' \<Longrightarrow> kept st st''"
  by (simp add: kept_def)

lemma kept_world: "kept st (st\<lparr>rt_world := w\<rparr>)"
  by (simp add: kept_def info_ok_def)

lemma kept_reconcile: "client_reconcile st = (l, st') \<Longrightarrow> kept st st'"
  by (auto simp: client_reconcile_def kept_def info_ok_def Let_def split: prod.splits)

lemma kept_listen_step: "listen_step pf b st = (r, st') \<Longrightarrow> kept st st'"
proof -
  have new: "kept st st1"
    if "rinfo_shape ri" "client_reconcile (st\<lparr>rt_world := w, rt_client := rt_client st\<lparr>rcl_routerInfo := Some ri\<rparr>\<rparr>) = (l, st1)"
    for ri w l st1
    by (rule kept_trans [OF _ kept_reconcile [OF that(2)]]) (simp add: kept_def info_ok_def that(1))
  show "listen_step pf b st = (r, st') \<Longrightarrow> kept st st'"
    unfolding listen_step_def Let_def
    by (auto split: prod.splits go.splits sum.splits option.splits if_splits
        intro: kept_world new dest: receive_shape)
qed

lemma kept_listen: "listen pf sels st = (r, st') \<Longrightarrow> kept st st'"
proof (induction sels arbitrary: st)
  case Nil
  then show ?case by (simp add: kept_refl)
next
  case (Cons sel sels)
  obtain r1 st1 where step: "listen_step pf sel st = (r1, st1)" by fastforce
  note k = kept_listen_step [OF step]
  show ?case
  proof (cases "r1 = Ret None")
    case True
    with Cons step have "kept st1 st'" by simp
    with k show ?thesis by (rule kept_trans)
  next
    case False
    with Cons step k show ?thesis by (auto split: go.splits option.splits)
  qed
qed

lemma initSock_keeps:
  "initSock pf c w = (e, c', w') \<Longrightarrow>
     rcl_routerInfo c' = rcl_routerInfo c \<and> rcl_cfg c' = rcl_cfg c \<and> rcl_ros c' = rcl_ros c \<and>
     (rcl_extSock c \<noteq> None \<longrightarrow> rcl_extSock c' \<noteq> None) \<and> (e = None \<longrightarrow> rcl_extSock c' \<noteq> None)"
  unfolding initSock_def Let_def
  by (auto split: prod.splits sum.splits option.splits if_splits)

lemma soilicit_keeps:
  "soilicit pf b c w = (e, c', w') \<Longrightarrow>
     rcl_extSock c' = rcl_extSock c \<and> rcl_cfg c' = rcl_cfg c \<and> rcl_ros c' = rcl_ros c \<and>
     (rcl_routerInfo c \<noteq> None \<longrightarrow> rcl_routerInfo c' = rcl_routerInfo c) \<and>
     (\<forall>ri. rcl_routerInfo c' = Some ri \<longrightarrow> rcl_routerInfo c = Some ri \<or> rinfo_shape ri) \<and>
     (e = Ret None \<longrightarrow> rcl_routerInfo c' \<noteq> None)"
  unfolding soilicit_def Let_def
  by (auto split: prod.splits sum.splits option.splits if_splits go.splits dest: receive_shape)

lemma kept_work: "RA_workInternal pf b sels st = (r, st') \<Longrightarrow> kept st st'"
proof -
  assume work: "RA_workInternal pf b sels st = (r, st')"
  obtain e1 c1 w1 where i: "initSock pf (rt_client st) (rt_world st) = (e1, c1, w1)" by (metis prod_cases3)
  obtain e2 c2 w2 where s: "soilicit pf b c1 w1 = (e2, c2, w2)" by (metis prod_cases3)
  have k: "kept st (st\<lparr>rt_client := c1, rt_world := w1\<rparr>)" "kept st (st\<lparr>rt_client := c2, rt_world := w2\<rparr>)"
    using initSock_keeps [OF i] soilicit_keeps [OF s] by (auto simp: kept_def info_ok_def)
  show "kept st st'"
  proof (cases "e1 = None \<and> e2 = Ret None")
    case False
    with work i s k show ?thesis
      unfolding RA_workInternal_def by (auto split: option.splits go.splits)
  next
    case True
    obtain l st1 where rc: "client_reconcile (st\<lparr>rt_client := c2, rt_world := w2\<rparr>) = (l, st1)" by fastforce
    note k1 = kept_trans [OF k(2) kept_reconcile [OF rc]]
    from True work i s rc k1 kept_trans [OF k1 kept_listen] show ?thesis
      unfolding RA_workInternal_def by (auto split: go.splits)
  qed
qed

lemma kept_RA_Work: "RA_Work pf rounds st = (r, st') \<Longrightarrow> kept st st'"
proof (induction rounds arbitrary: st)
  case Nil
  then show ?case by (simp add: kept_refl)
next
  case (Cons rd rounds)
  obtain b sels d where rd: "rd = (b, sels, d)" by (metis prod_cases3)
  obtain r1 st1 where work: "RA_workInternal pf b sels st = (r1, st1)" by fastforce
  note k = kept_work [OF work]
  show ?case
  proof (cases "(\<exists>e. r1 = Ret (Some e)) \<and> \<not> d")
    case True
    with Cons work rd have "kept st1 st'" by auto
    with k show ?thesis by (rule kept_trans)
  next
    case False
    with Cons(2) work rd k show ?thesis by (auto split: go.splits option.splits if_splits)
  qed
qed

section \<open>Panics\<close>

text \<open>
  What the router must not answer: an own address or a pool whose network is no CIDR text. And what
  the decoder must not deliver: a prefix information option that is too short.
\<close>

definition parsable :: "'r run \<Rightarrow> bool" where
  "parsable run \<longleftrightarrow>
     (\<forall>args r rep r'. run (''/ipv6/address/print'' # args) r = (Inr rep, r') \<longrightarrow>
        (\<forall>s\<in>set rep. take (length rosCommentKey) (prop_of s ''comment'') = rosCommentKey \<longrightarrow>
           ParseCIDR (prop_of s ''address'') \<noteq> None)) \<and>
     (\<forall>args r rep r'. run (''/ipv6/pool/print'' # args) r = (Inr rep, r') \<longrightarrow> (\<forall>s\<in>set rep. pool_ok s))"

definition readable_codec :: "RouterAdvertisement codec \<Rightarrow> bool" where
  "readable_codec codec \<longleftrightarrow>
     (\<forall>p e i c l. DecodeLayers codec p = Some (e, i, c, l) \<longrightarrow>
        list_all readable (filter prefix_option (ra_Options l)))"

lemma AssignIPv6_returns:
  assumes "parsable run"
  shows "fst (AssignIPv6 run ifname (Some n) key options r) \<noteq> Panic"
proof -
  obtain res r1 where print: "run [''/ipv6/address/print'', ''=.proplist=.id,comment,address,advertise,eui-64'',
      ''?comment'', ''?dynamic=false'', ''?#&'', ''?interface='' @ ifname, ''?#&''] r = (res, r1)"
    by fastforce
  show ?thesis
  proof (cases res)
    case (Inl e)
    with print show ?thesis by (simp add: AssignIPv6_def Let_def)
  next
    case (Inr rep)
    let ?c = "rosCommentKey @ '' '' @ key"
    have "ParseCIDR (prop_of s ''address'') \<noteq> None" if "s \<in> set rep" "prop_of s ''comment'' = ?c" for s
      using assms print Inr that unfolding parsable_def by fastforce
    then obtain x where "scan_addresses (Some n) options ?c rep [] = Ret x"
      using scan_addresses_ok [of rep ?c n options "[]"] by blast
    with print Inr show ?thesis
      by (cases x) (auto simp: AssignIPv6_def Let_def split: prod.splits sum.splits)
  qed
qed

lemma ExportIPv6Pool_returns:
  assumes "parsable run"
  shows "fst (ExportIPv6Pool run name n len r) \<noteq> Panic"
proof -
  obtain res r1 where print: "run [''/ipv6/pool/print'', ''?name='' @ name] r = (res, r1)"
    by fastforce
  show ?thesis
  proof (cases res)
    case (Inl e)
    with print show ?thesis by (simp add: ExportIPv6Pool_def)
  next
    case (Inr rep)
    have "\<forall>s\<in>set rep. pool_ok s"
      using assms print Inr unfolding parsable_def by blast
    then have "\<exists>b. cidrEqual (prop_of (rep ! 0) ''prefix'') n = Ret b" if "rep \<noteq> []"
      using that by (intro cidrEqual_ok) (simp add: pool_ok_def)
    with print Inr show ?thesis
      by (auto simp: ExportIPv6Pool_def Let_def split: prod.splits sum.splits if_splits)
  qed
qed

lemma on_router_returns: "(\<And>r. fst (f run r) \<noteq> Panic) \<Longrightarrow> fst (on_router (Some run) f r) \<noteq> Panic"
  by (auto simp: on_router_def split: prod.splits go.splits option.splits) (metis fst_conv)

lemma log_seq_returns: "fst (f r) \<noteq> Panic \<Longrightarrow> (\<And>r. fst (g r) \<noteq> Panic) \<Longrightarrow> fst (log_seq f g r) \<noteq> Panic"
  by (auto simp: log_seq_def split: prod.splits go.splits) (metis fst_conv)+

lemma log_each_returns: "(\<And>x r. x \<in> set xs \<Longrightarrow> fst (f x r) \<noteq> Panic) \<Longrightarrow> fst (log_each f xs r) \<noteq> Panic"
  by (induction xs arbitrary: r) (simp_all add: log_seq_returns)

lemma reconcile_returns:
  assumes "wf_ra cfg" "rinfo_shape ri" "rac_mode cfg = ''ros'' \<Longrightarrow> ros = Some run" "parsable run"
  shows "fst (reconcile cfg ros (Some ri) r) \<noteq> Panic"
proof (cases "rac_mode cfg = ''ros''")
  case False
  then show ?thesis by (simp add: reconcile_def)
next
  case True
  then have ros: "ros = Some run" by (rule assms(3))
  have gw: "fst (set_gateway ros (Some ri) ifname r) \<noteq> Panic" for ifname r
    by (auto simp: set_gateway_def ros Let_def intro!: on_router_returns split: prod.splits)
  have ip: "fst (assign_ip ros (Some ri) a r) \<noteq> Panic"
    if "a \<in> set (rac_rosExtIPs cfg) \<union> set (rac_rosIntIPs cfg)" for a r
  proof -
    have "wf_fip (ia_ip a)" using assms(1) that by (auto simp: wf_ra_def wf_assign_def)
    then obtain n where "ResolveFIP (Some ri) (ia_ip a) = Ret (Some n)"
      using assms(2) by (rule ra.known_resolves)
    then show ?thesis
      using AssignIPv6_returns [OF assms(4)] by (simp add: assign_ip_def ros on_router_returns)
  qed
  have pool: "fst (export_pool ros (Some ri) p r) \<noteq> Panic" if "p \<in> set (rac_rosPools cfg)" for p r
  proof -
    have "wf_fip (pa_ip p)" using assms(1) that by (auto simp: wf_ra_def)
    then obtain n where "ResolveFIP (Some ri) (pa_ip p) = Ret (Some n)"
      using assms(2) by (rule ra.known_resolves)
    then show ?thesis
      using ExportIPv6Pool_returns [OF assms(4)] by (simp add: export_pool_def ros on_router_returns)
  qed
  show ?thesis
    using gw ip pool by (simp add: reconcile_def True log_seq_returns log_each_returns)
qed

lemma receive_returns:
  assumes "readable_codec (pf_ra pf)" "rcl_extSock c \<noteq> None"
  shows "fst (receive pf c b t w) \<noteq> Panic"
  using assms
  by (auto simp: receive_def readable_codec_def parseICMPv6_def read_options_result
      split: option.splits prod.splits sum.splits)

text \<open>A client that can serve: what the daemon hands to the worker.\<close>

definition serviceable :: "('k, 'r) ra_state \<Rightarrow> bool" where
  "serviceable st \<longleftrightarrow> wf_ra (rcl_cfg (rt_client st)) \<and> info_ok st \<and>
     (rac_mode (rcl_cfg (rt_client st)) = ''ros'' \<longrightarrow> (\<exists>run. rcl_ros (rt_client st) = Some run \<and> parsable run))"

lemma serviceable_kept: "serviceable st \<Longrightarrow> kept st st' \<Longrightarrow> serviceable st'"
  by (simp add: serviceable_def kept_def)

lemma client_reconcile_returns:
  assumes "serviceable st" "rcl_routerInfo (rt_client st) \<noteq> None"
  shows "fst (client_reconcile st) \<noteq> Panic"
proof -
  let ?c = "rt_client st"
  obtain ri where ri: "rcl_routerInfo ?c = Some ri" "rinfo_shape ri"
    using assms by (auto simp: serviceable_def info_ok_def)
  have "fst (reconcile (rcl_cfg ?c) (rcl_ros ?c) (Some ri) (rt_router st)) \<noteq> Panic"
  proof (cases "rac_mode (rcl_cfg ?c) = ''ros''")
    case False
    then show ?thesis by (simp add: reconcile_def)
  next
    case True
    with assms(1) obtain run where "rcl_ros ?c = Some run" "parsable run" by (auto simp: serviceable_def)
    with assms(1) ri(2) show ?thesis
      by (intro reconcile_returns) (simp_all add: serviceable_def)
  qed
  then show ?thesis
    by (auto simp: client_reconcile_def ri(1) Let_def split: prod.splits)
qed

lemma listen_step_returns:
  assumes "serviceable st" "rcl_routerInfo (rt_client st) \<noteq> None" "rcl_extSock (rt_client st) \<noteq> None"
    and "readable_codec (pf_ra pf)"
  shows "fst (listen_step pf b st) \<noteq> Panic"
proof -
  obtain x w where rcv: "receive pf (rt_client st) b False (rt_world st) = (x, w)" by fastforce
  then have "x \<noteq> Panic"
    using receive_returns [OF assms(4,3), of b False "rt_world st"] by simp
  show ?thesis
  proof (cases "\<exists>ri. x = Ret (Inr ri)")
    case False
    with rcv \<open>x \<noteq> Panic\<close> show ?thesis
      by (cases x) (auto simp: listen_step_def split: sum.splits)
  next
    case True
    then obtain ri where ri: "x = Ret (Inr ri)" by blast
    let ?st = "st\<lparr>rt_world := w, rt_client := rt_client st\<lparr>rcl_routerInfo := Some ri\<rparr>\<rparr>"
    have "serviceable ?st"
      using assms(1) receive_shape rcv ri by (auto simp: serviceable_def info_ok_def)
    then have "fst (client_reconcile ?st) \<noteq> Panic"
      by (rule client_reconcile_returns) simp
    with rcv ri assms(2) show ?thesis
      by (auto simp: listen_step_def Let_def split: prod.splits go.splits if_splits)
  qed
qed

lemma listen_returns:
  assumes "serviceable st" "rcl_routerInfo (rt_client st) \<noteq> None" "rcl_extSock (rt_client st) \<noteq> None"
    and "readable_codec (pf_ra pf)"
  shows "fst (listen pf sels st) \<noteq> Panic"
  using assms(1-3)
proof (induction sels arbitrary: st)
  case Nil
  then show ?case by simp
next
  case (Cons sel sels)
  obtain r1 st1 where step: "listen_step pf sel st = (r1, st1)" by fastforce
  note k = kept_listen_step [OF step]
  have "serviceable st1" "rcl_routerInfo (rt_client st1) \<noteq> None" "rcl_extSock (rt_client st1) \<noteq> None"
    using serviceable_kept [OF Cons.prems(1) k] Cons.prems(2,3) k by (auto simp: kept_def)
  from Cons.IH [OF this] listen_step_returns [OF Cons.prems assms(4), of sel] step show ?case
    by (auto split: go.splits option.splits)
qed

lemma RA_workInternal_returns:
  assumes "serviceable st" "readable_codec (pf_ra pf)"
  shows "fst (RA_workInternal pf b sels st) \<noteq> Panic"
proof -
  obtain e1 c1 w1 where i: "initSock pf (rt_client st) (rt_world st) = (e1, c1, w1)" by (metis prod_cases3)
  obtain e2 c2 w2 where s: "soilicit pf b c1 w1 = (e2, c2, w2)" by (metis prod_cases3)
  show ?thesis
  proof (cases e1)
    case (Some e)
    with i show ?thesis by (simp add: RA_workInternal_def)
  next
    case None
    then have sock: "rcl_extSock c1 \<noteq> None" using initSock_keeps [OF i] by simp
    have "fst (receive pf c1 b True w) \<noteq> Panic" for w
      by (rule receive_returns [OF assms(2) sock])
    then have e2: "e2 \<noteq> Panic"
      using s sock unfolding soilicit_def Let_def
      by (auto split: if_splits option.splits prod.splits sum.splits go.splits) (metis fst_conv)+
    show ?thesis
    proof (cases "e2 = Ret None")
      case False
      with None e2 i s show ?thesis
        by (cases e2) (auto simp: RA_workInternal_def split: option.splits)
    next
      case True
      let ?st = "st\<lparr>rt_client := c2, rt_world := w2\<rparr>"
      have k: "serviceable ?st" "rcl_routerInfo (rt_client ?st) \<noteq> None" "rcl_extSock (rt_client ?st) \<noteq> None"
        using assms(1) initSock_keeps [OF i] soilicit_keeps [OF s] True sock
        by (auto simp: serviceable_def info_ok_def)
      obtain l st1 where rc: "client_reconcile ?st = (l, st1)" by fastforce
      note kr = kept_reconcile [OF rc]
      have l: "l \<noteq> Panic" using client_reconcile_returns [OF k(1,2)] rc by simp
      have "fst (listen pf sels st1) \<noteq> Panic"
        by (rule listen_returns [OF serviceable_kept [OF k(1) kr]]) (use kr k assms(2) in \<open>auto simp: kept_def\<close>)
      with None True i s rc l show ?thesis
        by (auto simp: RA_workInternal_def split: go.splits)
    qed
  qed
qed

lemma RA_Work_returns:
  assumes "serviceable st" "readable_codec (pf_ra pf)"
  shows "fst (RA_Work pf rounds st) \<noteq> Panic"
  using assms(1)
proof (induction rounds arbitrary: st)
  case Nil
  then show ?case by simp
next
  case (Cons rd rounds)
  obtain b sels d where rd: "rd = (b, sels, d)" by (metis prod_cases3)
  obtain r1 st1 where work: "RA_workInternal pf b sels st = (r1, st1)" by fastforce
  with RA_workInternal_returns [OF Cons.prems assms(2), of b sels]
    Cons.IH [OF serviceable_kept [OF Cons.prems kept_work [OF work]]] rd show ?case
    by (auto split: go.splits option.splits)
qed

section \<open>The addresses on the router\<close>

text \<open>
  The assignments of a configuration, the entries of the address menu that belong to them, and what
  it means that one is in force.
\<close>

definition assignments :: "RAConfig \<Rightarrow> ROSIPAssign list" where
  "assignments cfg = rac_rosExtIPs cfg @ rac_rosIntIPs cfg"

definition assign_key :: "ROSIPAssign \<Rightarrow> string \<times> string" where
  "assign_key a = (ia_ifname a, FlexibleIP_String (ia_ip a))"

definition own :: "ROSIPAssign set \<Rightarrow> sentence \<Rightarrow> bool" where
  "own as s \<longleftrightarrow> (\<exists>a\<in>as. address_mine (ia_ifname a) (FlexibleIP_String (ia_ip a)) s)"

definition in_force :: "(string \<Rightarrow> bytes) \<Rightarrow> RouterInfo \<Rightarrow> reply \<Rightarrow> ROSIPAssign \<Rightarrow> bool" where
  "in_force macs ri tab a \<longleftrightarrow>
     (\<exists>n. ResolveFIP (Some ri) (ia_ip a) = Ret (Some n) \<and>
        (\<exists>s\<in>set tab. address_wanted (ia_ifname a) (kept_net macs (ia_ifname a) (ia_options a) n)
           (FlexibleIP_String (ia_ip a)) (ia_options a) s))"

definition tab_ok :: "(string \<Rightarrow> bytes) \<Rightarrow> ROSIPAssign set \<Rightarrow> reply \<Rightarrow> bool" where
  "tab_ok macs as tab \<longleftrightarrow> good_ids tab \<and> (\<forall>s\<in>set tab. own as s \<longrightarrow> address_ok macs s)"

text \<open>No assignment with \<open>eui-64\<close> resolves to an IPv4 address in sixteen bytes.\<close>

definition no_v4_eui64 :: "RouterInfo \<Rightarrow> ROSIPAssign \<Rightarrow> bool" where
  "no_v4_eui64 ri a \<longleftrightarrow>
     (\<forall>n. opt_Eui64 (ia_options a) \<longrightarrow> ResolveFIP (Some ri) (ia_ip a) = Ret (Some n) \<longrightarrow> To4 (bs (net_IP n)) = None)"

text \<open>Commands outside the address menu leave it alone.\<close>

definition others_apart :: "'r run \<Rightarrow> ('r \<Rightarrow> reply) \<Rightarrow> bool" where
  "others_apart run tab \<longleftrightarrow>
     (\<forall>c cs r. take 13 c \<noteq> ''/ipv6/address'' \<longrightarrow> tab (snd (run (c # cs) r)) = tab r)"

lemma mine_key:
  "address_mine i k s \<Longrightarrow> address_mine i' k' s \<Longrightarrow> i = i' \<and> k = k'"
  by (auto simp: address_mine_def address_sel_def address_comment_def)

lemma assign_ip_step:
  assumes "address_router run macs (ia_ifname a) defaults tab" "prop_of defaults ''dynamic'' = ''false''"
    and "rinfo_shape ri" "wf_fip (ia_ip a)" "a \<in> as" "tab_ok macs as (tab r)"
    and "assign_ip (Some run) (Some ri) a r = (Ret l, r')" "no_v4_eui64 ri a"
  shows "tab_ok macs as (tab r')"
    "filter (\<lambda>s. \<not> own as s) (tab r') = filter (\<lambda>s. \<not> own as s) (tab r)"
    "assign_key b \<noteq> assign_key a \<Longrightarrow> in_force macs ri (tab r) b \<Longrightarrow> in_force macs ri (tab r') b"
    "l = [] \<Longrightarrow> in_force macs ri (tab r') a"
proof -
  let ?key = "FlexibleIP_String (ia_ip a)" and ?mine = "address_mine (ia_ifname a) (FlexibleIP_String (ia_ip a))"
  obtain n where n: "ResolveFIP (Some ri) (ia_ip a) = Ret (Some n)"
    using assms(4,3) by (rule ra.known_resolves)
  with ResolveFIP_wf [OF assms(4), of "Some ri"] assms(3) have wf: "wf_net n" by auto
  then have plain: "plain6 (ia_options a) n" using assms(8) n by (simp add: plain6_def no_v4_eui64_def)
  note sane = address_sane [OF plain assms(2), of "ia_ifname a" macs ?key]
  have ids: "good_ids (tab r)" using assms(6) by (simp add: tab_ok_def)
  have ok: "\<forall>s\<in>set (tab r). ?mine s \<longrightarrow> address_ok macs s"
    using assms(5,6) by (auto simp: tab_ok_def own_def)
  from AssignIPv6_achieves [OF assms(1) ids ok] obtain res r1 where
    run: "AssignIPv6 run (ia_ifname a) (Some n) ?key (ia_options a) r = (Ret res, r1)"
    and ach: "achieves (address_wanted (ia_ifname a) n ?key (ia_options a)) ?mine (address_upd n (ia_options a))
       (address_new (ia_ifname a) n ?key (ia_options a)) defaults (address_keep macs) (res = None) (tab r) (tab r1)"
    by blast
  have r1: "r1 = r'" "l = [] \<longleftrightarrow> res = None"
    using assms(7) n run by (auto simp: assign_ip_def on_router_def split: option.splits)
  note c = achieves_cases [OF ach sane ids]
  have frame: "s \<in> set (tab r1) \<longleftrightarrow> s \<in> set (tab r)" if "\<not> ?mine s" for s
    using arg_cong [where f = set, OF c(2)] that by auto
  have "\<forall>s\<in>set (tab r1). ?mine s \<longrightarrow> address_ok macs s"
    by (rule AssignIPv6_keeps_ok [OF ach ok plain])
  with c(1) frame assms(6) show "tab_ok macs as (tab r')"
    unfolding r1(1) [symmetric] tab_ok_def by blast
  have "filter (\<lambda>s. \<not> own as s) t = filter (\<lambda>s. \<not> own as s) (filter (\<lambda>s. \<not> ?mine s) t)" for t
    using assms(5) by (auto simp: own_def intro: filter_cong)
  with c(2) show "filter (\<lambda>s. \<not> own as s) (tab r') = filter (\<lambda>s. \<not> own as s) (tab r)"
    unfolding r1(1) by metis
  show "in_force macs ri (tab r') b" if key: "assign_key b \<noteq> assign_key a" and b: "in_force macs ri (tab r) b"
  proof -
    from b obtain m s where s: "ResolveFIP (Some ri) (ia_ip b) = Ret (Some m)" "s \<in> set (tab r)"
        "address_wanted (ia_ifname b) (kept_net macs (ia_ifname b) (ia_options b) m) (FlexibleIP_String (ia_ip b)) (ia_options b) s"
      by (auto simp: in_force_def)
    then have "\<not> ?mine s"
      using key mine_key by (fastforce simp: address_wanted_def assign_key_def)
    with s frame r1(1) show ?thesis by (auto simp: in_force_def)
  qed
  have "address_wanted (ia_ifname a) (kept_net macs (ia_ifname a) (ia_options a) n) ?key (ia_options a) s"
    if "s \<in> set (tab r)" "address_wanted (ia_ifname a) n ?key (ia_options a) s" for s
    using wanted_kept [OF that(2) _ wf, of macs] that ok by (simp add: address_wanted_def)
  from c(4) [OF _ this] show "l = [] \<Longrightarrow> in_force macs ri (tab r') a"
    using n r1 by (auto simp: in_force_def)
qed

lemma log_seq_Ret:
  "log_seq f g r = (Ret l, r') \<longleftrightarrow>
     (\<exists>l1 r1 l2. f r = (Ret l1, r1) \<and> g r1 = (Ret l2, r') \<and> l = l1 @ l2)"
  by (auto simp: log_seq_def split: prod.splits go.splits)

lemma log_each_assign:
  assumes "\<forall>a\<in>set xs. address_router run macs (ia_ifname a) defaults tab \<and> wf_fip (ia_ip a) \<and> no_v4_eui64 ri a"
    and "prop_of defaults ''dynamic'' = ''false''" "rinfo_shape ri" "set xs \<subseteq> as" "distinct (map assign_key xs)"
    and "tab_ok macs as (tab r)" "log_each (assign_ip (Some run) (Some ri)) xs r = (Ret l, r')"
  shows "tab_ok macs as (tab r') \<and> filter (\<lambda>s. \<not> own as s) (tab r') = filter (\<lambda>s. \<not> own as s) (tab r) \<and>
     (\<forall>b. assign_key b \<notin> assign_key ` set xs \<longrightarrow> in_force macs ri (tab r) b \<longrightarrow> in_force macs ri (tab r') b) \<and>
     (l = [] \<longrightarrow> (\<forall>a\<in>set xs. in_force macs ri (tab r') a))"
  using assms(1,4-7)
proof (induction xs arbitrary: r l)
  case Nil
  then show ?case by simp
next
  case (Cons a xs)
  from Cons.prems(5) obtain l1 r1 l2 where seq: "assign_ip (Some run) (Some ri) a r = (Ret l1, r1)"
      "log_each (assign_ip (Some run) (Some ri)) xs r1 = (Ret l2, r')" "l = l1 @ l2"
    by (auto simp: log_seq_Ret)
  have a: "address_router run macs (ia_ifname a) defaults tab" "wf_fip (ia_ip a)" "a \<in> as" "no_v4_eui64 ri a"
    using Cons.prems(1,2) by auto
  note step = assign_ip_step [OF a(1) assms(2,3) a(2,3) Cons.prems(4) seq(1) a(4)]
  have IH: "tab_ok macs as (tab r') \<and> filter (\<lambda>s. \<not> own as s) (tab r') = filter (\<lambda>s. \<not> own as s) (tab r1) \<and>
     (\<forall>b. assign_key b \<notin> assign_key ` set xs \<longrightarrow> in_force macs ri (tab r1) b \<longrightarrow> in_force macs ri (tab r') b) \<and>
     (l2 = [] \<longrightarrow> (\<forall>a\<in>set xs. in_force macs ri (tab r') a))"
    using Cons.prems(1-3) step(1) seq(2) by (intro Cons.IH) auto
  have "assign_key a \<notin> assign_key ` set xs" using Cons.prems(3) by simp
  with IH step(2-4) seq(3) show ?case by auto
qed

lemma log_seq_assoc: "log_seq (log_seq f g) h r = log_seq f (log_seq g h) r"
  by (auto simp: log_seq_def split: prod.splits go.splits)

lemma log_each_append: "log_each f (xs @ ys) r = log_seq (log_each f xs) (log_each f ys) r"
proof (induction xs arbitrary: r)
  case Nil
  show ?case by (auto simp: log_seq_def split: prod.splits go.splits)
next
  case (Cons x xs)
  then have "log_each f (xs @ ys) = log_seq (log_each f xs) (log_each f ys)" by (intro ext)
  then show ?case by (simp add: log_seq_assoc [symmetric])
qed

lemma other_command:
  "others_apart run tab \<Longrightarrow> run (c # cs) r = (x, r') \<Longrightarrow> take 13 c \<noteq> ''/ipv6/address'' \<Longrightarrow> tab r' = tab r"
  unfolding others_apart_def by (metis snd_conv)

lemma other_operations:
  assumes "others_apart run tab"
  shows "SetIPv6Gateway run ifname g r = (e, r') \<Longrightarrow> tab r' = tab r"
    "ExportIPv6Pool run name n len r = (e', r') \<Longrightarrow> tab r' = tab r"
  unfolding SetIPv6Gateway_def ExportIPv6Pool_def Let_def
  by (auto split: prod.splits sum.splits option.splits if_splits go.splits dest!: other_command [OF assms])

lemma reconcile_assigns:
  assumes "wf_ra cfg" "rinfo_shape ri" "\<forall>a\<in>set (assignments cfg). address_router run macs (ia_ifname a) defaults tab"
    and "others_apart run tab" "prop_of defaults ''dynamic'' = ''false''"
    and "distinct (map assign_key (assignments cfg))" "tab_ok macs (set (assignments cfg)) (tab r)"
    and "reconcile cfg (Some run) (Some ri) r = (Ret l, r')" "\<forall>a\<in>set (assignments cfg). no_v4_eui64 ri a"
  shows "filter (\<lambda>s. \<not> own (set (assignments cfg)) s) (tab r') = filter (\<lambda>s. \<not> own (set (assignments cfg)) s) (tab r) \<and>
     (l = [] \<longrightarrow> (\<forall>a\<in>set (assignments cfg). in_force macs ri (tab r') a))"
proof (cases "rac_mode cfg = ''ros''")
  case False
  with assms(1) have "assignments cfg = []" by (auto simp: wf_ra_def assignments_def)
  with False assms(8) show ?thesis by (simp add: reconcile_def)
next
  case True
  have seq: "log_seq f (log_seq g h) = log_seq (log_seq f g) h" for f g h :: "'a \<Rightarrow> log go \<times> 'a"
    by (intro ext) (simp add: log_seq_assoc)
  have app: "log_seq (log_each f xs) (log_each f ys) = log_each f (xs @ ys)" for xs ys and f :: "'b \<Rightarrow> 'a \<Rightarrow> log go \<times> 'a"
    by (intro ext) (simp add: log_each_append)
  from assms(8) True obtain l1 r1 l2 r2 l3 where steps:
      "set_gateway (Some run) (Some ri) (rac_rosExtIf cfg) r = (Ret l1, r1)"
      "log_each (assign_ip (Some run) (Some ri)) (assignments cfg) r1 = (Ret l2, r2)"
      "log_each (export_pool (Some run) (Some ri)) (rac_rosPools cfg) r2 = (Ret l3, r')" "l = l1 @ l2 @ l3"
    unfolding reconcile_def assignments_def app [symmetric]
    by (simp add: log_seq_Ret) (metis append.assoc)
  have gw: "tab r1 = tab r"
    using steps(1) other_operations(1) [OF assms(4)]
    by (auto simp: set_gateway_def on_router_def Let_def split: if_splits prod.splits option.splits)
  have pool: "tab r2 = tab r1" if "export_pool (Some run) (Some ri) p r1 = (Ret l, r2)" for p l r1 r2
    using that other_operations(2) [OF assms(4)]
    by (auto simp: export_pool_def on_router_def split: go.splits prod.splits option.splits)
  have pools: "tab r2 = tab r1" if "log_each (export_pool (Some run) (Some ri)) ps r1 = (Ret l, r2)" for ps l r1 r2
    using that by (induction ps arbitrary: l r1) (auto simp: log_seq_Ret dest!: pool)
  have "\<forall>a\<in>set (assignments cfg). address_router run macs (ia_ifname a) defaults tab \<and> wf_fip (ia_ip a) \<and> no_v4_eui64 ri a"
    using assms(1,3,9) by (auto simp: wf_ra_def wf_assign_def assignments_def)
  from log_each_assign [OF this assms(5,2) order_refl assms(6) _ steps(2)] assms(7)
  show ?thesis by (simp add: gw pools [OF steps(3)] steps(4))
qed

section \<open>Properties\<close>

text \<open>C1: on a router that behaves as documented, which calculates the last 64 bits of \<open>eui-64\<close> addresses
  itself, with no two assignments of the same address text on one interface, a reconciliation leaves
  every address entry alone that belongs to no assignment; if it logs no error, every configured
  assignment is in force afterwards: its interface has, under its key and with the configured flags, the
  network it resolves to with the current router information, for \<open>eui-64\<close> with the interface's
  identifier in the last 64 bits.\<close>

theorem reconcile_converges:
  assumes "wf_ra cfg" "rinfo_shape ri" "\<forall>a\<in>set (assignments cfg). address_router run macs (ia_ifname a) defaults tab"
    and "others_apart run tab" "prop_of defaults ''dynamic'' = ''false''"
    and "distinct (map assign_key (assignments cfg))" "tab_ok macs (set (assignments cfg)) (tab r)"
    and "reconcile cfg (Some run) (Some ri) r = (Ret l, r')" "\<forall>a\<in>set (assignments cfg). no_v4_eui64 ri a"
  shows "filter (\<lambda>s. \<not> own (set (assignments cfg)) s) (tab r') = filter (\<lambda>s. \<not> own (set (assignments cfg)) s) (tab r) \<and>
     (l = [] \<longrightarrow> (\<forall>a\<in>set (assignments cfg). in_force macs ri (tab r') a))"
  using assms by (rule reconcile_assigns)

text \<open>The witnesses use a router that keeps its address menu and acknowledges all other commands.\<close>

definition ref_router :: "reply run" where
  "ref_router args tab =
     (if args \<noteq> [] \<and> take 13 (hd args) = ''/ipv6/address''
      then menu_keeping ''/ipv6/address'' (address_sel (drop 11 (args ! 5))) [(''dynamic'', ''false'')]
        (address_keep sample_macs) args tab
      else (Inr [], tab))"

lemma ref_router_address: "address_router ref_router sample_macs ifname [(''dynamic'', ''false'')] (\<lambda>t. t)"
proof -
  let ?menu = "\<lambda>sel. menu_keeping ''/ipv6/address'' sel [(''dynamic'', ''false'')] (address_keep sample_macs)"
    and ?p = "''/ipv6/address''"
  have cmd: "ref_router ((?p @ c) # cs) w = ?menu (address_sel (drop 11 (((?p @ c) # cs) ! 5))) ((?p @ c) # cs) w"
    for c cs w by (simp add: ref_router_def)
  have same: "?menu sel ((?p @ c) # cs) w = ?menu (address_sel ifname) ((?p @ c) # cs) w"
    if "c \<in> {''/set'', ''/add''}" for sel c cs w
    using that by (auto simp: menu_keeping_def)
  have query: "drop 11 (((?p @ ''/print'') # address_query ifname) ! 5) = ifname"
    by (simp add: address_query_def)
  have wr: "ref_router ((?p @ c) # cs) w = ?menu (address_sel ifname) ((?p @ c) # cs) w"
    if "c \<in> {''/set'', ''/add''}" for c cs w
    unfolding cmd by (rule same [OF that])
  have pr: "ref_router ((?p @ ''/print'') # address_query ifname) w =
      ?menu (address_sel ifname) ((?p @ ''/print'') # address_query ifname) w" for w
    unfolding cmd query ..
  show ?thesis
    using menu_keeping_router [of ?p "address_sel ifname" "[(''dynamic'', ''false'')]" "address_keep sample_macs"
        "address_query ifname" address_keys]
    unfolding router_keeping_def pr wr [OF insertI1] wr [OF insertI2 [OF insertI1]] .
qed

definition sample_ra :: RAConfig where
  "sample_ra =
     \<lparr>rac_mode = ''ros'', rac_extIfs = [''eth0''], rac_timeout = 5000000000, rac_rosExtIf = ''ether1'',
      rac_rosExtIPs = [\<lparr>ia_ip = sample_fip, ia_ifname = ''ether1'', ia_options = \<lparr>opt_Eui64 = False, opt_Advertise = False\<rparr>\<rparr>],
      rac_rosIntIPs = [\<lparr>ia_ip = sample_fip, ia_ifname = ''br0'', ia_options = \<lparr>opt_Eui64 = True, opt_Advertise = True\<rparr>\<rparr>],
      rac_rosPools = [\<lparr>pa_ip = \<lparr>fip_raPrefix = True, fip_ip = None, fip_cidr = -1\<rparr>, pa_poolname = ''p'', pa_prefixLength = 64\<rparr>]\<rparr>"

lemma sample_ra_wf: "wf_ra sample_ra"
  by (simp add: wf_ra_def sample_ra_def wf_assign_def sample_simps) (simp add: wf_fip_def)

lemma sample_info_shape: "rinfo_shape sample_info"
  unfolding rinfo_shape_def using sample_simps(1,3) by blast

lemma sample_resolves: "\<exists>n. ResolveFIP (Some sample_info) sample_fip = Ret (Some n)"
  "\<exists>n. ResolveFIP (Some sample_info) \<lparr>fip_raPrefix = True, fip_ip = None, fip_cidr = -1\<rparr> = Ret (Some n)"
proof -
  have wf: "wf_fip sample_fip" "wf_fip \<lparr>fip_raPrefix = True, fip_ip = None, fip_cidr = -1\<rparr>"
    by (rule sample_simps) (simp add: wf_fip_def)
  show "\<exists>n. ResolveFIP (Some sample_info) sample_fip = Ret (Some n)"
    "\<exists>n. ResolveFIP (Some sample_info) \<lparr>fip_raPrefix = True, fip_ip = None, fip_cidr = -1\<rparr> = Ret (Some n)"
    using ra.known_resolves [OF _ sample_info_shape] wf by metis+
qed

lemma sample_reconcile: "\<exists>tab'. reconcile sample_ra (Some ref_router) (Some sample_info) [] = (Ret [], tab')"
proof -
  obtain n m where n: "ResolveFIP (Some sample_info) sample_fip = Ret (Some n)"
    "ResolveFIP (Some sample_info) \<lparr>fip_raPrefix = True, fip_ip = None, fip_cidr = -1\<rparr> = Ret (Some m)"
    using sample_resolves by blast
  show ?thesis
  unfolding reconcile_def sample_ra_def
  by (simp add: log_seq_def set_gateway_def on_router_def SetIPv6Gateway_def ref_router_def menu_keeping_def
     assign_ip_def AssignIPv6_def n export_pool_def ExportIPv6Pool_def tab_add_def address_sel_def unattr_def
     prop_of_address_keep Let_def)
qed

lemma sample_no_v4: "no_v4_eui64 sample_info a" if "a \<in> set (assignments sample_ra)"
proof -
  have "ResolveFIP (Some sample_info) sample_fip =
      Ret (Some \<lparr>net_IP = Some ([0x20, 1, 0xd, 0xb8] @ replicate 11 0 @ [1]), net_Mask = Some (replicate 16 0xff)\<rparr>)"
    "To4 ([0x20, 1, 0xd, 0xb8] @ replicate 11 0 @ [1]) = None"
    by code_simp+
  with that show ?thesis by (auto simp: no_v4_eui64_def assignments_def sample_ra_def)
qed

theorem reconcile_converges_witness:
  "\<exists>tab'. reconcile sample_ra (Some ref_router) (Some sample_info) [] = (Ret [], tab') \<and>
     (\<forall>a\<in>set (assignments sample_ra). in_force sample_macs sample_info tab' a) \<and>
     map (\<lambda>a. opt_Eui64 (ia_options a)) (assignments sample_ra) = [False, True]"
proof -
  obtain tab' where r: "reconcile sample_ra (Some ref_router) (Some sample_info) [] = (Ret [], tab')"
    using sample_reconcile by blast
  have router: "\<forall>a\<in>set (assignments sample_ra). address_router ref_router sample_macs (ia_ifname a) [(''dynamic'', ''false'')] (\<lambda>t. t)"
    by (simp add: ref_router_address)
  have apart: "others_apart ref_router (\<lambda>t. t)"
    by (simp add: others_apart_def ref_router_def)
  have keys: "distinct (map assign_key (assignments sample_ra))"
    by (simp add: assignments_def sample_ra_def assign_key_def)
  from reconcile_converges [OF sample_ra_wf sample_info_shape router apart _ keys _ r] sample_no_v4
  have "\<forall>a\<in>set (assignments sample_ra). in_force sample_macs sample_info tab' a"
    by (simp add: tab_ok_def good_ids_def)
  with r show ?thesis by (auto simp: assignments_def sample_ra_def)
qed

text \<open>C26: what the client takes from an advertisement: the network of the last prefix information option,
  or none without such an option. It panics, which ends the daemon, exactly if one of these options
  is so short that byte 0, or byte 29 counted into the rest of the packet, does not exist.\<close>

theorem advertised_prefix:
  "read_options os info =
     (let ps = filter prefix_option os in
      if \<not> list_all readable ps then Panic
      else if ps = [] then Ret info else Ret (info\<lparr>ri_prefix := option_prefix (last ps)\<rparr>))"
  by (simp add: read_options_result)

text \<open>C13: over any run of the worker, from information of the shape \<open>ResolveFIP\<close> needs to such information:
  router information, once known, stays known, and the configuration and the RouterOS client are
  those the client was made with.\<close>

theorem RA_Work_invariant:
  assumes "RA_Work pf rounds st = (r, st')" "info_ok st"
  shows "info_ok st' \<and> (rcl_routerInfo (rt_client st) \<noteq> None \<longrightarrow> rcl_routerInfo (rt_client st') \<noteq> None) \<and>
     rcl_cfg (rt_client st') = rcl_cfg (rt_client st) \<and> rcl_ros (rt_client st') = rcl_ros (rt_client st)"
  using kept_RA_Work [OF assms(1)] assms(2) by (simp add: kept_def)

text \<open>C12: with a configuration that was loaded, a RouterOS client whenever the mode is \<open>ros\<close>, a router whose own
  addresses and pools are CIDR texts and no short prefix information options, no run of the worker
  panics, whatever fails in the kernel, on the network or in the router and whenever.\<close>

theorem RA_Work_safe:
  assumes "wf_ra cfg" "rac_mode cfg = ''ros'' \<longrightarrow> ros = Some run" "parsable run" "readable_codec (pf_ra pf)"
  shows "fst (RA_Work pf rounds \<lparr>rt_client = NewRAClient cfg ros, rt_world = w, rt_router = r\<rparr>) \<noteq> Panic"
  using assms by (intro RA_Work_returns) (simp_all add: serviceable_def info_ok_def NewRAClient_def)

text \<open>C25: after the first solicitation an advertisement without a prefix is accepted, although the
  solicitation rejects it: it replaces a known prefix, the bare \<open>ra-prefix\<close> becomes \<open>::/0\<close>, and
  the router is reconciled with that.\<close>

theorem prefix_lost:
  assumes "receive pf (rt_client st) False False (rt_world st) = (Ret (Inr rinfo), w)"
    and "ri_prefix rinfo = \<lparr>net_IP = None, net_Mask = None\<rparr>" "rcl_routerInfo (rt_client st) = Some old"
    and "ri_prefix old = \<lparr>net_IP = Some P, net_Mask = CIDRMask (int k) 128\<rparr>" "length P = 16" "To4 P = None" "k \<le> 128"
    and "serviceable st"
  shows "\<exists>l r. reconcile (rcl_cfg (rt_client st)) (rcl_ros (rt_client st)) (Some rinfo) (rt_router st) = (Ret l, r) \<and>
     listen_step pf False st = (Ret None, st\<lparr>rt_world := w,
       rt_client := (rt_client st)\<lparr>rcl_routerInfo := Some rinfo\<rparr>, rt_router := r\<rparr>) \<and>
     (\<exists>n. ResolveFIP (Some rinfo) \<lparr>fip_raPrefix = True, fip_ip = None, fip_cidr = -1\<rparr> = Ret (Some n) \<and>
        IPNet_String n = ''::/0'')"
proof -
  let ?st = "st\<lparr>rt_world := w, rt_client := (rt_client st)\<lparr>rcl_routerInfo := Some rinfo\<rparr>\<rparr>"
  have "serviceable ?st"
    using assms(8) receive_shape [OF assms(1)] by (simp add: serviceable_def info_ok_def)
  then have "fst (client_reconcile ?st) \<noteq> Panic"
    by (rule client_reconcile_returns) simp
  then obtain l r where rc: "reconcile (rcl_cfg (rt_client st)) (rcl_ros (rt_client st)) (Some rinfo) (rt_router st) = (Ret l, r)"
    by (cases "fst (client_reconcile ?st)") (auto simp: client_reconcile_def Let_def split: prod.splits)
  have "IPNet_String (ri_prefix old) = IP_String P @ ''/'' @ show_base 10 k"
    using assms(4-7) by (simp add: CIDRMask_128 IPNet_String_v6)
  then have "CHR ''/'' \<in> set (IPNet_String (ri_prefix old))" by simp
  then have "IPNet_String (ri_prefix old) \<noteq> ''<nil>''" by (intro notI) simp
  moreover have "IPNet_String (ri_prefix rinfo) = ''<nil>''"
    by (simp add: assms(2) IPNet_String_def networkNumberAndMask_def To4_def)
  ultimately have "info_changed rinfo old" by (auto simp: info_changed_def)
  then have step: "listen_step pf False st = (Ret None, ?st\<lparr>rt_router := r\<rparr>)"
    using assms(1,3) rc by (simp add: listen_step_def Let_def client_reconcile_def)
  obtain n where "ResolveFIP (Some rinfo) \<lparr>fip_raPrefix = True, fip_ip = None, fip_cidr = -1\<rparr> = Ret (Some n)"
      "IPNet_String n = ''::/0''"
    using ra_prefix_default [OF disjI1 [OF assms(2)]] by blast
  with rc step show ?thesis by blast
qed

text \<open>
  The witnesses: one interface, the kernel of \<open>ref_sys\<close>, advertisements of one byte that says
  whether they hold a prefix, and a router that answers everything with an empty reply.
\<close>

definition one_link :: "'k link_ops" where
  "one_link =
     \<lparr>LinkByName = (\<lambda>name k. if name = ''eth0'' then Some \<lparr>nl_name = ''eth0'', nl_index = 2, nl_parent = 0, nl_vlan = None\<rparr> else None),
      LinkAdd = (\<lambda>l k. (False, k)), LinkSetUp = (\<lambda>l k. (False, k)), LinkDel = (\<lambda>l k. (False, k)),
      if_nametoindex = (\<lambda>name k. if name = ''eth0'' then 2 else 0)\<rparr>"

definition prefix_data :: bytes where
  "prefix_data = 64 # replicate 13 0 @ sample_prefix"

definition fixed_codec :: "(bytes \<Rightarrow> 'l) \<Rightarrow> 'l codec" where
  "fixed_codec layer =
     \<lparr>SerializeLayers = (\<lambda>e i c l. (False, [])),
      DecodeLayers = (\<lambda>p. if p = [] then None else Some
        (\<lparr>eth_SrcMAC = Some (replicate 6 4), eth_DstMAC = Some (replicate 6 2), eth_EthernetType = 0x86dd\<rparr>,
         \<lparr>ip6_Version = 6, ip6_TrafficClass = 0, ip6_FlowLabel = 0, ip6_NextHeader = 0x3a, ip6_HopLimit = 255,
          ip6_SrcIP = Some sample_gateway, ip6_DstIP = Some allRouterIP\<rparr>,
         \<lparr>icmp_TypeCode = 0\<rparr>, layer p))\<rparr>"

definition ref_pf :: "ref_kernel platform" where
  "ref_pf =
     \<lparr>pf_iw = 64, pf_sys = ref_sys, pf_links = one_link, pf_rs = fixed_codec (\<lambda>p. \<lparr>rs_Options = []\<rparr>),
      pf_ra = fixed_codec (\<lambda>p. \<lparr>ra_Options = (if hd p = 0 then [] else [new_option 3 (Some prefix_data)])\<rparr>),
      pf_ns = fixed_codec (\<lambda>p. \<lparr>ns_TargetAddress = Some p, ns_Options = []\<rparr>),
      pf_na = fixed_codec (\<lambda>p. \<lparr>na_Flags = 0, na_TargetAddress = Some p, na_Options = []\<rparr>)\<rparr>"

definition quiet :: "'r run" where
  "quiet args r = (Inr [], r)"

definition readable_event :: epoll_event where
  "readable_event = \<lparr>ev_events = EPOLLIN, ev_fd = 3\<rparr>"

definition listening :: "(ref_kernel, unit) ra_state" where
  "listening =
     \<lparr>rt_client = \<lparr>rcl_cfg = sample_ra, rcl_ros = Some quiet, rcl_extSock = Some 0, rcl_routerInfo = Some sample_info\<rparr>,
      rt_world = ref_world [[readable_event]] [[0]], rt_router = ()\<rparr>"

lemma quiet_parsable: "parsable quiet"
  by (simp add: parsable_def quiet_def)

lemma ref_pf_readable: "readable_codec (pf_ra ref_pf)"
  by (auto simp: readable_codec_def ref_pf_def fixed_codec_def readable_def new_option_def prefix_data_def
      sample_simps split: if_splits)

lemma listening_serviceable: "serviceable listening" "info_ok listening"
  by (simp_all add: serviceable_def info_ok_def listening_def sample_ra_wf sample_info_shape quiet_parsable)

lemma ref_read: "\<exists>w. ReadOnce 64 ref_sys 0 t (ref_world [[readable_event]] (p # ps)) = (Inr (Some (take 2048 p)), w)"
  by (simp add: ReadOnce_def epollOnce_def epoll_rounds.simps ref_sys_def ref_world_def readable_event_def
      ev_failed_def pick_sock_def EPOLLERR_def EPOLLIN_def EPOLLHUP_def wrap_def readImmediate_def)

lemma listening_receives:
  "\<exists>w. receive ref_pf (rt_client listening) False False (rt_world listening) =
     (Ret (Inr \<lparr>ri_prefix = \<lparr>net_IP = None, net_Mask = None\<rparr>, ri_gateway = Some sample_gateway\<rparr>), w)"
  using ref_read [of None "[0]" "[]"]
  by (auto simp: receive_def ReadOnceChan_def listening_def ref_pf_def fixed_codec_def parseICMPv6_def)

theorem RA_Work_invariant_witness:
  "\<exists>r st'. RA_Work ref_pf [(False, [False], True)] listening = (r, st') \<and> info_ok st' \<and>
     rcl_routerInfo (rt_client st') \<noteq> None \<and> rcl_cfg (rt_client st') = sample_ra"
proof -
  obtain r st' where w: "RA_Work ref_pf [(False, [False], True)] listening = (r, st')" by fastforce
  from w RA_Work_invariant [OF w listening_serviceable(2)] show ?thesis by (auto simp: listening_def)
qed

theorem RA_Work_safe_witness:
  "fst (RA_Work ref_pf [(False, [False, False], True)]
     \<lparr>rt_client = NewRAClient sample_ra (Some quiet), rt_world = ref_world [[readable_event]] [[1]], rt_router = ()\<rparr>) \<noteq> Panic"
  by (rule RA_Work_safe [OF sample_ra_wf _ quiet_parsable ref_pf_readable]) simp

theorem prefix_lost_witness:
  "\<exists>rinfo w l r. rcl_routerInfo (rt_client listening) = Some sample_info \<and>
     reconcile (rcl_cfg (rt_client listening)) (rcl_ros (rt_client listening)) (Some rinfo) (rt_router listening) = (Ret l, r) \<and>
     listen_step ref_pf False listening = (Ret None, listening\<lparr>rt_world := w,
       rt_client := (rt_client listening)\<lparr>rcl_routerInfo := Some rinfo\<rparr>, rt_router := r\<rparr>) \<and>
     (\<exists>n. ResolveFIP (Some rinfo) \<lparr>fip_raPrefix = True, fip_ip = None, fip_cidr = -1\<rparr> = Ret (Some n) \<and>
        IPNet_String n = ''::/0'')"
proof -
  obtain w where w: "receive ref_pf (rt_client listening) False False (rt_world listening) =
      (Ret (Inr \<lparr>ri_prefix = \<lparr>net_IP = None, net_Mask = None\<rparr>, ri_gateway = Some sample_gateway\<rparr>), w)"
    using listening_receives by blast
  have "rcl_routerInfo (rt_client listening) = Some sample_info" by (simp add: listening_def)
  from this prefix_lost [OF w _ this sample_simps(3,1,2) _ listening_serviceable(1)] show ?thesis by auto
qed

theorem advertised_prefix_witness:
  "read_options [new_option 3 (Some prefix_data), new_option 1 None] sample_info =
     Ret (sample_info\<lparr>ri_prefix := \<lparr>net_IP = Some sample_prefix, net_Mask = CIDRMask 64 128\<rparr>\<rparr>) \<and>
   read_options [new_option 3 (Some (take 29 prefix_data))] sample_info = Panic"
  unfolding advertised_prefix
  by (simp add: prefix_option_def readable_def option_prefix_def new_option_def prefix_data_def sample_simps Let_def)

end
