(* ===== verification/ND.thy ===== *)
theory ND
  imports RA
begin

text \<open>
  The neighbour discovery proxy (\<open>NDClient\<close> of \<open>nd.go\<close>): its groups of sockets, the choice of
  the solicitations it answers, the answers, its own solicitations on the internal interfaces, the
  receive loop and the worker. A Go map is an association list with distinct keys, and the order in
  which a \<open>range\<close> visits it is a function on its keys that is a parameter.
\<close>

section \<open>The client\<close>

record SockRef =
  sr_name :: string
  sr_s :: "sref option"
  sr_advMAC :: MACRef

type_synonym sock_map = "(string \<times> SockRef) list"
type_synonym order = "string list \<Rightarrow> string list"

definition zero_mac :: MACRef where
  "zero_mac = \<lparr>mr_hwaddr = None, mr_rosIf = []\<rparr>"

definition zero_ref :: SockRef where
  "zero_ref = \<lparr>sr_name = [], sr_s = None, sr_advMAC = zero_mac\<rparr>"

record 'r NDClient =
  ncl_cfg :: NDConfig
  ncl_ros :: "'r run option"
  ncl_extSocks :: "sock_map option"
  ncl_intSocks :: "sock_map option"

definition NewNDClient :: "NDConfig \<Rightarrow> 'r run option \<Rightarrow> 'r NDClient" where
  "NewNDClient cfg ros =
     \<lparr>ncl_cfg = cfg, ncl_ros = ros, ncl_extSocks = None, ncl_intSocks = None\<rparr>"

section \<open>Socket groups\<close>

text \<open>The first position of a name; \<open>maci\<close> keeps its value if there is none.\<close>

fun original_index :: "string \<Rightarrow> string list \<Rightarrow> nat \<Rightarrow> nat \<Rightarrow> nat" where
  "original_index k [] i maci = maci"
| "original_index k (name # names) i maci =
     (if k = name then i else original_index k names (Suc i) maci)"

definition needs_socket :: "SockRef \<Rightarrow> 'k world \<Rightarrow> bool" where
  "needs_socket sr w \<longleftrightarrow> (case sr_s sr of None \<Rightarrow> True | Some s \<Rightarrow> \<not> so_isValid (w_heap w s))"

text \<open>The body of the loop: an interface whose socket cannot be made is left out with a warning.\<close>

definition init_one ::
  "'k platform \<Rightarrow> insn list option \<Rightarrow> MACRef list option \<Rightarrow> nat \<Rightarrow> string \<Rightarrow> DecodedInterface \<Rightarrow>
   sock_map \<Rightarrow> 'k world \<Rightarrow> sock_map go \<times> 'k world" where
  "init_one pf flt advMACs maci k di socks w =
     (let sr = (case map_of socks k of None \<Rightarrow> zero_ref | Some sr \<Rightarrow> sr) in
      if \<not> needs_socket sr w then (Ret socks, w)
      else case Index (pf_links pf) di (w_kern w) of
        (Inl e, kern) \<Rightarrow> (Ret socks, w\<lparr>w_kern := kern\<rparr>)
      | (Inr ii, kern) \<Rightarrow>
          (case NewSocket (pf_sys pf) ii (w\<lparr>w_kern := kern\<rparr>) of
             (Inl e, w) \<Rightarrow> (Ret socks, w)
           | (Inr s, w) \<Rightarrow>
               (let (ok, w) = (case flt of None \<Rightarrow> (True, w) | Some is \<Rightarrow> ApplyBPF (pf_sys pf) s is w) in
                if \<not> ok then (Ret socks, snd (Close (pf_sys pf) s w))
                else case (case advMACs of None \<Rightarrow> Ret zero_mac | Some ms \<Rightarrow> go_index ms maci) of
                  Panic \<Rightarrow> (Panic, w)
                | Ret m \<Rightarrow> (Ret (AList.update k \<lparr>sr_name = k, sr_s = Some s, sr_advMAC = m\<rparr> socks), w))))"

fun init_all ::
  "'k platform \<Rightarrow> insn list option \<Rightarrow> MACRef list option \<Rightarrow> string list \<Rightarrow> (string \<times> DecodedInterface) list \<Rightarrow>
   string list \<Rightarrow> nat \<Rightarrow> sock_map \<Rightarrow> 'k world \<Rightarrow> sock_map go \<times> 'k world" where
  "init_all pf flt advMACs iflist ifs [] maci socks w = (Ret socks, w)"
| "init_all pf flt advMACs iflist ifs (k # ks) maci socks w =
     (let maci = original_index k iflist 0 maci in
      case init_one pf flt advMACs maci k (the (map_of ifs k)) socks w of
        (Panic, w) \<Rightarrow> (Panic, w)
      | (Ret socks, w) \<Rightarrow> init_all pf flt advMACs iflist ifs ks maci socks w)"

definition initSockGroup ::
  "'k platform \<Rightarrow> order \<Rightarrow> order \<Rightarrow> sock_map option \<Rightarrow> string list \<Rightarrow> insn list option \<Rightarrow> MACRef list option \<Rightarrow>
   'k world \<Rightarrow> (sock_map \<times> link_error option) go \<times> 'k world" where
  "initSockGroup pf ord1 ord2 socks ifnames flt advMACs w =
     (let iflist = (case socks of None \<Rightarrow> ifnames | Some m \<Rightarrow> ord1 (map fst m));
          m = (case socks of None \<Rightarrow> [] | Some m \<Rightarrow> m)
      in case collectInterfaces (pf_links pf) (pf_iw pf) iflist (w_kern w) of
        (Inl e, k) \<Rightarrow> (Ret (m, Some e), w\<lparr>w_kern := k\<rparr>)
      | (Inr ifs, k) \<Rightarrow>
          (case init_all pf flt advMACs iflist ifs (ord2 (map fst ifs)) 0 m (w\<lparr>w_kern := k\<rparr>) of
             (Panic, w) \<Rightarrow> (Panic, w)
           | (Ret m, w) \<Rightarrow> (Ret (m, None), w)))"

section \<open>Soliciting on the internal interfaces\<close>

text \<open>
  One solicitation per internal socket, in the order of the map, after what the socket has received
  is thrown away. An error ends the loop. \<open>None\<close> is a flush that does not end.
\<close>

definition na_request :: "'k platform \<Rightarrow> bytes \<Rightarrow> bytes \<Rightarrow> slice \<Rightarrow> sref \<Rightarrow> 'k world \<Rightarrow> bytes" where
  "na_request pf dstIP dstMAC ip s w =
     makeICMPv6 (pf_ns pf)
       \<lparr>d_SrcMAC = Some (nif_hw (so_netif (w_heap w s))), d_DstMAC = Some dstMAC,
        d_SrcIP = LinkLocal (pf_sys pf) s w, d_DstIP = Some dstIP, d_Type = 135,
        d_Layer = \<lparr>ns_TargetAddress = ip,
          ns_Options = [new_option 1 (Some (nif_hw (so_netif (w_heap w s))))]\<rparr>\<rparr>"

fun send_requests ::
  "'k platform \<Rightarrow> bytes \<Rightarrow> bytes \<Rightarrow> slice \<Rightarrow> SockRef list \<Rightarrow> 'k world \<Rightarrow> (sock_error option go \<times> 'k world) option" where
  "send_requests pf dstIP dstMAC ip [] w = Some (Ret None, w)"
| "send_requests pf dstIP dstMAC ip (sr # srs) w =
     (case sr_s sr of
        None \<Rightarrow> Some (Panic, w)
      | Some s \<Rightarrow>
          (let packet = na_request pf dstIP dstMAC ip s w in
           case FlushAll (pf_sys pf) s w of
             None \<Rightarrow> None
           | Some w \<Rightarrow>
               (case WriteOnce (pf_sys pf) s packet w of
                  (Some e, w) \<Rightarrow> Some (Ret (Some e), w)
                | (None, w) \<Rightarrow> send_requests pf dstIP dstMAC ip srs w)))"

text \<open>
  The wait for an advertisement: \<open>es\<close> are the times, in nanoseconds, that the rounds take. A round
  whose packet is of no use subtracts its time from \<open>*remain\<close>, which is \<open>nil\<close> without a timeout.
  \<open>None\<close>: still waiting when the schedule ends.
\<close>

definition useful_na :: "'k platform \<Rightarrow> slice \<Rightarrow> slice \<Rightarrow> slice option" where
  "useful_na pf ip packet =
     (case parseICMPv6 (pf_na pf) (bs packet) of
        None \<Rightarrow> None
      | Some na \<Rightarrow>
          if IP_Equal (bs (na_TargetAddress (d_Layer na))) (bs ip) then Some (d_SrcMAC na) else None)"

fun wait_na ::
  "'k platform \<Rightarrow> slice \<Rightarrow> sref list \<Rightarrow> int option \<Rightarrow> int list \<Rightarrow> 'k world \<Rightarrow>
   (sock_error + slice) go option \<times> 'k world" where
  "wait_na pf ip socks remain [] w =
     (if (case remain of None \<Rightarrow> True | Some t \<Rightarrow> t > 0) then (None, w) else (Some (Ret (Inr None)), w))"
| "wait_na pf ip socks remain (e # es) w =
     (if (case remain of None \<Rightarrow> True | Some t \<Rightarrow> t > 0) then
        (case ReadMultiSocksOnce (pf_iw pf) (pf_sys pf) socks remain w of
           ((si, packet, Some err), w) \<Rightarrow> (Some (Ret (Inl err)), w)
         | ((si, packet, None), w) \<Rightarrow>
             if si = -1 then (Some (Ret (Inr None)), w)
             else case useful_na pf ip packet of
               Some hw \<Rightarrow> (Some (Ret (Inr hw)), w)
             | None \<Rightarrow>
                 (case remain of
                    None \<Rightarrow> (Some Panic, w)
                  | Some t \<Rightarrow> wait_na pf ip socks (Some (t - e)) es w))
      else (Some (Ret (Inr None)), w))"

definition na_timeout :: "int \<Rightarrow> int option" where
  "na_timeout timeoutMs = (if timeoutMs \<noteq> 0 then Some (wrap 64 (1000000 * timeoutMs)) else None)"

text \<open>
  \<open>spare\<close> is what the backing array of the target holds beyond it. The outcome is \<open>None\<close> if the
  function has not returned when the schedule ends.
\<close>

definition solicitInternal ::
  "'k platform \<Rightarrow> order \<Rightarrow> 'r NDClient \<Rightarrow> slice \<Rightarrow> bytes \<Rightarrow> int list \<Rightarrow> 'k world \<Rightarrow>
   (sock_error + slice) go option \<times> 'k world" where
  "solicitInternal pf ord c ip spare es w =
     (case multicastAddr (bs ip) spare of
        Panic \<Rightarrow> (Some Panic, w)
      | Ret (dstIP, dstMAC) \<Rightarrow>
          (let m = (case ncl_intSocks c of None \<Rightarrow> [] | Some m \<Rightarrow> m);
               refs = map (\<lambda>k. the (map_of m k)) (ord (map fst m))
           in case send_requests pf dstIP dstMAC ip refs w of
             None \<Rightarrow> (None, w)
           | Some (Panic, w) \<Rightarrow> (Some Panic, w)
           | Some (Ret (Some e), w) \<Rightarrow> (Some (Ret (Inl e)), w)
           | Some (Ret None, w) \<Rightarrow>
               wait_na pf ip (map (\<lambda>sr. the (sr_s sr)) refs) (na_timeout (ndc_timeoutMs (ncl_cfg c))) es w))"

section \<open>Answering\<close>

text \<open>
  Who has the address: \<open>None\<close> while the proxy is still waiting; a failed lookup is only logged. The
  commands LookupNeighbor leaves running in the background come with the result.
\<close>

definition find_neighbor ::
  "'k platform \<Rightarrow> order \<Rightarrow> 'r NDClient \<Rightarrow> slice \<Rightarrow> bytes \<Rightarrow> int list \<Rightarrow> 'k world \<Rightarrow> 'r \<Rightarrow>
   (slice \<times> string list list) go option \<times> 'k world \<times> 'r" where
  "find_neighbor pf ord c ip spare es w r =
     (let mode = ndc_mode (ncl_cfg c) in
      if mode = ''static'' then (Some (Ret (Some (replicate 6 0), [])), w, r)
      else if mode = ''proxy'' then
        (case solicitInternal pf ord c ip spare es w of
           (None, w) \<Rightarrow> (None, w, r)
         | (Some Panic, w) \<Rightarrow> (Some Panic, w, r)
         | (Some (Ret (Inl e)), w) \<Rightarrow> (Some (Ret (None, [])), w, r)
         | (Some (Ret (Inr hw)), w) \<Rightarrow> (Some (Ret (hw, [])), w, r))
      else if mode = ''proxy-ros'' \<or> mode = ''proxy-ros:strict'' then
        (case ncl_ros c of
           None \<Rightarrow> (Some Panic, w, r)
         | Some run \<Rightarrow>
             (case LookupNeighbor run (bs ip) (ndc_timeoutMs (ncl_cfg c)) (mode = ''proxy-ros:strict'') r of
                (Inl e, bg, r) \<Rightarrow> (Some (Ret (None, bg)), w, r)
              | (Inr hw, bg, r) \<Rightarrow> (Some (Ret (hw, bg)), w, r)))
      else (Some (Ret (None, [])), w, r))"

text \<open>The hardware address to advertise; one that RouterOS does not tell is \<open>nil\<close>, with a warning.\<close>

definition advertised_mac :: "'r run option \<Rightarrow> MACRef \<Rightarrow> 'r \<Rightarrow> slice go \<times> 'r" where
  "advertised_mac ros m r =
     (if mr_rosIf m = [] then (Ret (mr_hwaddr m), r)
      else case ros of
        None \<Rightarrow> (Panic, r)
      | Some run \<Rightarrow>
          (case GetInterfaceMAC run (mr_rosIf m) r of
             (Inl e, r) \<Rightarrow> (Ret None, r)
           | (Inr hw, r) \<Rightarrow> (Ret (Some hw), r)))"

definition na_reply :: "slice \<Rightarrow> slice \<Rightarrow> slice \<Rightarrow> slice \<Rightarrow> NeighborAdvertisement ICMPv6Data" where
  "na_reply hwaddr targetIP srcMAC srcIP =
     \<lparr>d_SrcMAC = hwaddr, d_DstMAC = srcMAC, d_SrcIP = targetIP, d_DstIP = srcIP, d_Type = 136,
      d_Layer = \<lparr>na_Flags = 0x40, na_TargetAddress = targetIP, na_Options = [new_option 2 hwaddr]\<rparr>\<rparr>"

record solicitation =
  so_target :: slice
  so_spare :: bytes
  so_srcMAC :: slice
  so_srcIP :: slice

definition processNd ::
  "'k platform \<Rightarrow> order \<Rightarrow> 'r NDClient \<Rightarrow> solicitation \<Rightarrow> SockRef \<Rightarrow> int list \<Rightarrow> 'k world \<Rightarrow> 'r \<Rightarrow>
   unit go option \<times> 'k world \<times> 'r" where
  "processNd pf ord c q ref es w r =
     (case find_neighbor pf ord c (so_target q) (so_spare q) es w r of
        (None, w, r) \<Rightarrow> (None, w, r)
      | (Some Panic, w, r) \<Rightarrow> (Some Panic, w, r)
      | (Some (Ret (None, bg)), w, r) \<Rightarrow> (Some (Ret ()), w, r)
      | (Some (Ret (Some hw, bg)), w, r) \<Rightarrow>
          (case advertised_mac (ncl_ros c) (sr_advMAC ref) r of
             (Panic, r) \<Rightarrow> (Some Panic, w, r)
           | (Ret mac, r) \<Rightarrow>
               (let na = makeICMPv6 (pf_na pf) (na_reply mac (so_target q) (so_srcMAC q) (so_srcIP q)) in
                case sr_s ref of
                  None \<Rightarrow> (Some Panic, w, r)
                | Some s \<Rightarrow> (Some (Ret ()), snd (WriteOnce (pf_sys pf) s na w), r))))"

section \<open>Receiving\<close>

text \<open>
  Whether one of the networks contains the target, for a given resolver: networks that cannot be
  resolved yet are passed over, and the search ends at the first one that contains it.
\<close>

fun in_any ::
  "(RouterInfo option \<Rightarrow> FlexibleIP \<Rightarrow> IPNet option go) \<Rightarrow> RouterInfo option \<Rightarrow> FlexibleIP list \<Rightarrow> bytes \<Rightarrow> bool go" where
  "in_any resolve rinfo [] t = Ret False"
| "in_any resolve rinfo (f # fs) t =
     (case resolve rinfo f of
        Panic \<Rightarrow> Panic
      | Ret None \<Rightarrow> in_any resolve rinfo fs t
      | Ret (Some n) \<Rightarrow> if Contains n t then Ret True else in_any resolve rinfo fs t)"

definition accepts :: "NDConfig \<Rightarrow> RouterInfo option \<Rightarrow> bytes \<Rightarrow> bool go" where
  "accepts cfg rinfo t =
     (case in_any ResolveFIP rinfo (ndc_prefixes cfg) t of
        Panic \<Rightarrow> Panic
      | Ret False \<Rightarrow> Ret False
      | Ret True \<Rightarrow>
          (case in_any ResolveFIP rinfo (ndc_excludes cfg) t of
             Panic \<Rightarrow> Panic
           | Ret ex \<Rightarrow> Ret (\<not> ex)))"

text \<open>
  One round of the receive loop: it fails, passes the packet over, or starts a goroutine that runs
  \<open>processNd\<close>. \<open>rinfo\<close> is the router information at that time, and \<open>spare\<close> what lies
  behind the target in the packet.
\<close>

datatype nd_event = NDFail sock_error | NDIgnore | NDStart solicitation SockRef

definition nd_receive ::
  "'k platform \<Rightarrow> NDConfig \<Rightarrow> SockRef list \<Rightarrow> RouterInfo option \<Rightarrow> bytes \<Rightarrow> 'k world \<Rightarrow> nd_event go \<times> 'k world" where
  "nd_receive pf cfg refs rinfo spare w =
     (case ReadMultiSocksOnce (pf_iw pf) (pf_sys pf) (map (\<lambda>sr. the (sr_s sr)) refs) None w of
        ((si, packet, Some e), w) \<Rightarrow> (Ret (NDFail e), w)
      | ((si, packet, None), w) \<Rightarrow>
          (case (if si < 0 then Panic else go_index refs (nat si)) of
             Panic \<Rightarrow> (Panic, w)
           | Ret sr \<Rightarrow>
               (case parseICMPv6 (pf_ns pf) (bs packet) of
                  None \<Rightarrow> (Ret NDIgnore, w)
                | Some nd \<Rightarrow>
                    (let targetIP = ns_TargetAddress (d_Layer nd) in
                     case accepts cfg rinfo (bs targetIP) of
                       Panic \<Rightarrow> (Panic, w)
                     | Ret False \<Rightarrow> (Ret NDIgnore, w)
                     | Ret True \<Rightarrow>
                         (Ret (NDStart \<lparr>so_target = targetIP, so_spare = spare, so_srcMAC = d_SrcMAC nd,
                            so_srcIP = d_SrcIP nd\<rparr> sr), w)))))"

text \<open>The loop, over the router information (and spare bytes) at each round, with the goroutines it starts.\<close>

fun nd_loop ::
  "'k platform \<Rightarrow> NDConfig \<Rightarrow> SockRef list \<Rightarrow> (RouterInfo option \<times> bytes) list \<Rightarrow> 'k world \<Rightarrow>
   sock_error option go \<times> (solicitation \<times> SockRef) list \<times> 'k world" where
  "nd_loop pf cfg refs [] w = (Ret None, [], w)"
| "nd_loop pf cfg refs ((rinfo, spare) # rest) w =
     (case nd_receive pf cfg refs rinfo spare w of
        (Panic, w) \<Rightarrow> (Panic, [], w)
      | (Ret (NDFail e), w) \<Rightarrow> (Ret (Some e), [], w)
      | (Ret NDIgnore, w) \<Rightarrow> nd_loop pf cfg refs rest w
      | (Ret (NDStart q sr), w) \<Rightarrow>
          (let (res, jobs, w) = nd_loop pf cfg refs rest w in (res, (q, sr) # jobs, w)))"

datatype nd_error = NDLink link_error | NDSock sock_error

record nd_schedule =
  sch_ext1 :: order
  sch_ext2 :: order
  sch_int1 :: order
  sch_int2 :: order
  sch_refs :: order
  sch_packets :: "(RouterInfo option \<times> bytes) list"
  sch_done :: bool

definition mac_slice :: "MACRef list \<Rightarrow> MACRef list option" where
  "mac_slice ms = (if ms = [] then None else Some ms)"

definition ND_workInternal ::
  "'k platform \<Rightarrow> nd_schedule \<Rightarrow> 'r NDClient \<Rightarrow> 'k world \<Rightarrow>
   nd_error option go \<times> (solicitation \<times> SockRef) list \<times> 'r NDClient \<times> 'k world" where
  "ND_workInternal pf sch c w =
     (let cfg = ncl_cfg c in
      case initSockGroup pf (sch_ext1 sch) (sch_ext2 sch) (ncl_extSocks c) (ndc_extIfs cfg) (Some bpfND)
          (mac_slice (ndc_advMACs cfg)) w of
        (Panic, w) \<Rightarrow> (Panic, [], c, w)
      | (Ret (m, Some e), w) \<Rightarrow> (Ret (Some (NDLink e)), [], c\<lparr>ncl_extSocks := Some m\<rparr>, w)
      | (Ret (m, None), w) \<Rightarrow>
          (let c = c\<lparr>ncl_extSocks := Some m\<rparr> in
           case (if ndc_mode cfg = ''proxy'' then
               (case initSockGroup pf (sch_int1 sch) (sch_int2 sch) (ncl_intSocks c) (ndc_intIfs cfg)
                   (Some (bpfICMPv6 136)) None w of
                  (Panic, w) \<Rightarrow> (Panic, c, w)
                | (Ret (im, e), w) \<Rightarrow> (Ret e, c\<lparr>ncl_intSocks := Some im\<rparr>, w))
             else (Ret None, c, w)) of
             (Panic, c, w) \<Rightarrow> (Panic, [], c, w)
           | (Ret (Some e), c, w) \<Rightarrow> (Ret (Some (NDLink e)), [], c, w)
           | (Ret None, c, w) \<Rightarrow>
               (let refs = map (\<lambda>k. the (map_of m k)) (sch_refs sch (map fst m));
                    (res, jobs, w) = nd_loop pf cfg refs (sch_packets sch) w
                in (case res of Panic \<Rightarrow> Panic | Ret e \<Rightarrow> Ret (map_option NDSock e), jobs, c, w))))"

fun ND_Work ::
  "'k platform \<Rightarrow> nd_schedule list \<Rightarrow> 'r NDClient \<Rightarrow> 'k world \<Rightarrow>
   nd_error option go \<times> (solicitation \<times> SockRef) list \<times> 'r NDClient \<times> 'k world" where
  "ND_Work pf [] c w = (Ret None, [], c, w)"
| "ND_Work pf (sch # rounds) c w =
     (case ND_workInternal pf sch c w of
        (Ret (Some e), jobs, c, w) \<Rightarrow>
          if sch_done sch then (Ret (Some e), jobs, c, w)
          else (let (res, jobs', c, w) = ND_Work pf rounds c w in (res, jobs @ jobs', c, w))
      | (res, jobs, c, w) \<Rightarrow> (res, jobs, c, w))"

end
