(* ===== verification/NDProps.thy ===== *)
theory NDProps
  imports ND RAProps "HOL-Library.Multiset"
begin

text \<open>
  Properties of the neighbour discovery proxy: which solicitations it answers, what it answers,
  which hardware address goes with which interface, what its own solicitations accept, and the ways
  in which its worker stops working.
\<close>

section \<open>The choice of solicitations\<close>

text \<open>What the search needs of the resolver is its interface: the lemmas hold in it.\<close>

context resolver begin

lemma in_any_spec:
  assumes "\<forall>f\<in>set fs. wf_fip f" "\<And>ri. rinfo = Some ri \<Longrightarrow> rinfo_shape ri"
  shows "in_any resolve rinfo fs t = Ret (\<exists>f\<in>set fs. \<exists>n. resolve rinfo f = Ret (Some n) \<and> Contains n t)"
  using assms(1)
proof (induction fs)
  case Nil
  then show ?case by simp
next
  case (Cons f fs)
  then obtain r where r: "resolve rinfo f = Ret r"
    using returns [of f rinfo] assms(2) by (cases "resolve rinfo f") auto
  with Cons show ?case by (cases r) auto
qed

lemma in_any_unknown:
  assumes "\<forall>f\<in>set fs. wf_fip f \<and> fip_raPrefix f \<and> (\<forall>n. resolve None f \<noteq> Ret (Some n))"
  shows "in_any resolve None fs t = Ret False"
  using in_any_spec [of fs None t] assms by auto

end

definition in_nets :: "RouterInfo option \<Rightarrow> FlexibleIP list \<Rightarrow> bytes \<Rightarrow> bool" where
  "in_nets rinfo fs t \<longleftrightarrow> (\<exists>f\<in>set fs. \<exists>n. ResolveFIP rinfo f = Ret (Some n) \<and> Contains n t)"

lemma accepts_spec:
  assumes "wf_nd racfg cfg" "\<And>ri. rinfo = Some ri \<Longrightarrow> rinfo_shape ri"
  shows "accepts cfg rinfo t = Ret (in_nets rinfo (ndc_prefixes cfg) t \<and> \<not> in_nets rinfo (ndc_excludes cfg) t)"
proof -
  have wf: "\<forall>f\<in>set (ndc_prefixes cfg). wf_fip f" "\<forall>f\<in>set (ndc_excludes cfg). wf_fip f"
    using assms(1) by (auto simp: wf_nd_def)
  show ?thesis
    using ra.in_any_spec [OF wf(1) assms(2)] ra.in_any_spec [OF wf(2) assms(2)]
    by (simp add: accepts_def in_nets_def split: bool.splits)
qed

section \<open>Networks within networks\<close>

lemma same_prefix_le: "same_prefix k a b \<Longrightarrow> j \<le> k \<Longrightarrow> k \<le> 128 \<Longrightarrow> same_prefix j a b"
proof -
  assume "same_prefix k a b" "j \<le> k" "k \<le> 128"
  then have "drop_bit (k - j) (drop_bit (128 - k) (addr_of a)) = drop_bit (k - j) (drop_bit (128 - k) (addr_of b))"
    "128 - j = (k - j) + (128 - k)"
    by (auto simp: same_prefix_def)
  then show ?thesis by (simp add: same_prefix_def drop_bit_drop_bit)
qed

lemma same_prefix_trans: "same_prefix k a b \<Longrightarrow> same_prefix k b c \<Longrightarrow> same_prefix k a c"
  by (simp add: same_prefix_def)

lemma masked_byte_full: "masked_byte d s 0xff = s"
proof -
  have "(0xff :: byte) = -1" by simp
  then show ?thesis unfolding masked_byte_def by (simp only:) simp
qed

text \<open>An address relative to the prefix \<open>P/k\<close> agrees with it in the first \<open>k\<close> bits.\<close>

lemma resolved_prefix:
  assumes "wf_fip f" "fip_raPrefix f" "length P = 16" "k \<le> 128"
    and "ri_prefix ri = \<lparr>net_IP = Some P, net_Mask = CIDRMask (int k) 128\<rparr>"
  shows "\<exists>ip. ResolveFIP (Some ri) f = Ret (Some \<lparr>net_IP = Some ip,
         net_Mask = Some (mask_bytes 16 (if fip_cidr f = -1 then k else nat (fip_cidr f)))\<rparr>) \<and>
     length ip = 16 \<and> same_prefix k ip P \<and> (8 \<le> k \<longrightarrow> ip ! 0 = P ! 0)"
proof -
  let ?ip = "maskedIPAssign (copy16 (fip_ip f)) P (mask_bytes 16 k)"
  have "addr_of ?ip AND addr_of (mask_bytes 16 k) = addr_of P AND addr_of (mask_bytes 16 k)"
    using assms(3) by (simp add: maskedIPAssign_addr and_or_absorb)
  then have "same_prefix k ?ip P"
    using and_mask_eq_same_prefix [OF assms(4)] by blast
  moreover have "?ip ! 0 = P ! 0" if "8 \<le> k"
    using that assms(3) mask_byte_full [of 0 k]
    by (simp add: maskedIPAssign_def masked_byte_full del: mask_bytes.simps)
  moreover have "ResolveFIP (Some ri) f = Ret (Some \<lparr>net_IP = Some ?ip,
         net_Mask = Some (mask_bytes 16 (if fip_cidr f = -1 then k else nat (fip_cidr f)))\<rparr>)"
    using assms by (cases "fip_cidr f = -1") (auto simp: ResolveFIP_def Let_def CIDRMask_cases wf_fip_def)
  ultimately show ?thesis by (intro exI [where x = ?ip]) simp
qed

lemma To4_first: "length ip = 16 \<Longrightarrow> ip ! 0 \<noteq> 0 \<Longrightarrow> To4 ip = None"
proof -
  assume *: "length ip = 16" "ip ! 0 \<noteq> 0"
  have "take 12 ip \<noteq> v4InV6Prefix"
  proof
    assume "take 12 ip = v4InV6Prefix"
    then have "take 12 ip ! 0 = v4InV6Prefix ! 0" by simp
    with *(2) show False by (simp add: v4InV6Prefix_def nth_append)
  qed
  with *(1) show ?thesis by (simp add: To4_def)
qed

lemma exclude_covers:
  assumes "wf_fip f" "fip_raPrefix f" "0 \<le> fip_cidr f" "fip_cidr f \<le> int k" "k \<le> 128" "8 \<le> k"
    and "length P = 16" "P ! 0 \<noteq> 0" "ri_prefix ri = \<lparr>net_IP = Some P, net_Mask = CIDRMask (int k) 128\<rparr>"
    and "length t = 16" "To4 t = None" "same_prefix k P t"
  shows "\<exists>n. ResolveFIP (Some ri) f = Ret (Some n) \<and> Contains n t"
proof -
  let ?j = "nat (fip_cidr f)"
  obtain ip where ip: "ResolveFIP (Some ri) f = Ret (Some \<lparr>net_IP = Some ip, net_Mask = Some (mask_bytes 16 ?j)\<rparr>)"
      "length ip = 16" "same_prefix k ip P" "ip ! 0 = P ! 0"
    using resolved_prefix [OF assms(1,2,7,5,9)] assms(3,6) by auto
  have "same_prefix ?j ip t"
    using same_prefix_le [OF same_prefix_trans [OF ip(3) assms(12)]] assms(4,5) by simp
  moreover have "To4 ip = None" using ip(2,4) assms(8) To4_first by simp
  ultimately have "Contains \<lparr>net_IP = Some ip, net_Mask = Some (mask_bytes 16 ?j)\<rparr> t"
    using assms(4,5,10,11) ip(2) by (simp add: Contains_iff)
  with ip(1) show ?thesis by blast
qed

section \<open>Socket groups\<close>

lemma original_index_range:
  "k \<in> set names \<Longrightarrow> original_index k names i j = original_index k names i j' \<and>
     i \<le> original_index k names i j \<and> original_index k names i j < i + length names \<and>
     names ! (original_index k names i j - i) = k"
proof (induction names arbitrary: i)
  case Nil
  then show ?case by simp
next
  case (Cons n names)
  show ?case
  proof (cases "k = n")
    case False
    with Cons(1) [of "Suc i"] Cons(2) show ?thesis by (auto simp: nth_Cons')
  qed simp
qed

text \<open>
  What a group holds: under every name a socket of that name, with the hardware address at the first
  position of the name in the list.
\<close>

definition mac_at :: "string list \<Rightarrow> MACRef list option \<Rightarrow> string \<Rightarrow> MACRef" where
  "mac_at names ms k = (case ms of None \<Rightarrow> zero_mac | Some ms \<Rightarrow> ms ! original_index k names 0 0)"

definition group_ok :: "string list \<Rightarrow> MACRef list option \<Rightarrow> sock_map \<Rightarrow> bool" where
  "group_ok names ms m \<longleftrightarrow> distinct (map fst m) \<and>
     (\<forall>(k, sr)\<in>set m. k \<in> set names \<and> sr_name sr = k \<and> sr_s sr \<noteq> None \<and> sr_advMAC sr = mac_at names ms k)"

lemma group_ok_update:
  assumes "group_ok names ms m" "k \<in> set names" "sr_advMAC sr = mac_at names ms k" "sr_name sr = k" "sr_s sr \<noteq> None"
  shows "group_ok names ms (AList.update k sr m)"
proof -
  have "(j, s) \<in> set m \<or> (j, s) = (k, sr)" if "(j, s) \<in> set (AList.update k sr m)" for j s
    using that by (induction m) (auto split: if_splits)
  with assms show ?thesis by (fastforce simp: group_ok_def distinct_update)
qed

lemma init_one_ok:
  assumes "init_one pf flt ms (original_index k names 0 j) k di m w = (r, w')" "k \<in> set names" "group_ok names ms m"
  shows "r \<noteq> Panic \<Longrightarrow> group_ok names ms (go_val r)"
    "(\<forall>l. ms = Some l \<longrightarrow> length names \<le> length l) \<Longrightarrow> r \<noteq> Panic"
proof -
  note idx = original_index_range [OF assms(2), of 0 j 0]
  have "r \<noteq> Panic \<longrightarrow> go_val r = m \<or>
      (\<exists>s. go_val r = AList.update k \<lparr>sr_name = k, sr_s = Some s, sr_advMAC = mac_at names ms k\<rparr> m)"
    using assms(1) idx unfolding init_one_def Let_def mac_at_def
    by (auto split: if_splits prod.splits sum.splits option.splits go.splits simp: go_index_def)
  then show "group_ok names ms (go_val r)" if "r \<noteq> Panic"
    using that assms(2,3) group_ok_update [OF assms(3,2)] by fastforce
  show "r \<noteq> Panic" if "\<forall>l. ms = Some l \<longrightarrow> length names \<le> length l"
    using assms(1) idx that unfolding init_one_def Let_def
    by (auto split: if_splits prod.splits sum.splits option.splits go.splits simp: go_index_def)
qed

lemma init_all_ok:
  assumes "init_all pf flt ms names ifs ks j m w = (r, w')" "set ks \<subseteq> set names" "group_ok names ms m"
  shows "(r \<noteq> Panic \<longrightarrow> group_ok names ms (go_val r)) \<and>
     ((\<forall>l. ms = Some l \<longrightarrow> length names \<le> length l) \<longrightarrow> r \<noteq> Panic)"
  using assms
proof (induction ks arbitrary: j m w)
  case Nil
  then show ?case by auto
next
  case (Cons k ks)
  let ?i = "original_index k names 0 j"
  obtain r1 w1 where one: "init_one pf flt ms ?i k (the (map_of ifs k)) m w = (r1, w1)" by fastforce
  have k: "k \<in> set names" using Cons.prems(2) by simp
  note ok = init_one_ok [OF one k Cons.prems(3)]
  show ?case
  proof (cases r1)
    case Panic
    with Cons.prems(1) one ok show ?thesis by (auto simp: Let_def)
  next
    case (Ret m1)
    with Cons.prems(1) one have "init_all pf flt ms names ifs ks ?i m1 w1 = (r, w')" by (simp add: Let_def)
    with Cons.IH Cons.prems(2) ok(1) Ret show ?thesis by simp
  qed
qed

lemma collect_keys:
  "collect ops iw names dis k = (dis', k') \<Longrightarrow> fst ` set dis' \<subseteq> fst ` set dis \<union> set names"
proof (induction names arbitrary: dis k)
  case Nil
  then show ?case by simp
next
  case (Cons n names)
  show ?case
  proof (cases "NewDecodedInterface iw n")
    case (Inl e)
    with Cons.prems Cons.IH [of dis k] show ?thesis by auto
  next
    case (Inr di)
    obtain ok k1 where ex: "Exists ops di k = (ok, k1)" by fastforce
    have "fst ` set (AList.update n di dis) = insert n (fst ` set dis)"
      by (simp add: dom_map_of_conv_image_fst [symmetric] update_conv')
    with Cons.IH [of "if ok then AList.update n di dis else dis" k1] Cons.prems Inr ex
    show ?thesis by (auto split: if_splits)
  qed
qed

text \<open>The order of a range is some order of the keys.\<close>

definition fair :: "order \<Rightarrow> bool" where
  "fair ord \<longleftrightarrow> (\<forall>ks. mset (ord ks) = mset ks)"

lemma fair_set: "fair ord \<Longrightarrow> set (ord ks) = set ks"
  unfolding fair_def by (metis set_mset_mset)

lemma fair_Nil: "fair ord \<Longrightarrow> ord [] = []"
  unfolding fair_def by (metis mset_zero_iff)

lemma initSockGroup_first:
  assumes "initSockGroup pf ord1 ord2 None names flt ms w = (r, w')" "fair ord2"
  shows "r \<noteq> Panic \<Longrightarrow> group_ok names ms (fst (go_val r))"
    "(\<forall>l. ms = Some l \<longrightarrow> length names \<le> length l) \<Longrightarrow> r \<noteq> Panic"
proof -
  obtain x k where coll: "collectInterfaces (pf_links pf) (pf_iw pf) names (w_kern w) = (x, k)" by fastforce
  have nil: "group_ok names ms []" by (simp add: group_ok_def)
  have "(r \<noteq> Panic \<longrightarrow> group_ok names ms (fst (go_val r))) \<and>
     ((\<forall>l. ms = Some l \<longrightarrow> length names \<le> length l) \<longrightarrow> r \<noteq> Panic)"
  proof (cases x)
    case (Inl e)
    with assms(1) coll nil show ?thesis by (auto simp: initSockGroup_def Let_def)
  next
    case (Inr ifs)
    with coll have "collect (pf_links pf) (pf_iw pf) names [] (w_kern w) = (ifs, k)"
      by (auto simp: collectInterfaces_def Let_def split: prod.splits if_splits)
    then have keys: "set (ord2 (map fst ifs)) \<subseteq> set names"
      using collect_keys fair_set [OF assms(2)] by fastforce
    obtain r1 w1 where all: "init_all pf flt ms names ifs (ord2 (map fst ifs)) 0 [] (w\<lparr>w_kern := k\<rparr>) = (r1, w1)"
      by fastforce
    from init_all_ok [OF this keys nil] assms(1) coll Inr all show ?thesis
      by (cases r1) (auto simp: initSockGroup_def Let_def)
  qed
  then show "r \<noteq> Panic \<Longrightarrow> group_ok names ms (fst (go_val r))"
    "(\<forall>l. ms = Some l \<longrightarrow> length names \<le> length l) \<Longrightarrow> r \<noteq> Panic" by auto
qed

text \<open>An empty group stays empty: its own keys are the interfaces it looks for.\<close>

lemma initSockGroup_empty:
  "fair ord1 \<Longrightarrow> initSockGroup pf ord1 ord2 (Some []) names flt ms w = (Ret ([], Some (NoneUsable [])), w)"
  by (simp add: initSockGroup_def collectInterfaces_def fair_Nil)

lemma initSockGroup_error: "initSockGroup pf ord1 ord2 None names flt ms w = (Ret (m, Some e), w') \<Longrightarrow> m = []"
  by (auto simp: initSockGroup_def Let_def split: prod.splits sum.splits go.splits)

lemma ND_Work_empty:
  assumes "ncl_extSocks c = Some []" "\<forall>sch\<in>set rounds. fair (sch_ext1 sch)"
  shows "\<exists>res. ND_Work pf rounds c w = (Ret res, [], c, w)"
  using assms(2)
proof (induction rounds)
  case Nil
  then show ?case by simp
next
  case (Cons sch rounds)
  have "c\<lparr>ncl_extSocks := Some []\<rparr> = c" using assms(1) by (cases c) simp
  with Cons.prems assms(1) have "ND_workInternal pf sch c w = (Ret (Some (NDLink (NoneUsable []))), [], c, w)"
    by (simp add: ND_workInternal_def initSockGroup_empty Let_def)
  with Cons show ?case by auto
qed

lemma original_index_first:
  "k \<in> set names \<Longrightarrow> \<forall>h < original_index k names i j - i. names ! h \<noteq> k"
proof (induction names arbitrary: i)
  case Nil
  then show ?case by simp
next
  case (Cons n names)
  show ?case
  proof (cases "k = n")
    case False
    with Cons(2) have k: "k \<in> set names" by simp
    show ?thesis
    proof (intro allI impI)
      fix h
      assume "h < original_index k (n # names) i j - i"
      with False Cons(1) [OF k, of "Suc i"] show "(n # names) ! h \<noteq> k" by (cases h) auto
    qed
  qed simp
qed

section \<open>Waiting\<close>

lemma wait_na_useful:
  assumes "wait_na pf ip socks remain es w = (Some (Ret (Inr (Some hw))), w')"
  shows "\<exists>t w1 i p. ReadMultiSocksOnce (pf_iw pf) (pf_sys pf) socks t w1 = ((i, p, None), w') \<and>
     useful_na pf ip p = Some (Some hw)"
  using assms
proof (induction es arbitrary: remain w)
  case Nil
  then show ?case by (auto split: if_splits)
next
  case (Cons e es)
  obtain i p err w1 where read: "ReadMultiSocksOnce (pf_iw pf) (pf_sys pf) socks remain w = ((i, p, err), w1)"
    by (metis prod_cases3 surj_pair)
  show ?case
  proof (cases "err = None \<and> i \<noteq> -1 \<and> useful_na pf ip p \<noteq> None")
    case True
    with Cons.prems read show ?thesis by (auto split: if_splits)
  next
    case False
    with Cons read show ?thesis by (auto split: if_splits option.splits)
  qed
qed

lemma wait_na_returns:
  assumes "0 < d" "\<forall>e\<in>set es. d \<le> e" "t \<le> d * int (length es)"
  shows "\<exists>x w'. wait_na pf ip socks (Some t) es w = (Some (Ret x), w')"
  using assms(2,3)
proof (induction es arbitrary: t w)
  case Nil
  then show ?case by simp
next
  case (Cons e es)
  obtain i p err w1 where read: "ReadMultiSocksOnce (pf_iw pf) (pf_sys pf) socks (Some t) w = ((i, p, err), w1)"
    by (metis prod_cases3 surj_pair)
  have "d * int (length (e # es)) = d + d * int (length es)" by (simp add: algebra_simps)
  with Cons.prems have "t - e \<le> d * int (length es)" by simp
  with Cons.IH [of "t - e" w1] Cons.prems(1)
  have "\<exists>x w'. wait_na pf ip socks (Some (t - e)) es w1 = (Some (Ret x), w')" by simp
  with read show ?case by (cases err; cases "i = -1"; cases "useful_na pf ip p") auto
qed

section \<open>Properties\<close>

text \<open>C3: for a loaded configuration and any router information the client can have, a solicitation is
  answered exactly if one of the configured networks that can be resolved contains the target and
  none of the excluded ones does; the test does not panic.\<close>

theorem accepts_correct:
  assumes "wf_nd racfg cfg" "\<And>ri. rinfo = Some ri \<Longrightarrow> rinfo_shape ri"
  shows "accepts cfg rinfo t = Ret (in_nets rinfo (ndc_prefixes cfg) t \<and> \<not> in_nets rinfo (ndc_excludes cfg) t)"
  using assms by (rule accepts_spec)

text \<open>C24: an excluded address relative to the router's prefix excludes the whole prefix if its length is at most
  that of the prefix: a proxy for the bare \<open>ra-prefix\<close> then answers no solicitation for an
  address under it, be the excluded address an assignment like \<open>ra-prefix::2/64\<close>.\<close>

theorem exclude_swallows_prefix:
  assumes "wf_nd racfg cfg" "rinfo_shape ri" "ri_prefix ri = \<lparr>net_IP = Some P, net_Mask = CIDRMask (int k) 128\<rparr>"
    and "length P = 16" "P ! 0 \<noteq> 0" "8 \<le> k" "k \<le> 128"
    and "f \<in> set (ndc_excludes cfg)" "fip_raPrefix f" "0 \<le> fip_cidr f" "fip_cidr f \<le> int k"
    and "length t = 16" "To4 t = None" "same_prefix k P t"
  shows "accepts cfg (Some ri) t = Ret False"
proof -
  have "wf_fip f" using assms(1,8) by (simp add: wf_nd_def)
  then have "in_nets (Some ri) (ndc_excludes cfg) t"
    using exclude_covers [of f k P ri t] assms unfolding in_nets_def by blast
  with accepts_spec [OF assms(1), of "Some ri" t] assms(2) show ?thesis by simp
qed

text \<open>C28: when the sockets are first made and there is a hardware address for every interface, every socket
  of the group gets the address at the first position of its interface in the configured list,
  whatever the order of the map, and nothing panics.\<close>

theorem group_macs:
  assumes "initSockGroup pf ord1 ord2 None names flt (Some ms) w = (r, w')" "fair ord2" "length names \<le> length ms"
  shows "\<exists>m e. r = Ret (m, e) \<and> distinct (map fst m) \<and>
     (\<forall>(k, sr)\<in>set m. sr_name sr = k \<and>
        (\<exists>i<length names. names ! i = k \<and> (\<forall>j<i. names ! j \<noteq> k) \<and> sr_advMAC sr = ms ! i))"
proof -
  note first = initSockGroup_first [OF assms(1,2)]
  have "r \<noteq> Panic" using first(2) assms(3) by simp
  then obtain m e where r: "r = Ret (m, e)" by (cases r) auto
  with first(1) have ok: "group_ok names (Some ms) m" by simp
  have "\<exists>i<length names. names ! i = k \<and> (\<forall>j<i. names ! j \<noteq> k) \<and> sr_advMAC sr = ms ! i"
    if "(k, sr) \<in> set m" for k sr
  proof (intro exI conjI)
    have k: "k \<in> set names" "sr_advMAC sr = ms ! original_index k names 0 0"
      using ok that by (auto simp: group_ok_def mac_at_def)
    show "original_index k names 0 0 < length names" "names ! original_index k names 0 0 = k"
      using original_index_range [OF k(1), of 0 0 0] by simp_all
    show "\<forall>j<original_index k names 0 0. names ! j \<noteq> k"
      using original_index_first [OF k(1), of 0 0] by simp
    show "sr_advMAC sr = ms ! original_index k names 0 0" by (rule k(2))
  qed
  with ok r show ?thesis by (auto simp: group_ok_def)
qed

text \<open>C19: if none of the external interfaces can be used when the proxy starts, it never works again:
  whatever the kernel offers later, no round of the worker finds an interface or receives a
  solicitation.\<close>

theorem failed_start_is_permanent:
  assumes "initSockGroup pf (sch_ext1 sch) (sch_ext2 sch) None (ndc_extIfs cfg) (Some bpfND)
      (mac_slice (ndc_advMACs cfg)) w = (Ret (m, Some e), w1)"
  shows "\<exists>c. ND_workInternal pf sch (NewNDClient cfg ros) w = (Ret (Some (NDLink e)), [], c, w1) \<and>
     (\<forall>pf' rounds w2. (\<forall>s\<in>set rounds. fair (sch_ext1 s)) \<longrightarrow>
        (\<exists>res. ND_Work pf' rounds c w2 = (Ret res, [], c, w2)))"
proof -
  let ?c = "(NewNDClient cfg ros)\<lparr>ncl_extSocks := Some []\<rparr>"
  have "ND_workInternal pf sch (NewNDClient cfg ros) w = (Ret (Some (NDLink e)), [], ?c, w1)"
    using assms initSockGroup_error [OF assms] by (simp add: ND_workInternal_def NewNDClient_def)
  then show ?thesis
    by (intro exI [where x = ?c] conjI allI impI ND_Work_empty) simp_all
qed

text \<open>C29: a hardware address that the proxy's own solicitation returns was the source of an advertisement
  for the very address it asked for, read from one of the sockets.\<close>

theorem wait_na_matches:
  assumes "wait_na pf ip socks remain es w = (Some (Ret (Inr (Some hw))), w')"
  shows "\<exists>t w1 i p na. ReadMultiSocksOnce (pf_iw pf) (pf_sys pf) socks t w1 = ((i, p, None), w') \<and>
     parseICMPv6 (pf_na pf) (bs p) = Some na \<and> IP_Equal (bs (na_TargetAddress (d_Layer na))) (bs ip) \<and>
     d_SrcMAC na = Some hw"
  using wait_na_useful [OF assms] unfolding useful_na_def
  by (auto split: option.splits if_splits) blast

text \<open>C30: with a timeout the wait for an advertisement ends without a panic: if every round takes at least
  \<open>d\<close> nanoseconds, after at most the timeout divided by \<open>d\<close> rounds, rounded up.\<close>

theorem wait_na_terminates:
  assumes "0 < d" "\<forall>e\<in>set es. d \<le> e" "t \<le> d * int (length es)"
  shows "\<exists>x w'. wait_na pf ip socks (Some t) es w = (Some (Ret x), w')"
  using assms by (rule wait_na_returns)

text \<open>Without a timeout (\<open>NDP_TIMEOUT=0\<close>) the first packet that is not the advertisement asked for
  panics: the time is subtracted through a \<open>nil\<close> pointer.\<close>

theorem unlimited_wait_panics:
  assumes "ReadMultiSocksOnce (pf_iw pf) (pf_sys pf) socks None w = ((i, p, None), w')" "i \<noteq> -1"
    and "useful_na pf ip p = None"
  shows "wait_na pf ip socks (na_timeout 0) (e # es) w = (Some Panic, w')"
  using assms by (simp add: na_timeout_def)

text \<open>C20: when the only external interface hangs up, for instance because it is removed, the receive loop
  indexes its sockets with -1: the daemon ends instead of starting again.\<close>

theorem hangup_ends_daemon:
  assumes "epoll_create1 (pf_sys pf) (w_kern w) = (Some epfd, k1)" "sr_s sr = Some s"
    and "epoll_ctl_add (pf_sys pf) epfd (so_fd (w_heap w s)) \<lparr>ev_events = EPOLLIN, ev_fd = wrap 32 (so_fd (w_heap w s))\<rparr> k1 = (True, k2)"
    and "epoll_wait (pf_sys pf) epfd 1 (-1) k2 = (Some [\<lparr>ev_events = EPOLLHUP, ev_fd = so_fd (w_heap w s)\<rparr>], k3)"
  shows "fst (nd_loop pf cfg [sr] ((rinfo, spare) # rest) w) = Panic"
proof -
  obtain w' where "ReadMultiSocksOnce (pf_iw pf) (pf_sys pf) [s] None w = ((-1, None, None), w')"
    using hangup_timeout [OF assms(1,3,4), of "pf_iw pf"] by (metis prod.collapse)
  then have "nd_receive pf cfg [sr] rinfo spare w = (Panic, w')"
    using assms(2) by (simp add: nd_receive_def)
  then show ?thesis by simp
qed


text \<open>The witnesses: a proxy for the bare \<open>ra-prefix\<close> that excludes one address.\<close>

definition sample_nd :: "string \<Rightarrow> int \<Rightarrow> NDConfig" where
  "sample_nd mode len =
     \<lparr>ndc_mode = mode, ndc_timeoutMs = 1000,
      ndc_prefixes = [\<lparr>fip_raPrefix = True, fip_ip = None, fip_cidr = -1\<rparr>],
      ndc_excludes = [sample_fip\<lparr>fip_cidr := len\<rparr>], ndc_extIfs = [''eth0''], ndc_intIfs = [],
      ndc_advMACs = [\<lparr>mr_hwaddr = Some (replicate 6 4), mr_rosIf = []\<rparr>]\<rparr>"

definition sample_target :: bytes where
  "sample_target = [0x20, 1, 0xd, 0xb8] @ replicate 11 0 @ [2]"

lemma sample_nd_wf: "0 \<le> len \<Longrightarrow> len \<le> 128 \<Longrightarrow> wf_nd sample_ra (sample_nd ''static'' len)"
  by (simp add: wf_nd_def sample_nd_def ndp_modes_def wf_fip_def sample_ra_def sample_fip_def)

lemma sample_target_simps: "length sample_target = 16" "To4 sample_target = None"
  "same_prefix 64 sample_prefix sample_target" "sample_prefix ! 0 \<noteq> 0"
  by code_simp+

theorem accepts_correct_witness:
  "accepts (sample_nd ''static'' 128) (Some sample_info) sample_target =
     Ret (in_nets (Some sample_info) (ndc_prefixes (sample_nd ''static'' 128)) sample_target \<and>
       \<not> in_nets (Some sample_info) (ndc_excludes (sample_nd ''static'' 128)) sample_target) \<and>
   accepts (sample_nd ''static'' 128) (Some sample_info) sample_target = Ret True"
proof
  show "accepts (sample_nd ''static'' 128) (Some sample_info) sample_target =
     Ret (in_nets (Some sample_info) (ndc_prefixes (sample_nd ''static'' 128)) sample_target \<and>
       \<not> in_nets (Some sample_info) (ndc_excludes (sample_nd ''static'' 128)) sample_target)"
    by (rule accepts_correct [OF sample_nd_wf]) (auto simp: sample_info_shape)
  show "accepts (sample_nd ''static'' 128) (Some sample_info) sample_target = Ret True"
    by code_simp
qed

theorem exclude_swallows_prefix_witness:
  "accepts (sample_nd ''static'' 64) (Some sample_info) sample_target = Ret False"
  by (rule exclude_swallows_prefix [OF sample_nd_wf sample_info_shape sample_simps(3,1) sample_target_simps(4),
        where f = "sample_fip\<lparr>fip_cidr := 64\<rparr>"])
    (simp_all add: sample_nd_def sample_target_simps sample_fip_def)

theorem group_macs_witness:
  "\<exists>r w'. initSockGroup ref_pf id id None [''nope'', ''eth0''] (Some bpfND) (Some [zero_mac, \<lparr>mr_hwaddr = None, mr_rosIf = ''ether1''\<rparr>])
       (ref_world [] []) = (r, w') \<and>
     (\<exists>m e. r = Ret (m, e) \<and> distinct (map fst m) \<and>
       (\<forall>(k, sr)\<in>set m. sr_name sr = k \<and> (\<exists>i<length [''nope'', ''eth0'']. [''nope'', ''eth0''] ! i = k \<and>
          (\<forall>j<i. [''nope'', ''eth0''] ! j \<noteq> k) \<and> sr_advMAC sr = [zero_mac, \<lparr>mr_hwaddr = None, mr_rosIf = ''ether1''\<rparr>] ! i))) \<and>
     r = Ret ([(''eth0'', \<lparr>sr_name = ''eth0'', sr_s = Some 2, sr_advMAC = \<lparr>mr_hwaddr = None, mr_rosIf = ''ether1''\<rparr>\<rparr>)], None)"
proof -
  let ?ms = "[zero_mac, \<lparr>mr_hwaddr = None, mr_rosIf = ''ether1''\<rparr>]"
  have fair: "fair id" by (simp add: fair_def)
  obtain w' where *: "initSockGroup ref_pf id id None [''nope'', ''eth0''] (Some bpfND) (Some ?ms) (ref_world [] []) =
      (Ret ([(''eth0'', \<lparr>sr_name = ''eth0'', sr_s = Some 2, sr_advMAC = \<lparr>mr_hwaddr = None, mr_rosIf = ''ether1''\<rparr>\<rparr>)], None), w')"
    by (simp add: initSockGroup_def collectInterfaces_def NewDecodedInterface_def Exists_def ifNameToIndex_def ref_pf_def
        one_link_def init_one_def needs_socket_def zero_ref_def Index_def ActualName_def NewSocket_def ref_sys_def
        bindToDeviceRaw_def ref_world_def ApplyBPF_def go_index_def text_eval)
  from group_macs [OF * fair] * show ?thesis by simp
qed

theorem failed_start_is_permanent_witness:
  "\<exists>e c w1. ND_workInternal ref_pf \<lparr>sch_ext1 = id, sch_ext2 = id, sch_int1 = id, sch_int2 = id, sch_refs = id,
       sch_packets = [], sch_done = False\<rparr> (NewNDClient ((sample_nd ''static'' 128)\<lparr>ndc_extIfs := [''nope'']\<rparr>) (Some quiet))
       (ref_world [] []) = (Ret (Some (NDLink e)), [], c, w1) \<and>
     (\<forall>rounds (w2 :: ref_kernel world). (\<forall>s\<in>set rounds. fair (sch_ext1 s)) \<longrightarrow>
        (\<exists>res. ND_Work ref_pf rounds c w2 = (Ret res, [], c, w2)))"
proof -
  let ?sch = "\<lparr>sch_ext1 = id, sch_ext2 = id, sch_int1 = id, sch_int2 = id, sch_refs = id,
       sch_packets = [], sch_done = False\<rparr>"
  let ?cfg = "(sample_nd ''static'' 128)\<lparr>ndc_extIfs := [''nope'']\<rparr>"
  have "\<exists>w1. initSockGroup ref_pf (sch_ext1 ?sch) (sch_ext2 ?sch) None (ndc_extIfs ?cfg) (Some bpfND)
      (mac_slice (ndc_advMACs ?cfg)) (ref_world [] []) = (Ret ([], Some (NoneUsable [''nope''])), w1)"
    by (simp add: initSockGroup_def collectInterfaces_def NewDecodedInterface_def Exists_def ifNameToIndex_def
        ref_pf_def one_link_def text_eval)
  then obtain w1 where "initSockGroup ref_pf (sch_ext1 ?sch) (sch_ext2 ?sch) None (ndc_extIfs ?cfg) (Some bpfND)
      (mac_slice (ndc_advMACs ?cfg)) (ref_world [] []) = (Ret ([], Some (NoneUsable [''nope''])), w1)" ..
  from failed_start_is_permanent [OF this, of "Some quiet"] show ?thesis by blast
qed

lemma ref_multi: "\<exists>w. ReadMultiSocksOnce 64 ref_sys [0] t (ref_world [[readable_event]] (p # ps)) = ((0, Some (take 2048 p), None), w)"
  by (simp add: ReadMultiSocksOnce_def epollOnce_def epoll_rounds.simps ref_sys_def ref_world_def readable_event_def
      ev_failed_def pick_sock_def EPOLLERR_def EPOLLIN_def EPOLLHUP_def wrap_def readImmediate_def)

lemma ref_pf_simps [simp]: "pf_iw ref_pf = 64" "pf_sys ref_pf = ref_sys" "pf_links ref_pf = one_link"
  by (simp_all add: ref_pf_def)

lemma ref_useful: "p \<noteq> [] \<Longrightarrow> useful_na ref_pf ip (Some p) = (if IP_Equal p (bs ip) then Some (Some (replicate 6 4)) else None)"
  by (simp add: useful_na_def parseICMPv6_def ref_pf_def fixed_codec_def)

theorem wait_na_matches_witness:
  "\<exists>w'. wait_na ref_pf (Some sample_target) [0] (Some 1000000) [5] (ref_world [[readable_event]] [sample_target]) =
       (Some (Ret (Inr (Some (replicate 6 4)))), w') \<and>
     (\<exists>t w1 i p na. ReadMultiSocksOnce (pf_iw ref_pf) (pf_sys ref_pf) [0] t w1 = ((i, p, None), w') \<and>
        parseICMPv6 (pf_na ref_pf) (bs p) = Some na \<and>
        IP_Equal (bs (na_TargetAddress (d_Layer na))) (bs (Some sample_target)) \<and> d_SrcMAC na = Some (replicate 6 4))"
proof -
  have t: "take 2048 sample_target = sample_target" "sample_target \<noteq> []"
    using sample_target_simps(1) by auto
  obtain w' where "ReadMultiSocksOnce 64 ref_sys [0] (Some 1000000) (ref_world [[readable_event]] [sample_target]) =
      ((0, Some sample_target, None), w')"
    using ref_multi [of "Some 1000000" sample_target "[]"] t(1) by auto
  then have "wait_na ref_pf (Some sample_target) [0] (Some 1000000) [5] (ref_world [[readable_event]] [sample_target]) =
       (Some (Ret (Inr (Some (replicate 6 4)))), w')"
    using t(2) by (simp add: ref_useful IP_Equal_def)
  from this wait_na_matches [OF this] show ?thesis by blast
qed

theorem wait_na_terminates_witness:
  "\<exists>x w'. wait_na ref_pf (Some sample_target) [0] (Some 10) [5, 7] (ref_world [[readable_event]] [[1]]) = (Some (Ret x), w')"
  by (rule wait_na_terminates [where d = 5]) simp_all

theorem unlimited_wait_panics_witness:
  "\<exists>w'. wait_na ref_pf (Some sample_target) [0] (na_timeout 0) [5] (ref_world [[readable_event]] [[1]]) = (Some Panic, w')"
proof -
  obtain w' where r: "ReadMultiSocksOnce (pf_iw ref_pf) (pf_sys ref_pf) [0] None (ref_world [[readable_event]] [[1]]) =
      ((0, Some [1], None), w')"
    using ref_multi [of None "[1]" "[]"] by auto
  have "useful_na ref_pf (Some sample_target) (Some [1]) = None"
    by (simp add: ref_useful IP_Equal_def sample_target_simps)
  from unlimited_wait_panics [OF r _ this, of 5 "[]"] show ?thesis by auto
qed

theorem hangup_ends_daemon_witness:
  "fst (nd_loop ref_pf (sample_nd ''static'' 128) [\<lparr>sr_name = ''eth0'', sr_s = Some 0, sr_advMAC = zero_mac\<rparr>] [(None, [])]
     (ref_world [[\<lparr>ev_events = EPOLLHUP, ev_fd = 3\<rparr>]] [])) = Panic"
proof -
  let ?w = "ref_world [[\<lparr>ev_events = EPOLLHUP, ev_fd = 3\<rparr>]] []"
  let ?k1 = "(w_kern ?w)\<lparr>rk_fds := {5, 3, 4}, rk_fresh := 6\<rparr>"
  have "epoll_create1 (pf_sys ref_pf) (w_kern ?w) = (Some 5, ?k1)"
    "epoll_ctl_add (pf_sys ref_pf) 5 (so_fd (w_heap ?w 0)) \<lparr>ev_events = EPOLLIN, ev_fd = wrap 32 (so_fd (w_heap ?w 0))\<rparr> ?k1 = (True, ?k1)"
    "epoll_wait (pf_sys ref_pf) 5 1 (-1) ?k1 = (Some [\<lparr>ev_events = EPOLLHUP, ev_fd = so_fd (w_heap ?w 0)\<rparr>],
       ?k1\<lparr>rk_waits := 1, rk_events := []\<rparr>)"
    by (simp_all add: ref_sys_def ref_world_def wrap_def)
  from hangup_ends_daemon [OF this(1) _ this(2,3)] show ?thesis by simp
qed

text \<open>A codec for the advertisements the proxy builds: flags, target and hardware address.\<close>

definition na_enc :: "NeighborAdvertisement \<Rightarrow> bytes" where
  "na_enc l = na_Flags l # bs (na_TargetAddress l) @ bs (opt_Data (hd (na_Options l)))"

definition na_dec :: "bytes \<Rightarrow> NeighborAdvertisement" where
  "na_dec b = \<lparr>na_Flags = hd b, na_TargetAddress = Some (take 16 (tl b)),
     na_Options = [new_option 2 (Some (drop 17 b))]\<rparr>"

definition sample_q :: solicitation where
  "sample_q = \<lparr>so_target = Some sample_target, so_spare = [], so_srcMAC = Some (replicate 6 8), so_srcIP = Some sample_gateway\<rparr>"


end
