(* ===== verification/Daemon.thy ===== *)
theory Daemon
  imports ND RosPool
begin

text \<open>
  The logger (\<open>logger/logger.go\<close>), the dumps of the configurations and \<open>main\<close>
  (\<open>main.go\<close>): which daemons a configuration starts, and with which RouterOS client.
\<close>

section \<open>The logger\<close>

definition ERROR :: nat where "ERROR = 1"
definition WARNING :: nat where "WARNING = 2"
definition INFO :: nat where "INFO = 3"
definition DEBUG :: nat where "DEBUG = 4"
definition TRACE :: nat where "TRACE = 5"

definition SetLogLevel :: "env \<Rightarrow> nat" where
  "SetLogLevel env =
     (let logLevel = env ''LOG_LEVEL'' in
      if logLevel \<in> {''INFO'', ''info''} then INFO
      else if logLevel \<in> {''DEBUG'', ''debug''} then DEBUG
      else if logLevel \<in> {''TRACE'', ''trace''} then TRACE
      else if logLevel \<in> {''ERROR'', ''error''} then ERROR
      else if logLevel \<in> {''WARNING'', ''warning''} then WARNING
      else INFO)"

record BuiltinLogger =
  log_level :: nat

definition NewBuiltinLogger :: "env \<Rightarrow> BuiltinLogger" where
  "NewBuiltinLogger env = \<lparr>log_level = SetLogLevel env\<rparr>"

text \<open>
  What a method hands to Go's logger: the format, and whether the process ends after it
  (\<open>Fatalf\<close>). \<open>caller\<close> is what \<open>runtime.Caller\<close> tells: the base name of the file and
  the line.
\<close>

datatype logged = Printf string | Fatalf string

definition caller_text :: "(string \<times> int) option \<Rightarrow> string" where
  "caller_text caller =
     (case caller of None \<Rightarrow> [] | Some (f, line) \<Rightarrow> f @ '':'' @ print_int line @ '': '')"

definition Trace :: "BuiltinLogger \<Rightarrow> (string \<times> int) option \<Rightarrow> string \<Rightarrow> logged option" where
  "Trace l caller format =
     (if log_level l \<ge> TRACE then Some (Printf (''[TRACE] '' @ caller_text caller @ format)) else None)"

definition Debug :: "BuiltinLogger \<Rightarrow> (string \<times> int) option \<Rightarrow> string \<Rightarrow> logged option" where
  "Debug l caller format =
     (if log_level l \<ge> DEBUG then Some (Printf (''[DEBUG] '' @ caller_text caller @ format)) else None)"

definition Info :: "BuiltinLogger \<Rightarrow> string \<Rightarrow> logged option" where
  "Info l format = (if log_level l \<ge> INFO then Some (Printf (''[INFO]  '' @ format)) else None)"

definition Warning :: "BuiltinLogger \<Rightarrow> string \<Rightarrow> logged option" where
  "Warning l format = (if log_level l \<ge> WARNING then Some (Printf (''[WARN]  '' @ format)) else None)"

definition Error :: "BuiltinLogger \<Rightarrow> (string \<times> int) option \<Rightarrow> string \<Rightarrow> logged option" where
  "Error l caller format =
     (if log_level l \<ge> ERROR then Some (Printf (''[ERROR] '' @ caller_text caller @ format)) else None)"

definition Fatal :: "BuiltinLogger \<Rightarrow> (string \<times> int) option \<Rightarrow> string \<Rightarrow> logged option" where
  "Fatal l caller format =
     (if log_level l \<ge> ERROR then Some (Fatalf (''[FATAL] '' @ caller_text caller @ format)) else None)"

section \<open>Dumps\<close>

text \<open>
  A dump is a sequence of calls of \<open>llog.Debug\<close> (or \<open>llog.Trace\<close>, for a reply of the router): a
  format and its arguments.
\<close>

datatype arg =
    AStr string
  | AInt int
  | AStrs "string list"
  | AAssign ROSIPAssign
  | AFIP FlexibleIP
  | AMAC MACRef
  | AMap sentence

type_synonym call_args = "string \<times> arg list"

definition dump_items :: "('a \<Rightarrow> arg) \<Rightarrow> 'a list \<Rightarrow> call_args list" where
  "dump_items f xs = map (\<lambda>(i, x). (''  %3d: %+v'', [AInt (int i), f x])) (enumerate 0 xs)"

definition dumpRAConfig :: "RAConfig \<Rightarrow> call_args list" where
  "dumpRAConfig cfg =
     [(''Router Advertisement Configuration:'', []), (''  RA_MODE=%s'', [AStr (rac_mode cfg)])] @
     (if length (rac_extIfs cfg) > 0 then [(''  RA_EXTERNAL_INTERFACES=%+v'', [AStrs (rac_extIfs cfg)])] else []) @
     (if rac_timeout cfg \<noteq> 0 then [(''  RA_TIMEOUT=%d'', [AInt (go_div (rac_timeout cfg) 1000000)])] else []) @
     (if rac_rosExtIf cfg \<noteq> [] then [(''  RA_ROS_EXTERNAL_INTERFACE=%s'', [AStr (rac_rosExtIf cfg)])] else []) @
     (if length (rac_rosExtIPs cfg) > 0
      then (''  RA_ROS_EXTERNAL_IPS'', []) # dump_items AAssign (rac_rosExtIPs cfg) else []) @
     (if length (rac_rosIntIPs cfg) > 0
      then (''  RA_ROS_INTERNAL_IPS'', []) # dump_items AAssign (rac_rosIntIPs cfg) else []) @
     (if length (rac_rosIntIPs cfg) > 0
      then (''  RA_ROS_INTERNAL_IPS'', []) # dump_items AAssign (rac_rosIntIPs cfg) else [])"

definition dumpNDConfig :: "NDConfig \<Rightarrow> call_args list" where
  "dumpNDConfig cfg =
     [(''NDProxy Configuration:'', []), (''  NDP_MODE=%s'', [AStr (ndc_mode cfg)]),
      (''  NDP_TIMEOUT=%s'', [AInt (ndc_timeoutMs cfg)])] @
     (if length (ndc_prefixes cfg) > 0
      then (''  NDP_PREFIXES'', []) # dump_items AFIP (ndc_prefixes cfg) else []) @
     (if length (ndc_excludes cfg) > 0
      then (''  NDP_EXCLUDE_IPS'', []) # dump_items AFIP (ndc_excludes cfg) else []) @
     (if length (ndc_extIfs cfg) > 0 then [(''  NDP_EXTERNAL_INTERFACES=%+v'', [AStrs (ndc_extIfs cfg)])] else []) @
     (if length (ndc_intIfs cfg) > 0 then [(''  NDP_INTERNAL_INTERFACES=%+v'', [AStrs (ndc_intIfs cfg)])] else []) @
     (if length (ndc_excludes cfg) > 0
      then (''  NDP_ADVERTISE_MACS'', []) # dump_items AMAC (ndc_advMACs cfg) else [])"

definition dumpResponse :: "reply \<Rightarrow> call_args list" where
  "dumpResponse rep =
     (''  raw response:'', []) #
     (if length rep = 0 then [(''    <empty>'', [])] else dump_items AMap rep)"

section \<open>The start of the program\<close>

text \<open>
  \<open>llog.Fatal\<close> ends the process, see below. Otherwise \<open>main\<close> starts the daemons and waits. The
  RouterOS client is \<open>None\<close> where the code leaves the pointer \<open>nil\<close>.
\<close>

datatype main_error = ConfigError config_error | RouterOSError ros_error

record daemons =
  dm_ra :: RAConfig
  dm_nd :: NDConfig
  dm_ros :: "ROSClient option"
  dm_startRA :: bool
  dm_startND :: bool

definition start_main ::
  "nat \<Rightarrow> (bool \<Rightarrow> int \<Rightarrow> string \<Rightarrow> ros_error option) \<Rightarrow> env \<Rightarrow> main_error + daemons" where
  "start_main iw tcp env =
     (case loadRAConfig iw env of
        Inl e \<Rightarrow> Inl (ConfigError e)
      | Inr racfg \<Rightarrow>
          (case loadNDConfig iw env racfg of
             Inl e \<Rightarrow> Inl (ConfigError e)
           | Inr (ndcfg, ndNeedROS) \<Rightarrow>
               (case (if rac_mode racfg = ''ros'' \<or> ndNeedROS then
                     (case loadROSConfig iw env of
                        Inl e \<Rightarrow> Inl (ConfigError e)
                      | Inr roscfg \<Rightarrow>
                          (case NewROSClient tcp roscfg of
                             Inl e \<Rightarrow> Inl (RouterOSError e)
                           | Inr c \<Rightarrow> Inr (Some c)))
                   else Inr None) of
                  Inl e \<Rightarrow> Inl e
                | Inr ros \<Rightarrow>
                    Inr \<lparr>dm_ra = racfg, dm_nd = ndcfg, dm_ros = ros,
                      dm_startRA = (rac_mode racfg \<noteq> ''off''), dm_startND = (ndc_mode ndcfg \<noteq> ''off'')\<rparr>)))"

text \<open>The clients of the daemons; \<open>api\<close> is \<open>RunArgs\<close> of a RouterOS client.\<close>

definition ra_client :: "(ROSClient \<Rightarrow> 'r run) \<Rightarrow> daemons \<Rightarrow> 'r RAClient" where
  "ra_client api d = NewRAClient (dm_ra d) (map_option api (dm_ros d))"

definition nd_client :: "(ROSClient \<Rightarrow> 'r run) \<Rightarrow> daemons \<Rightarrow> 'r NDClient" where
  "nd_client api d = NewNDClient (dm_nd d) (map_option api (dm_ros d))"

end
