(* ===== verification/DaemonProps.thy ===== *)
theory DaemonProps
  imports Daemon NDProps
begin

text \<open>
  Properties of the program as a whole: what \<open>main\<close> starts is what the workers need, with one
  exception, and what the dumps leave out.
\<close>

section \<open>The logger\<close>

lemma level_range: "ERROR \<le> SetLogLevel env" "SetLogLevel env \<le> TRACE"
  by (simp_all add: SetLogLevel_def Let_def ERROR_def WARNING_def INFO_def DEBUG_def TRACE_def)

text \<open>\<open>Fatal\<close> never returns, whatever \<open>LOG_LEVEL\<close> says: \<open>main\<close> relies on it.\<close>

lemma Fatal_ends: "\<exists>t. Fatal (NewBuiltinLogger env) caller format = Some (Fatalf t)"
  using level_range(1) [of env] by (simp add: Fatal_def NewBuiltinLogger_def)

text \<open>A level shows the messages of all levels below it.\<close>

lemma shown_levels:
  "Trace l caller f \<noteq> None \<Longrightarrow> Debug l caller' f' \<noteq> None"
  "Debug l caller f \<noteq> None \<Longrightarrow> Info l f' \<noteq> None"
  "Info l f \<noteq> None \<Longrightarrow> Warning l f' \<noteq> None"
  "Warning l f \<noteq> None \<Longrightarrow> Error l caller f' \<noteq> None"
  by (auto simp: Trace_def Debug_def Info_def Warning_def Error_def ERROR_def WARNING_def INFO_def
      DEBUG_def TRACE_def split: if_splits)

section \<open>What is started\<close>

lemma start_main_ok:
  assumes "start_main iw tcp env = Inr d"
  shows "wf_ra (dm_ra d)" "wf_nd (dm_ra d) (dm_nd d)"
    "dm_ros d \<noteq> None \<longleftrightarrow> rac_mode (dm_ra d) = ''ros'' \<or> ndc_mode (dm_nd d) = ''proxy-ros'' \<or>
       (\<exists>m\<in>set (ndc_advMACs (dm_nd d)). mr_hwaddr m = None)"
    "dm_startRA d \<longleftrightarrow> rac_mode (dm_ra d) \<noteq> ''off''" "dm_startND d \<longleftrightarrow> ndc_mode (dm_nd d) \<noteq> ''off''"
proof -
  obtain need where load: "loadRAConfig iw env = Inr (dm_ra d)" "loadNDConfig iw env (dm_ra d) = Inr (dm_nd d, need)"
    and ros: "dm_ros d \<noteq> None \<longleftrightarrow> rac_mode (dm_ra d) = ''ros'' \<or> need"
    and on: "dm_startRA d \<longleftrightarrow> rac_mode (dm_ra d) \<noteq> ''off''" "dm_startND d \<longleftrightarrow> ndc_mode (dm_nd d) \<noteq> ''off''"
    using assms by (auto simp: start_main_def split: sum.splits prod.splits if_splits)
  show wf: "wf_ra (dm_ra d)" by (rule loadRAConfig_wf(1) [OF load(1)])
  note nd = loadNDConfig_wf [OF load(2) wf]
  show "wf_nd (dm_ra d) (dm_nd d)" using nd by blast
  show "dm_ros d \<noteq> None \<longleftrightarrow> rac_mode (dm_ra d) = ''ros'' \<or> ndc_mode (dm_nd d) = ''proxy-ros'' \<or>
       (\<exists>m\<in>set (ndc_advMACs (dm_nd d)). mr_hwaddr m = None)"
    using nd ros by blast
qed (use assms in \<open>auto simp: start_main_def split: sum.splits prod.splits if_splits\<close>)

lemma started_ra_serviceable:
  assumes "start_main iw tcp env = Inr d" "\<And>c. parsable (api c)"
  shows "serviceable \<lparr>rt_client = ra_client api d, rt_world = w, rt_router = r\<rparr>"
proof -
  have "\<exists>run. rcl_ros (ra_client api d) = Some run \<and> parsable run" if "rac_mode (dm_ra d) = ''ros''"
    using start_main_ok(3) [OF assms(1)] that assms(2) by (auto simp: ra_client_def NewRAClient_def)
  with start_main_ok(1) [OF assms(1)] show ?thesis
    by (simp add: serviceable_def info_ok_def ra_client_def NewRAClient_def)
qed

text \<open>A socket of a group of the started proxy: its hardware address is one of the configuration, or none.\<close>

definition configured_ref :: "NDConfig \<Rightarrow> SockRef \<Rightarrow> bool" where
  "configured_ref cfg ref \<longleftrightarrow> sr_s ref \<noteq> None \<and> (sr_advMAC ref \<in> set (ndc_advMACs cfg) \<or> sr_advMAC ref = zero_mac)"

lemma advertised_mac_returns:
  assumes "start_main iw tcp env = Inr d" "configured_ref (dm_nd d) ref"
  shows "fst (advertised_mac (map_option api (dm_ros d)) (sr_advMAC ref) r) \<noteq> Panic"
proof (cases "mr_rosIf (sr_advMAC ref) = []")
  case True
  then show ?thesis by (simp add: advertised_mac_def)
next
  case False
  then have mem: "sr_advMAC ref \<in> set (ndc_advMACs (dm_nd d))"
    using assms(2) by (auto simp: configured_ref_def zero_mac_def)
  with False start_main_ok(2) [OF assms(1)] have "mr_hwaddr (sr_advMAC ref) = None"
    by (auto simp: wf_nd_def)
  with mem start_main_ok(3) [OF assms(1)] obtain c where "dm_ros d = Some c" by auto
  then show ?thesis
    by (auto simp: advertised_mac_def split: prod.splits sum.splits)
qed

lemma lookup_result:
  "\<exists>hw bg' r'. (case x of (Inl e, bg, r) \<Rightarrow> (Some (Ret (None, bg)), w, r) | (Inr hw, bg, r) \<Rightarrow> (Some (Ret (hw, bg)), w, r)) =
     (Some (Ret (hw, bg')), w, r')"
  by (auto split: prod.splits sum.splits)

section \<open>Properties\<close>

text \<open>C8: what \<open>main\<close> starts fits together: the router advertisement client is started only in the mode
  \<open>ros\<close> and has a RouterOS client then. If the router answers with CIDR texts for pools and for the
  program's own addresses, and the decoder delivers no prefix information option that is too
  short, no run of its worker panics.\<close>

theorem started_ra_safe:
  assumes "start_main iw tcp env = Inr d" "\<And>c. parsable (api c)" "readable_codec (pf_ra pf)"
  shows "(dm_startRA d \<longrightarrow> rac_mode (dm_ra d) = ''ros'' \<and> dm_ros d \<noteq> None) \<and>
     fst (RA_Work pf rounds \<lparr>rt_client = ra_client api d, rt_world = w, rt_router = r\<rparr>) \<noteq> Panic"
  using start_main_ok [OF assms(1)] RA_Work_returns [OF started_ra_serviceable [OF assms(1,2)] assms(3)]
  by (auto simp: wf_ra_def)

text \<open>C9: in the modes \<open>static\<close> and \<open>proxy-ros\<close> a started proxy answers every accepted solicitation
  without a panic, for every hardware address configured; in the mode \<open>proxy-ros:strict\<close> as well
  if there is a RouterOS client.\<close>

theorem started_nd_safe:
  assumes "start_main iw tcp env = Inr d" "configured_ref (dm_nd d) ref"
    and "ndc_mode (dm_nd d) \<in> {''static'', ''proxy-ros''} \<or> ndc_mode (dm_nd d) = ''proxy-ros:strict'' \<and> dm_ros d \<noteq> None"
  shows "\<exists>w' r'. processNd pf ord (nd_client api d) q ref es w r = (Some (Ret ()), w', r')"
proof -
  let ?c = "nd_client api d"
  have "ndc_mode (dm_nd d) = ''static'' \<or> (\<exists>c. dm_ros d = Some c) \<and>
      ndc_mode (dm_nd d) \<in> {''proxy-ros'', ''proxy-ros:strict''}"
    using assms(3) start_main_ok(3) [OF assms(1)] by auto
  then have "\<exists>hw bg r1. find_neighbor pf ord ?c (so_target q) (so_spare q) es w r = (Some (Ret (hw, bg)), w, r1)"
    by (auto simp: find_neighbor_def nd_client_def NewNDClient_def lookup_result)
  then obtain hw bg r1 where find: "find_neighbor pf ord ?c (so_target q) (so_spare q) es w r = (Some (Ret (hw, bg)), w, r1)"
    by blast
  obtain mac r2 where mac: "advertised_mac (ncl_ros ?c) (sr_advMAC ref) r1 = (Ret mac, r2)"
    using advertised_mac_returns [OF assms(1,2), of api r1]
    by (cases "advertised_mac (ncl_ros ?c) (sr_advMAC ref) r1"; cases "fst (advertised_mac (ncl_ros ?c) (sr_advMAC ref) r1)")
      (auto simp: nd_client_def NewNDClient_def)
  obtain s where "sr_s ref = Some s" using assms(2) by (auto simp: configured_ref_def)
  with find mac show ?thesis by (cases hw) (auto simp: processNd_def Let_def)
qed

text \<open>C21: in the mode \<open>proxy-ros:strict\<close> the loader does not ask for a RouterOS client: without router
  advertisements and with fixed hardware addresses there is none, and the first accepted
  solicitation ends the daemon.\<close>

theorem strict_without_client:
  assumes "start_main iw tcp env = Inr d" "ndc_mode (dm_nd d) = ''proxy-ros:strict''"
  shows "(dm_ros d = None \<longleftrightarrow> rac_mode (dm_ra d) = ''off'' \<and> (\<forall>m\<in>set (ndc_advMACs (dm_nd d)). mr_hwaddr m \<noteq> None)) \<and>
     (dm_ros d = None \<longrightarrow> processNd pf ord (nd_client api d) q ref es w r = (Some Panic, w, r))"
proof
  have "rac_mode (dm_ra d) \<noteq> ''ros'' \<longleftrightarrow> rac_mode (dm_ra d) = ''off''"
    using start_main_ok(1) [OF assms(1)] by (auto simp: wf_ra_def)
  then show "dm_ros d = None \<longleftrightarrow> rac_mode (dm_ra d) = ''off'' \<and> (\<forall>m\<in>set (ndc_advMACs (dm_nd d)). mr_hwaddr m \<noteq> None)"
    using start_main_ok(3) [OF assms(1)] assms(2) by auto
  show "dm_ros d = None \<longrightarrow> processNd pf ord (nd_client api d) q ref es w r = (Some Panic, w, r)"
    using assms(2) by (simp add: processNd_def find_neighbor_def nd_client_def NewNDClient_def)
qed

text \<open>The dumps do not show the whole configuration: the pools never, the internal addresses twice, and the
  hardware addresses to advertise only if addresses are excluded.\<close>

theorem dumps_incomplete:
  "dumpRAConfig (ra\<lparr>rac_rosPools := ps\<rparr>) = dumpRAConfig ra \<and>
   length (filter (\<lambda>c. c = (''  RA_ROS_INTERNAL_IPS'', [])) (dumpRAConfig ra)) = (if rac_rosIntIPs ra = [] then 0 else 2) \<and>
   (if ndc_excludes nd = [] then dumpNDConfig (nd\<lparr>ndc_advMACs := ms\<rparr>) = dumpNDConfig nd
    else \<forall>m\<in>set (ndc_advMACs nd). \<exists>i. (''  %3d: %+v'', [AInt i, AMAC m]) \<in> set (dumpNDConfig nd))"
proof -
  have items: "filter (\<lambda>c. c = (''  RA_ROS_INTERNAL_IPS'', [])) (dump_items f xs) = []" for f :: "'a \<Rightarrow> arg" and xs
    by (auto simp: dump_items_def filter_empty_conv)
  have mem: "\<exists>i. (''  %3d: %+v'', [AInt i, f x]) \<in> set (dump_items f xs)" if "x \<in> set xs" for f :: "'b \<Rightarrow> arg" and x xs
  proof -
    from that obtain i where "i < length xs" "xs ! i = x" by (auto simp: in_set_conv_nth)
    then have "(i, x) \<in> set (enumerate 0 xs)" by (simp add: in_set_enumerate_eq)
    then show ?thesis by (force simp: dump_items_def)
  qed
  have "set (dump_items AMAC (ndc_advMACs nd)) \<subseteq> set (dumpNDConfig nd)" if "ndc_excludes nd \<noteq> []"
    using that by (auto simp: dumpNDConfig_def)
  then have "\<exists>i. (''  %3d: %+v'', [AInt i, AMAC m]) \<in> set (dumpNDConfig nd)"
    if "m \<in> set (ndc_advMACs nd)" "ndc_excludes nd \<noteq> []" for m
    using mem [OF that(1), of AMAC] that(2) by blast
  moreover have "dumpNDConfig (nd\<lparr>ndc_advMACs := ms\<rparr>) = dumpNDConfig nd" if "ndc_excludes nd = []"
    using that by (simp add: dumpNDConfig_def)
  ultimately show ?thesis by (simp add: dumpRAConfig_def items)
qed

text \<open>
  The witnesses: the mode \<open>static\<close> and the mode \<open>proxy-ros:strict\<close>, both without router
  advertisements and with a fixed hardware address; with router advertisements below.
\<close>

definition static_env :: env where
  "static_env = sample_strict_env(''NDP_MODE'' := ''static'', ''RA_MODE'' := ''off'')"

definition strict_env :: env where
  "strict_env = sample_strict_env(''RA_MODE'' := ''off'')"

lemma env_starts:
  assumes "env = static_env \<or> env = strict_env"
  shows "\<exists>d. start_main 64 (\<lambda>_ _ _. None) env = Inr d \<and> ndc_mode (dm_nd d) = env ''NDP_MODE'' \<and> dm_ros d = None"
proof -
  have mac: "ParseMAC ''02:00:00:00:00:01'' = Some [2, 0, 0, 0, 0, 1]"
    by (simp add: text_eval)
  obtain f where pre: "ParseFlexibleIP ''2001:db8::/64'' = Inr f" "\<not> fip_raPrefix f"
    by (simp add: text_eval ParseFlexibleIP_def parse_address_def)
  have timeout: "Atoi 64 ''1000'' = (1000, None)"
    by (simp add: Atoi_def text_eval)
  note defs = start_main_def loadRAConfig_def loadNDConfig_def sample_strict_env_def
    getenv_default_def Let_def ndp_modes_def nd_prefix_def nd_exclude_def mac pre timeout
  from assms show ?thesis
  proof
    assume "env = static_env"
    then show ?thesis by (simp add: static_env_def defs)
  next
    assume "env = strict_env"
    then show ?thesis by (simp add: strict_env_def defs)
  qed
qed

definition quiet_api :: "ROSClient \<Rightarrow> unit run" where
  "quiet_api = (\<lambda>_. quiet)"

definition sample_ref :: SockRef where
  "sample_ref = \<lparr>sr_name = ''eth0'', sr_s = Some 0, sr_advMAC = zero_mac\<rparr>"

text \<open>Router advertisements on, a RouterOS host, an advertisement with a prefix: the worker runs as far as listening.\<close>

definition ros_env :: env where
  "ros_env = static_env(''RA_MODE'' := ''ros'', ''ROS_HOST'' := ''10.0.0.1'',
     ''RA_ROS_EXTERNAL_INTERFACE'' := ''ether1'', ''RA_ROS_INTERNAL_IPS'' := ''2001:db8::1/64@br0:advertise'')"

lemma ros_env_starts:
  "\<exists>d. start_main 64 (\<lambda>_ _ _. None) ros_env = Inr d \<and> dm_startRA d \<and> rac_extIfs (dm_ra d) = [''eth0''] \<and>
     length (rac_rosIntIPs (dm_ra d)) = 1 \<and> length (rac_rosPools (dm_ra d)) = 1"
proof -
  have mac: "ParseMAC ''02:00:00:00:00:01'' = Some [2, 0, 0, 0, 0, 1]"
    by (simp add: text_eval)
  obtain f where pre: "ParseFlexibleIP ''2001:db8::/64'' = Inr f" "\<not> fip_raPrefix f"
    by (simp add: text_eval ParseFlexibleIP_def parse_address_def)
  obtain a where assign: "ParseROSIPAssign ''2001:db8::1/64@br0:advertise'' ''ether1'' = Inr a"
    by (simp add: text_eval ParseROSIPAssign_def rosipreg_def opts_match_def opt_char_def ParseFlexibleIP_def parse_address_def Let_def)
  obtain p where pool: "ParseROSPoolAssign 64 ''ra-prefix@fletsv6-pool/64'' = Inr p"
    by (simp add: text_eval ParseROSPoolAssign_def ParseFlexibleIP_def Atoi_def Let_def)
  have timeout: "Atoi 64 ''1000'' = (1000, None)" "Atoi 64 ''5000'' = (5000, None)"
    by (simp_all add: Atoi_def text_eval)
  show ?thesis
    by (simp add: start_main_def loadRAConfig_def loadNDConfig_def loadROSConfig_def NewROSClient_def ros_env_def static_env_def
        sample_strict_env_def getenv_default_def Let_def ndp_modes_def nd_prefix_def nd_exclude_def nonempty_def
        mac pre timeout assign pool)
qed

definition event5 :: epoll_event where
  "event5 = \<lparr>ev_events = EPOLLIN, ev_fd = 5\<rparr>"

lemma ros_worker_init:
  assumes "rac_extIfs (rcl_cfg c) = [''eth0'']" "rcl_extSock c = None"
  shows "\<exists>w. initSock ref_pf c (ref_world [[event5]] [[1]]) = (None, c\<lparr>rcl_extSock := Some 2\<rparr>, w) \<and>
     so_fd (w_heap w 2) = 5 \<and> so_isValid (w_heap w 2) \<and> rk_fresh (w_kern w) = 6 \<and> rk_fds (w_kern w) = {5, 3, 4} \<and>
     rk_events (w_kern w) = [[event5]] \<and> rk_queue (w_kern w) = (\<lambda>_. [[1]])"
  using assms
  by (simp add: initSock_def findFirstInterface_def NewDecodedInterface_def Exists_def Index_def ifNameToIndex_def
      ActualName_def ref_pf_def one_link_def ref_sys_def ref_world_def NewSocket_def bindToDeviceRaw_def ApplyBPF_def
      text_eval Let_def)

lemma ref_pf_sys: "pf_sys ref_pf = ref_sys" "pf_iw ref_pf = 64"
  by (simp_all add: ref_pf_def)

lemma ros_worker_solicits:
  assumes "rcl_extSock c = Some 2" "rcl_routerInfo c = None"
    and "so_fd (w_heap w 2) = 5" "so_isValid (w_heap w 2)" "rk_fresh (w_kern w) = 6" "rk_fds (w_kern w) = {5, 3, 4}"
    and "rk_events (w_kern w) = [[event5]]" "rk_queue (w_kern w) = (\<lambda>_. [[1]])"
  shows "\<exists>w'. soilicit ref_pf False c w = (Ret None, c\<lparr>rcl_routerInfo := Some
     \<lparr>ri_prefix = \<lparr>net_IP = Some sample_prefix, net_Mask = CIDRMask 64 128\<rparr>, ri_gateway = Some sample_gateway\<rparr>\<rparr>, w')"
proof -
  let ?info = "\<lparr>ri_prefix = \<lparr>net_IP = Some sample_prefix, net_Mask = CIDRMask 64 128\<rparr>, ri_gateway = Some sample_gateway\<rparr>"
  have "\<exists>w'. ReadOnce 64 ref_sys 2 (Some (rac_timeout (rcl_cfg c))) w = (Inr (Some [1]), w')"
    using assms(3-8)
    by (simp add: ReadOnce_def epollOnce_def epoll_rounds.simps ref_sys_def event5_def
        ev_failed_def pick_sock_def EPOLLERR_def EPOLLIN_def EPOLLHUP_def wrap_def readImmediate_def)
  then obtain w' where read: "ReadOnce 64 ref_sys 2 (Some (rac_timeout (rcl_cfg c))) w = (Inr (Some [1]), w')" by blast
  have options: "read_options [new_option 3 (Some prefix_data)] \<lparr>ri_prefix = \<lparr>net_IP = None, net_Mask = None\<rparr>, ri_gateway = Some sample_gateway\<rparr> = Ret ?info"
    unfolding read_options_result
    by (simp add: prefix_option_def readable_def option_prefix_def new_option_def prefix_data_def sample_simps Let_def)
  have "parseICMPv6 (pf_ra ref_pf) [1] = Some
      \<lparr>d_SrcMAC = Some (replicate 6 4), d_DstMAC = Some (replicate 6 2), d_SrcIP = Some sample_gateway,
       d_DstIP = Some allRouterIP, d_Type = 0, d_Layer = \<lparr>ra_Options = [new_option 3 (Some prefix_data)]\<rparr>\<rparr>"
    by (simp add: ref_pf_def fixed_codec_def parseICMPv6_def)
  with read options assms(1) have "receive ref_pf c False True w = (Ret (Inr ?info), w')"
    by (simp add: receive_def ReadOnceChan_def ref_pf_sys del: read_options.simps)
  moreover have "WriteOnce ref_sys 2 p w = (None, w)" for p
    by (simp add: WriteOnce_def ref_sys_def)
  ultimately show ?thesis
    using assms(1,2) by (simp add: soilicit_def ref_pf_sys Let_def)
qed

theorem started_ra_safe_witness:
  "\<exists>d st. start_main 64 (\<lambda>_ _ _. None) ros_env = Inr d \<and> dm_startRA d \<and> rac_mode (dm_ra d) = ''ros'' \<and> dm_ros d \<noteq> None \<and>
     RA_Work ref_pf [(False, [], False)]
       \<lparr>rt_client = ra_client quiet_api d, rt_world = ref_world [[event5]] [[1]], rt_router = ()\<rparr> = (Ret None, st) \<and>
     rcl_routerInfo (rt_client st) = Some
       \<lparr>ri_prefix = \<lparr>net_IP = Some sample_prefix, net_Mask = CIDRMask 64 128\<rparr>, ri_gateway = Some sample_gateway\<rparr>"
proof -
  obtain d where d: "start_main 64 (\<lambda>_ _ _. None) ros_env = Inr d" "dm_startRA d" "rac_extIfs (dm_ra d) = [''eth0'']"
    using ros_env_starts by blast
  let ?c = "ra_client quiet_api d"
  let ?st = "\<lparr>rt_client = ?c, rt_world = ref_world [[event5]] [[1]], rt_router = ()\<rparr>"
  have "parsable (quiet_api c)" for c by (simp add: quiet_api_def quiet_parsable)
  note safe = started_ra_safe [where api = quiet_api, OF d(1) this ref_pf_readable, of "[(False, [], False)]" "ref_world [[event5]] [[1]]" "()"]
  have c: "rac_extIfs (rcl_cfg ?c) = [''eth0'']" "rcl_extSock ?c = None" "rcl_routerInfo ?c = None"
    using d(3) by (simp_all add: ra_client_def NewRAClient_def)
  obtain w where init: "initSock ref_pf ?c (ref_world [[event5]] [[1]]) = (None, ?c\<lparr>rcl_extSock := Some 2\<rparr>, w)"
      "so_fd (w_heap w 2) = 5" "so_isValid (w_heap w 2)" "rk_fresh (w_kern w) = 6" "rk_fds (w_kern w) = {5, 3, 4}"
      "rk_events (w_kern w) = [[event5]]" "rk_queue (w_kern w) = (\<lambda>_. [[1]])"
    using ros_worker_init [OF c(1,2)] by blast
  obtain w' where sol: "soilicit ref_pf False (?c\<lparr>rcl_extSock := Some 2\<rparr>) w =
      (Ret None, ?c\<lparr>rcl_extSock := Some 2, rcl_routerInfo := Some
     \<lparr>ri_prefix = \<lparr>net_IP = Some sample_prefix, net_Mask = CIDRMask 64 128\<rparr>, ri_gateway = Some sample_gateway\<rparr>\<rparr>, w')"
    using ros_worker_solicits [OF _ _ init(2-7), of "?c\<lparr>rcl_extSock := Some 2\<rparr>"] c(3) by auto
  have "\<exists>st. RA_Work ref_pf [(False, [], False)] ?st = (Ret None, st) \<and> rcl_routerInfo (rt_client st) = Some
     \<lparr>ri_prefix = \<lparr>net_IP = Some sample_prefix, net_Mask = CIDRMask 64 128\<rparr>, ri_gateway = Some sample_gateway\<rparr>"
    using safe init(1) sol
    by (auto simp: RA_workInternal_def client_reconcile_def Let_def split: go.splits prod.splits)
  with d(1,2) safe show ?thesis by blast
qed

theorem started_nd_safe_witness:
  "\<exists>d w' r'. start_main 64 (\<lambda>_ _ _. None) static_env = Inr d \<and>
     processNd ref_pf id (nd_client quiet_api d) sample_q sample_ref [] (ref_world [] []) () = (Some (Ret ()), w', r')"
proof -
  obtain d where d: "start_main 64 (\<lambda>_ _ _. None) static_env = Inr d" "ndc_mode (dm_nd d) = static_env ''NDP_MODE''"
    using env_starts [of static_env] by auto
  have ref: "configured_ref (dm_nd d) sample_ref"
    by (simp add: configured_ref_def sample_ref_def)
  have "ndc_mode (dm_nd d) = ''static''" by (simp add: d(2) static_env_def)
  with started_nd_safe [where api = quiet_api, OF d(1) ref, of ref_pf id sample_q "[]" "ref_world [] []" "()"] d(1)
  show ?thesis by simp
qed

theorem strict_without_client_witness:
  "\<exists>d. start_main 64 (\<lambda>_ _ _. None) strict_env = Inr d \<and> dm_startND d \<and> dm_ros d = None \<and>
     processNd ref_pf id (nd_client quiet_api d) sample_q sample_ref [] (ref_world [] []) () = (Some Panic, ref_world [] [], ())"
proof -
  obtain d where d: "start_main 64 (\<lambda>_ _ _. None) strict_env = Inr d" "ndc_mode (dm_nd d) = strict_env ''NDP_MODE''" "dm_ros d = None"
    using env_starts [of strict_env] by auto
  then have mode: "ndc_mode (dm_nd d) = ''proxy-ros:strict''" by (simp add: strict_env_def sample_strict_env_def)
  have "dm_startND d" using start_main_ok(5) [OF d(1)] mode by simp
  with strict_without_client [where api = quiet_api, OF d(1) mode, of ref_pf id sample_q sample_ref "[]" "ref_world [] []" "()"] d
  show ?thesis by (intro exI [where x = d]) simp
qed

theorem dumps_incomplete_witness:
  "\<exists>i. (''  %3d: %+v'', [AInt i, AMAC \<lparr>mr_hwaddr = Some (replicate 6 4), mr_rosIf = []\<rparr>]) \<in> set (dumpNDConfig (sample_nd ''static'' 128))"
proof -
  have "sample_nd ''static'' 128 = sample_nd ''static'' 128\<lparr>ndc_advMACs := [\<lparr>mr_hwaddr = Some (replicate 6 4), mr_rosIf = []\<rparr>]\<rparr>"
    "ndc_excludes (sample_nd ''static'' 128) \<noteq> []"
    "ndc_advMACs (sample_nd ''static'' 128) = [\<lparr>mr_hwaddr = Some (replicate 6 4), mr_rosIf = []\<rparr>]"
    by (simp_all add: sample_nd_def)
  then show ?thesis using dumps_incomplete [where nd = "sample_nd ''static'' 128"] by simp
qed

end
