(* ===== verification/System.thy ===== *)
theory System
  imports Daemon
begin

text \<open>
  The two workers and the goroutines of the proxy side by side. The router advertisement client
  replaces the router information while the proxy looks at a solicitation: every call of
  \<open>ResolveFIP\<close> reads it anew. The goroutines that run \<open>processNd\<close> share the internal sockets. The
  steps are as large as what the code does between two accesses to what is shared.
\<close>

section \<open>Looking at a solicitation\<close>

text \<open>
  Where the receive loop is: waiting for a packet, in the loop over the networks or over the
  excluded ones with those still to be looked at, about to start the goroutine, or ended.
\<close>

datatype nd_phase =
    Idle
  | InPrefixes solicitation SockRef "FlexibleIP list"
  | InExcludes solicitation SockRef "FlexibleIP list"
  | Accepted solicitation SockRef
  | Stopped sock_error
  | Panicked

definition nd_read ::
  "'k platform \<Rightarrow> NDConfig \<Rightarrow> SockRef list \<Rightarrow> bytes \<Rightarrow> 'k world \<Rightarrow> nd_phase \<times> 'k world" where
  "nd_read pf cfg refs spare w =
     (case ReadMultiSocksOnce (pf_iw pf) (pf_sys pf) (map (\<lambda>sr. the (sr_s sr)) refs) None w of
        ((si, packet, Some e), w) \<Rightarrow> (Stopped e, w)
      | ((si, packet, None), w) \<Rightarrow>
          (case (if si < 0 then Panic else go_index refs (nat si)) of
             Panic \<Rightarrow> (Panicked, w)
           | Ret sr \<Rightarrow>
               (case parseICMPv6 (pf_ns pf) (bs packet) of
                  None \<Rightarrow> (Idle, w)
                | Some nd \<Rightarrow>
                    (InPrefixes \<lparr>so_target = ns_TargetAddress (d_Layer nd), so_spare = spare,
                       so_srcMAC = d_SrcMAC nd, so_srcIP = d_SrcIP nd\<rparr> sr (ndc_prefixes cfg), w))))"

text \<open>One network, with the router information at that moment.\<close>

fun check :: "NDConfig \<Rightarrow> RouterInfo option \<Rightarrow> nd_phase \<Rightarrow> nd_phase" where
  "check cfg rinfo (InPrefixes q sr []) = Idle"
| "check cfg rinfo (InPrefixes q sr (f # fs)) =
     (case ResolveFIP rinfo f of
        Panic \<Rightarrow> Panicked
      | Ret None \<Rightarrow> InPrefixes q sr fs
      | Ret (Some n) \<Rightarrow>
          if Contains n (bs (so_target q)) then InExcludes q sr (ndc_excludes cfg) else InPrefixes q sr fs)"
| "check cfg rinfo (InExcludes q sr []) = Accepted q sr"
| "check cfg rinfo (InExcludes q sr (f # fs)) =
     (case ResolveFIP rinfo f of
        Panic \<Rightarrow> Panicked
      | Ret None \<Rightarrow> InExcludes q sr fs
      | Ret (Some n) \<Rightarrow> if Contains n (bs (so_target q)) then Idle else InExcludes q sr fs)"
| "check cfg rinfo p = p"

section \<open>The goroutines\<close>

text \<open>
  A goroutine has been started, waits for an advertisement on the internal sockets (with the time
  that remains), has found the target, or has ended.
\<close>

datatype job =
    Pending solicitation SockRef
  | Waiting solicitation SockRef "sref list" "int option"
  | Found solicitation SockRef
  | Done
  | Crashed

text \<open>
  The first part of \<open>processNd\<close>: in the mode \<open>proxy\<close> up to the wait, otherwise the whole lookup.
  \<open>None\<close> is a flush that does not end.
\<close>

definition job_start ::
  "'k platform \<Rightarrow> order \<Rightarrow> 'r NDClient \<Rightarrow> solicitation \<Rightarrow> SockRef \<Rightarrow> 'k world \<Rightarrow> 'r \<Rightarrow> (job \<times> 'k world \<times> 'r) option" where
  "job_start pf ord c q ref w r =
     (if ndc_mode (ncl_cfg c) = ''proxy'' then
        (case multicastAddr (bs (so_target q)) (so_spare q) of
           Panic \<Rightarrow> Some (Crashed, w, r)
         | Ret (dstIP, dstMAC) \<Rightarrow>
             (let m = (case ncl_intSocks c of None \<Rightarrow> [] | Some m \<Rightarrow> m);
                  refs = map (\<lambda>k. the (map_of m k)) (ord (map fst m))
              in case send_requests pf dstIP dstMAC (so_target q) refs w of
                None \<Rightarrow> None
              | Some (Panic, w) \<Rightarrow> Some (Crashed, w, r)
              | Some (Ret (Some e), w) \<Rightarrow> Some (Done, w, r)
              | Some (Ret None, w) \<Rightarrow>
                  Some (Waiting q ref (map (\<lambda>sr. the (sr_s sr)) refs) (na_timeout (ndc_timeoutMs (ncl_cfg c))), w, r)))
      else (case find_neighbor pf ord c (so_target q) (so_spare q) [] w r of
              (None, w, r) \<Rightarrow> None
            | (Some Panic, w, r) \<Rightarrow> Some (Crashed, w, r)
            | (Some (Ret (None, bg)), w, r) \<Rightarrow> Some (Done, w, r)
            | (Some (Ret (Some hw, bg)), w, r) \<Rightarrow> Some (Found q ref, w, r)))"

text \<open>The last part of \<open>processNd\<close>, for a target that has been found.\<close>

definition job_answer ::
  "'k platform \<Rightarrow> 'r NDClient \<Rightarrow> solicitation \<Rightarrow> SockRef \<Rightarrow> 'k world \<Rightarrow> 'r \<Rightarrow> job \<times> 'k world \<times> 'r" where
  "job_answer pf c q ref w r =
     (case advertised_mac (ncl_ros c) (sr_advMAC ref) r of
        (Panic, r) \<Rightarrow> (Crashed, w, r)
      | (Ret mac, r) \<Rightarrow>
          (case sr_s ref of
             None \<Rightarrow> (Crashed, w, r)
           | Some s \<Rightarrow>
               (Done, snd (WriteOnce (pf_sys pf) s
                  (makeICMPv6 (pf_na pf) (na_reply mac (so_target q) (so_srcMAC q) (so_srcIP q))) w), r)))"

text \<open>A step of a goroutine: while it waits, one round of the loop, which takes the time \<open>e\<close>.\<close>

fun job_step ::
  "'k platform \<Rightarrow> order \<Rightarrow> 'r NDClient \<Rightarrow> int \<Rightarrow> job \<Rightarrow> 'k world \<Rightarrow> 'r \<Rightarrow> (job \<times> 'k world \<times> 'r) option" where
  "job_step pf ord c e (Pending q ref) w r = job_start pf ord c q ref w r"
| "job_step pf ord c e (Waiting q ref socks remain) w r =
     (case wait_na pf (so_target q) socks remain [e] w of
        (None, w) \<Rightarrow> Some (Waiting q ref socks (map_option (\<lambda>t. t - e) remain), w, r)
      | (Some Panic, w) \<Rightarrow> Some (Crashed, w, r)
      | (Some (Ret (Inr (Some hw))), w) \<Rightarrow> Some (Found q ref, w, r)
      | (Some (Ret _), w) \<Rightarrow> Some (Done, w, r))"
| "job_step pf ord c e (Found q ref) w r = Some (job_answer pf c q ref w r)"
| "job_step pf ord c e j w r = Some (j, w, r)"

section \<open>The system\<close>

text \<open>
  What the router advertisement client makes of what \<open>receive\<close> returns: the first
  information needs a prefix, later ones have to differ from the one before.
\<close>

definition learn ::
  "'k platform \<Rightarrow> 'r RAClient \<Rightarrow> bool \<Rightarrow> RouterInfo option \<Rightarrow> 'k world \<Rightarrow> RouterInfo option go \<times> 'k world" where
  "learn pf rc canceled rinfo w =
     (case receive pf rc canceled (rinfo = None) w of
        (Panic, w) \<Rightarrow> (Panic, w)
      | (Ret (Inl e), w) \<Rightarrow> (Ret rinfo, w)
      | (Ret (Inr new), w) \<Rightarrow>
          (Ret (if (case rinfo of None \<Rightarrow> net_IP (ri_prefix new) \<noteq> None | Some old \<Rightarrow> info_changed new old)
                then Some new else rinfo), w))"

text \<open>
  The last two fields only record: the router information of the moments since the solicitation the loop
  is looking at was read, and the goroutines started with what was recorded for them.
\<close>

record ('k, 'r) system =
  sy_rinfo :: "RouterInfo option"
  sy_phase :: nd_phase
  sy_jobs :: "job list"
  sy_world :: "'k world"
  sy_router :: 'r
  sy_held :: "RouterInfo option list"
  sy_started :: "(solicitation \<times> SockRef \<times> RouterInfo option list) list"

definition crashed :: "('k, 'r) system \<Rightarrow> bool" where
  "crashed st \<longleftrightarrow> sy_phase st = Panicked \<or> Crashed \<in> set (sy_jobs st)"

definition sys_init :: "'k world \<Rightarrow> 'r \<Rightarrow> ('k, 'r) system" where
  "sys_init w r =
     \<lparr>sy_rinfo = None, sy_phase = Idle, sy_jobs = [], sy_world = w, sy_router = r, sy_held = [], sy_started = []\<rparr>"

text \<open>
  The steps of the program's own goroutines: the router advertisement client learns information or
  reconciles the router with what it knows, the loop reads a solicitation, looks at a network or
  starts a goroutine, and a goroutine does its next step. Each changes what the code changes, and nothing else.
\<close>

inductive act ::
  "'k platform \<Rightarrow> RAConfig \<Rightarrow> 'r NDClient \<Rightarrow> SockRef list \<Rightarrow> ('k, 'r) system \<Rightarrow> ('k, 'r) system \<Rightarrow> bool"
  for pf racfg c refs where
  learns: "act pf racfg c refs st (st\<lparr>sy_rinfo := rinfo, sy_world := w, sy_held := rinfo # sy_held st\<rparr>)"
    if "rcl_cfg (rc :: 'r RAClient) = racfg" "learn pf rc canceled (sy_rinfo st) (sy_world st) = (Ret rinfo, w)"
| reconciles: "act pf racfg c refs st (st\<lparr>sy_router := r\<rparr>)"
    if "rcl_cfg (rc :: 'r RAClient) = racfg" "reconcile racfg (rcl_ros rc) (sy_rinfo st) (sy_router st) = (Ret l, r)"
| reads: "act pf racfg c refs st (st\<lparr>sy_world := w, sy_held := [sy_rinfo st], sy_phase := ph\<rparr>)"
    if "sy_phase st = Idle" "nd_read pf (ncl_cfg c) refs spare (sy_world st) = (ph, w)"
| checks: "act pf racfg c refs st (st\<lparr>sy_phase := check (ncl_cfg c) (sy_rinfo st) (sy_phase st)\<rparr>)"
| starts: "act pf racfg c refs st (st\<lparr>sy_phase := Idle, sy_jobs := sy_jobs st @ [Pending q ref],
      sy_started := (q, ref, sy_held st) # sy_started st\<rparr>)"
    if "sy_phase st = Accepted q ref"
| works: "act pf racfg c refs st (st\<lparr>sy_jobs := (sy_jobs st)[i := j], sy_world := w, sy_router := r\<rparr>)"
    if "i < length (sy_jobs st)" "job_step pf ord c e (sy_jobs st ! i) (sy_world st) (sy_router st) = Some (j, w, r)"

text \<open>
  The environment: packets that arrive, other programs, the router itself. It leaves router
  information and goroutines alone and is otherwise free.
\<close>

definition elsewhere :: "('k, 'r) system \<Rightarrow> ('k, 'r) system \<Rightarrow> bool" where
  "elsewhere st st' \<longleftrightarrow> (\<exists>w r. st' = st\<lparr>sy_world := w, sy_router := r\<rparr>)"

text \<open>
  A panic anywhere ends the process. \<open>sys_run\<close> is for what holds whatever the environment does; what
  the program can bring about by itself is shown with \<open>own_run\<close>, in which the environment does
  nothing but answer the system calls and commands of the steps.
\<close>

definition own_step ::
  "'k platform \<Rightarrow> RAConfig \<Rightarrow> 'r NDClient \<Rightarrow> SockRef list \<Rightarrow> ('k, 'r) system \<Rightarrow> ('k, 'r) system \<Rightarrow> bool" where
  "own_step pf racfg c refs st st' \<longleftrightarrow> \<not> crashed st \<and> act pf racfg c refs st st'"

definition own_run ::
  "'k platform \<Rightarrow> RAConfig \<Rightarrow> 'r NDClient \<Rightarrow> SockRef list \<Rightarrow> ('k, 'r) system \<Rightarrow> ('k, 'r) system \<Rightarrow> bool" where
  "own_run pf racfg c refs = (own_step pf racfg c refs)\<^sup>*\<^sup>*"

definition sys_step ::
  "'k platform \<Rightarrow> RAConfig \<Rightarrow> 'r NDClient \<Rightarrow> SockRef list \<Rightarrow> ('k, 'r) system \<Rightarrow> ('k, 'r) system \<Rightarrow> bool" where
  "sys_step pf racfg c refs st st' \<longleftrightarrow> \<not> crashed st \<and> (act pf racfg c refs st st' \<or> elsewhere st st')"

definition sys_run ::
  "'k platform \<Rightarrow> RAConfig \<Rightarrow> 'r NDClient \<Rightarrow> SockRef list \<Rightarrow> ('k, 'r) system \<Rightarrow> ('k, 'r) system \<Rightarrow> bool" where
  "sys_run pf racfg c refs = (sys_step pf racfg c refs)\<^sup>*\<^sup>*"

end
