(* ===== verification/SystemRuns.thy ===== *)
theory SystemRuns
  imports System RAProps
begin

text \<open>
  Runs of the system: how they compose, and that what the functions of the workers compute is a run
  of the system in which nothing else happens in between.
\<close>

section \<open>Runs\<close>

lemma run_refl: "own_run pf racfg c refs st st"
  by (simp add: own_run_def)

lemma run_trans: "own_run pf racfg c refs a b \<Longrightarrow> own_run pf racfg c refs b d \<Longrightarrow> own_run pf racfg c refs a d"
  unfolding own_run_def by (rule rtranclp_trans)

lemma run_act: "\<not> crashed st \<Longrightarrow> act pf racfg c refs st st' \<Longrightarrow> own_run pf racfg c refs st st'"
  by (simp add: own_run_def own_step_def r_into_rtranclp)

lemma own_run_sys: "own_run pf racfg c refs st st' \<Longrightarrow> sys_run pf racfg c refs st st'"
  unfolding own_run_def sys_run_def
  by (erule rtranclp_mono [THEN predicate2D, rotated]) (auto simp: own_step_def sys_step_def)

lemma run_invariant:
  assumes "sys_run pf racfg c refs st st'" "P st"
    and "\<And>st st'. P st \<Longrightarrow> act pf racfg c refs st st' \<Longrightarrow> P st'"
    and "\<And>st st'. P st \<Longrightarrow> elsewhere st st' \<Longrightarrow> P st'"
  shows "P st'"
  using assms(1) unfolding sys_run_def
  by (induction rule: rtranclp_induct) (auto simp: sys_step_def intro: assms(2-4))

text \<open>Whether a network contains a target, under the router information of a moment.\<close>

definition covers :: "RouterInfo option \<Rightarrow> FlexibleIP \<Rightarrow> bytes \<Rightarrow> bool" where
  "covers rinfo f t \<longleftrightarrow> (\<exists>n. ResolveFIP rinfo f = Ret (Some n) \<and> Contains n t)"

lemma nd_read_phase: "nd_read pf cfg refs spare w = (ph, w') \<Longrightarrow>
    (\<exists>q sr. ph = InPrefixes q sr (ndc_prefixes cfg)) \<or> ph = Idle \<or> ph = Panicked \<or> (\<exists>e. ph = Stopped e)"
  unfolding nd_read_def by (auto split: prod.splits option.splits go.splits if_splits)

section \<open>A goroutine by itself\<close>

fun job_run ::
  "'k platform \<Rightarrow> order \<Rightarrow> 'r NDClient \<Rightarrow> int list \<Rightarrow> job \<Rightarrow> 'k world \<Rightarrow> 'r \<Rightarrow> (job \<times> 'k world \<times> 'r) option" where
  "job_run pf ord c [] j w r = Some (j, w, r)"
| "job_run pf ord c (e # es) j w r =
     (case job_step pf ord c e j w r of None \<Rightarrow> None | Some (j, w, r) \<Rightarrow> job_run pf ord c es j w r)"

lemma job_run_append:
  "job_run pf ord c (es @ es') j w r =
     (case job_run pf ord c es j w r of None \<Rightarrow> None | Some (j, w, r) \<Rightarrow> job_run pf ord c es' j w r)"
  by (induction es arbitrary: j w r) (auto split: option.splits)

lemma job_run_crashed: "job_run pf ord c es Crashed w r = Some (Crashed, w, r)"
  by (induction es) auto

text \<open>The loop of the wait, round by round.\<close>

definition wait_end :: "solicitation \<Rightarrow> SockRef \<Rightarrow> (sock_error + slice) go \<Rightarrow> job" where
  "wait_end q ref res = (case res of Panic \<Rightarrow> Crashed | Ret (Inr (Some hw)) \<Rightarrow> Found q ref | Ret _ \<Rightarrow> Done)"

lemma job_step_wait:
  "job_step pf ord c e (Waiting q ref socks remain) w r =
     (case wait_na pf (so_target q) socks remain [e] w of
        (None, w) \<Rightarrow> Some (Waiting q ref socks (map_option (\<lambda>t. t - e) remain), w, r)
      | (Some res, w) \<Rightarrow> Some (wait_end q ref res, w, r))"
  by (auto simp: wait_end_def split: prod.splits option.splits go.splits sum.splits)

lemma wait_na_first:
  "wait_na pf ip socks remain (e # es) w =
     (case wait_na pf ip socks remain [e] w of
        (None, w) \<Rightarrow> wait_na pf ip socks (map_option (\<lambda>t. t - e) remain) es w
      | (Some res, w) \<Rightarrow> (Some res, w))"
proof -
  have stop: "wait_na pf ip socks (Some t) es w = (Some (Ret (Inr None)), w)" if "\<not> 0 < t" for t w
    using that by (cases es) simp_all
  show ?thesis
    by (auto simp: stop split: prod.splits option.splits)
qed

declare job_step.simps(2) [simp del] wait_na.simps(2) [simp del]

lemma wait_run:
  "wait_na pf (so_target q) socks remain es w = (Some res, w') \<Longrightarrow>
     \<exists>es'. job_run pf ord c es' (Waiting q ref socks remain) w r = Some (wait_end q ref res, w', r)"
proof (induction es arbitrary: remain w)
  case Nil
  then have "wait_na pf (so_target q) socks remain [0] w = (Some res, w')"
    by (auto simp: wait_na.simps(2) split: if_splits)
  then show ?case
    by (intro exI [where x = "[0]"]) (simp add: job_step_wait)
next
  case (Cons e es)
  obtain x w1 where first: "wait_na pf (so_target q) socks remain [e] w = (x, w1)" by fastforce
  show ?case
  proof (cases x)
    case None
    with Cons.prems first have "wait_na pf (so_target q) socks (map_option (\<lambda>t. t - e) remain) es w1 = (Some res, w')"
      by (subst (asm) wait_na_first) simp
    from Cons.IH [OF this] obtain es' where
      "job_run pf ord c es' (Waiting q ref socks (map_option (\<lambda>t. t - e) remain)) w1 r = Some (wait_end q ref res, w', r)" ..
    with None first show ?thesis
      by (intro exI [where x = "e # es'"]) (simp add: job_step_wait)
  next
    case (Some res')
    with Cons.prems first have "res' = res" "w1 = w'"
      by (subst (asm) wait_na_first, simp)+
    with Some first show ?thesis
      by (intro exI [where x = "[e]"]) (simp add: job_step_wait)
  qed
qed

text \<open>The outcome of \<open>processNd\<close> as the last state of the goroutine.\<close>

definition job_end :: "unit go \<Rightarrow> job" where
  "job_end x = (case x of Panic \<Rightarrow> Crashed | Ret _ \<Rightarrow> Done)"

lemma processNd_answer:
  "processNd pf ord c q ref es w r =
     (case find_neighbor pf ord c (so_target q) (so_spare q) es w r of
        (None, w, r) \<Rightarrow> (None, w, r)
      | (Some Panic, w, r) \<Rightarrow> (Some Panic, w, r)
      | (Some (Ret (None, bg)), w, r) \<Rightarrow> (Some (Ret ()), w, r)
      | (Some (Ret (Some hw, bg)), w, r) \<Rightarrow>
          (case job_answer pf c q ref w r of (j, w, r) \<Rightarrow> (Some (if j = Crashed then Panic else Ret ()), w, r)))"
  by (auto simp: processNd_def job_answer_def Let_def split: prod.splits option.splits go.splits)

lemma job_answer_end: "job_answer pf c q ref w r = (j, w', r') \<Longrightarrow> j = Crashed \<or> j = Done"
  by (auto simp: job_answer_def split: prod.splits option.splits go.splits)

lemma found_run:
  "job_answer pf c q ref w r = (j, w', r') \<Longrightarrow>
     job_run pf ord c [0] (Found q ref) w r = Some (job_end (if j = Crashed then Panic else Ret ()), w', r')"
  using job_answer_end [of pf c q ref w r j w' r'] by (auto simp: job_end_def)

text \<open>In the other modes than \<open>proxy\<close> the times of the schedule are not used.\<close>

lemma find_neighbor_times:
  "ndc_mode (ncl_cfg c) \<noteq> ''proxy'' \<Longrightarrow>
     find_neighbor pf ord c ip spare es w r = find_neighbor pf ord c ip spare [] w r"
  by (simp add: find_neighbor_def Let_def)

text \<open>The proxy's own solicitation, started and waited for.\<close>

lemma solicit_run:
  assumes "ndc_mode (ncl_cfg c) = ''proxy''"
    and "solicitInternal pf ord c (so_target q) (so_spare q) es w = (Some res, w')"
  shows "\<exists>es'. job_run pf ord c es' (Pending q ref) w r = Some (wait_end q ref res, w', r)"
proof -
  let ?m = "case ncl_intSocks c of None \<Rightarrow> [] | Some m \<Rightarrow> m"
  let ?refs = "map (\<lambda>k. the (map_of ?m k)) (ord (map fst ?m))"
  let ?socks = "map (\<lambda>sr. the (sr_s sr)) ?refs" and ?t = "na_timeout (ndc_timeoutMs (ncl_cfg c))"
  have first: "job_run pf ord c [0] (Pending q ref) w r = job_start pf ord c q ref w r"
    by (simp split: option.splits)
  have waited: "\<exists>es'. job_run pf ord c es' (Pending q ref) w r = Some (wait_end q ref res, w2, r)"
    if "job_start pf ord c q ref w r = Some (Waiting q ref ?socks ?t, w1, r)"
      "wait_na pf (so_target q) ?socks ?t es w1 = (Some res, w2)" for w1 w2
    using wait_run [OF that(2), of ord c ref r] that(1) first
    by (metis (no_types, lifting) job_run_append option.case(2) prod.case)
  have ended: "\<exists>es'. job_run pf ord c es' (Pending q ref) w r = Some (wait_end q ref res, w', r)"
    if "job_start pf ord c q ref w r = Some (wait_end q ref res, w', r)"
    using that first by metis
  show ?thesis
  proof (cases "multicastAddr (bs (so_target q)) (so_spare q)")
    case Panic
    with assms show ?thesis
      by (intro ended) (simp add: solicitInternal_def job_start_def wait_end_def)
  next
    case (Ret d)
    obtain dstIP dstMAC where d: "d = (dstIP, dstMAC)" by fastforce
    note defs = solicitInternal_def job_start_def wait_end_def Let_def Ret d
    show ?thesis
    proof (cases "send_requests pf dstIP dstMAC (so_target q) ?refs w")
      case None
      with assms show ?thesis by (simp add: defs)
    next
      case (Some y)
      obtain z w1 where y: "y = (z, w1)" by fastforce
      show ?thesis
      proof (cases "z = Ret None")
        case True
        with assms Some y show ?thesis by (intro waited) (simp_all add: defs)
      next
        case False
        with assms Some y show ?thesis
          by (intro ended) (auto simp: defs split: go.splits option.splits)
      qed
    qed
  qed
qed

lemma job_alone:
  assumes "processNd pf ord c q ref es w r = (Some x, w', r')"
  shows "\<exists>es'. job_run pf ord c es' (Pending q ref) w r = Some (job_end x, w', r')"
proof -
  have answer: "\<exists>es'. job_run pf ord c es' (Pending q ref) w r = Some (job_end x, w', r')"
    if "job_run pf ord c es1 (Pending q ref) w r = Some (Found q ref, w1, r1)"
      "(case job_answer pf c q ref w1 r1 of (j, w, r) \<Rightarrow> (Some (if j = Crashed then Panic else Ret ()), w, r)) = (Some x, w', r')"
    for es1 w1 r1
    using that found_run [of pf c q ref w1 r1 _ w' r' ord]
    by (intro exI [where x = "es1 @ [0]"]) (auto simp: job_run_append simp del: job_run.simps split: prod.splits)
  show ?thesis
  proof (cases "ndc_mode (ncl_cfg c) = ''proxy''")
    case False
    obtain y w1 r1 where find: "find_neighbor pf ord c (so_target q) (so_spare q) [] w r = (y, w1, r1)" by (metis prod_cases3)
    have first: "job_run pf ord c [0] (Pending q ref) w r = job_start pf ord c q ref w r"
      by (simp split: option.splits)
    show ?thesis
      using assms False find answer [of "[0]"] unfolding processNd_answer find_neighbor_times [OF False, of _ _ _ _ es]
      by (auto simp: first job_start_def job_end_def simp del: job_run.simps split: option.splits go.splits prod.splits
          intro!: exI [where x = "[0]"])
  next
    case True
    have solicited: "\<exists>es'. job_run pf ord c es' (Pending q ref) w r = Some (job_end x, w', r')"
      if sol: "solicitInternal pf ord c (so_target q) (so_spare q) es w = (Some res, w1)"
        and out: "wait_end q ref res = job_end x \<and> w1 = w' \<and> r' = r \<or>
          (\<exists>hw. res = Ret (Inr (Some hw))) \<and>
          (case job_answer pf c q ref w1 r of (j, w, r) \<Rightarrow> (Some (if j = Crashed then Panic else Ret ()), w, r)) = (Some x, w', r')"
      for res w1
      using solicit_run [OF True sol, of ref r] out answer [of _ w1 r] by (auto simp: wait_end_def)
    show ?thesis
      using assms True solicited unfolding processNd_answer find_neighbor_def Let_def
      by (auto simp: wait_end_def job_end_def split: go.splits prod.splits option.splits sum.splits if_splits)
  qed
qed

section \<open>The functions of the workers as runs\<close>

lemma crashed_phase: "\<not> crashed st \<Longrightarrow> ph \<noteq> Panicked \<Longrightarrow> \<not> crashed (st\<lparr>sy_phase := ph\<rparr>)"
  by (simp add: crashed_def)

lemma jobs_run:
  assumes "job_run pf ord c es j w r = Some (j', w', r')" "\<not> crashed st" "i < length (sy_jobs st)"
    and "sy_jobs st ! i = j" "sy_world st = w" "sy_router st = r"
  shows "own_run pf racfg c refs st (st\<lparr>sy_jobs := (sy_jobs st)[i := j'], sy_world := w', sy_router := r'\<rparr>)"
  using assms
proof (induction es arbitrary: j w r st)
  case Nil
  then have "st\<lparr>sy_jobs := (sy_jobs st)[i := j'], sy_world := w', sy_router := r'\<rparr> = st" by (auto simp: list_update_same_conv)
  then show ?case by (simp add: run_refl)
next
  case (Cons e es)
  then obtain j1 w1 r1 where step: "job_step pf ord c e j w r = Some (j1, w1, r1)"
      and rest: "job_run pf ord c es j1 w1 r1 = Some (j', w', r')"
    by (auto split: option.splits)
  let ?st = "st\<lparr>sy_jobs := (sy_jobs st)[i := j1], sy_world := w1, sy_router := r1\<rparr>"
  have "act pf racfg c refs st ?st"
    by (rule act.works [where ord = ord and e = e]) (use step Cons.prems in simp_all)
  then have run: "own_run pf racfg c refs st ?st" by (rule run_act [OF Cons.prems(2)])
  show ?case
  proof (cases "j1 = Crashed")
    case True
    with rest have "j' = j1" "w' = w1" "r' = r1" by (simp_all add: job_run_crashed)
    with run show ?thesis by simp
  next
    case False
    then have "\<not> crashed ?st"
      using Cons.prems(2) set_update_subset_insert [of "sy_jobs st" i j1] by (auto simp: crashed_def)
    from Cons.IH [OF rest this] Cons.prems(3) have "own_run pf racfg c refs ?st
        (?st\<lparr>sy_jobs := (sy_jobs ?st)[i := j'], sy_world := w', sy_router := r'\<rparr>)" by simp
    then show ?thesis using run_trans [OF run] by simp
  qed
qed

lemma goroutine_run:
  assumes "processNd pf ord c q ref es (sy_world st) (sy_router st) = (Some x, w', r')"
    and "\<not> crashed st" "i < length (sy_jobs st)" "sy_jobs st ! i = Pending q ref"
  shows "own_run pf racfg c refs st (st\<lparr>sy_jobs := (sy_jobs st)[i := job_end x], sy_world := w', sy_router := r'\<rparr>)"
  using job_alone [OF assms(1)] jobs_run [OF _ assms(2-4)] by blast

lemma check_run: "\<not> crashed st \<Longrightarrow> own_run pf racfg c refs st (st\<lparr>sy_phase := check (ncl_cfg c) (sy_rinfo st) (sy_phase st)\<rparr>)"
  by (rule run_act [OF _ act.checks])

text \<open>Both loops over networks are one search; \<open>K\<close> is the phase with the networks left.\<close>

lemma search_run:
  assumes "\<And>rinfo. check (ncl_cfg c) rinfo (K []) = miss"
    and "\<And>rinfo f fs. check (ncl_cfg c) rinfo (K (f # fs)) =
      (case ResolveFIP rinfo f of Panic \<Rightarrow> Panicked | Ret None \<Rightarrow> K fs | Ret (Some n) \<Rightarrow> if Contains n t then hit else K fs)"
    and "\<And>fs. K fs \<noteq> Panicked"
    and "\<not> crashed st" "sy_phase st = K fs" "in_any ResolveFIP (sy_rinfo st) fs t = Ret b"
  shows "own_run pf racfg c refs st (st\<lparr>sy_phase := if b then hit else miss\<rparr>)"
  using assms(4-6)
proof (induction fs arbitrary: st)
  case Nil
  then show ?case using check_run [OF Nil.prems(1), of pf racfg c refs] by (simp add: assms(1))
next
  case (Cons f fs)
  note step = check_run [OF Cons.prems(1), of pf racfg c refs, unfolded Cons.prems(2) assms(2)]
  show ?case
  proof (cases "covers (sy_rinfo st) f t")
    case True
    then show ?thesis using step Cons.prems(3) by (auto simp: covers_def)
  next
    case False
    then have "in_any ResolveFIP (sy_rinfo st) fs t = Ret b" "own_run pf racfg c refs st (st\<lparr>sy_phase := K fs\<rparr>)"
      using Cons.prems(3) step by (auto simp: covers_def split: go.splits option.splits if_splits)
    with Cons.IH [of "st\<lparr>sy_phase := K fs\<rparr>"] crashed_phase [OF Cons.prems(1) assms(3)] show ?thesis
      using run_trans [of pf racfg c refs st "st\<lparr>sy_phase := K fs\<rparr>"] by simp
  qed
qed

lemma test_run:
  assumes "\<not> crashed st" "sy_phase st = InPrefixes q sr (ndc_prefixes (ncl_cfg c))"
    and "accepts (ncl_cfg c) (sy_rinfo st) (bs (so_target q)) = Ret b"
  shows "own_run pf racfg c refs st (st\<lparr>sy_phase := if b then Accepted q sr else Idle\<rparr>)"
proof -
  obtain b1 where b1: "in_any ResolveFIP (sy_rinfo st) (ndc_prefixes (ncl_cfg c)) (bs (so_target q)) = Ret b1"
    using assms(3) by (auto simp: accepts_def split: go.splits)
  let ?ph = "if b1 then InExcludes q sr (ndc_excludes (ncl_cfg c)) else Idle"
  have first: "own_run pf racfg c refs st (st\<lparr>sy_phase := ?ph\<rparr>)"
    by (rule search_run [where K = "InPrefixes q sr", OF _ _ _ assms(1,2) b1]) simp_all
  show ?thesis
  proof (cases b1)
    case False
    with assms(3) b1 first show ?thesis by (simp add: accepts_def)
  next
    case True
    then have b2: "in_any ResolveFIP (sy_rinfo st) (ndc_excludes (ncl_cfg c)) (bs (so_target q)) = Ret (\<not> b)"
      using assms(3) b1 by (auto simp: accepts_def split: go.splits)
    have "own_run pf racfg c refs (st\<lparr>sy_phase := ?ph\<rparr>) (st\<lparr>sy_phase := ?ph\<rparr>\<lparr>sy_phase := if \<not> b then Idle else Accepted q sr\<rparr>)"
      by (rule search_run [where K = "InExcludes q sr" and fs = "ndc_excludes (ncl_cfg c)"])
        (use True b2 crashed_phase [OF assms(1)] in simp_all)
    then show ?thesis using run_trans [OF first] by (cases b) simp_all
  qed
qed

text \<open>\<open>nd_receive\<close> is \<open>nd_read\<close> followed by the test.\<close>

lemma nd_receive_read:
  "nd_receive pf cfg refs rinfo spare w =
     (case nd_read pf cfg refs spare w of
        (InPrefixes q sr fs, w) \<Rightarrow>
          (case accepts cfg rinfo (bs (so_target q)) of
             Panic \<Rightarrow> (Panic, w) | Ret b \<Rightarrow> (Ret (if b then NDStart q sr else NDIgnore), w))
      | (Stopped e, w) \<Rightarrow> (Ret (NDFail e), w)
      | (Panicked, w) \<Rightarrow> (Panic, w)
      | (_, w) \<Rightarrow> (Ret NDIgnore, w))"
  by (auto simp: nd_receive_def nd_read_def Let_def split: prod.splits option.splits go.splits bool.splits)

definition pend :: "solicitation \<times> SockRef \<Rightarrow> job" where
  "pend j = Pending (fst j) (snd j)"

text \<open>A round of the loop, from waiting for a packet to waiting for the next.\<close>

lemma receive_run:
  assumes "nd_receive pf (ncl_cfg c) refs (sy_rinfo st) spare (sy_world st) = (Ret ev, w)"
    and "\<not> crashed st" "sy_phase st = Idle" "\<And>e. ev \<noteq> NDFail e"
  shows "\<exists>held started. own_run pf racfg c refs st (st\<lparr>sy_world := w, sy_held := held, sy_phase := Idle,
    sy_jobs := sy_jobs st @ (case ev of NDStart q sr \<Rightarrow> [Pending q sr] | _ \<Rightarrow> []), sy_started := started\<rparr>)"
proof -
  obtain ph w1 where read: "nd_read pf (ncl_cfg c) refs spare (sy_world st) = (ph, w1)" by fastforce
  let ?st = "st\<lparr>sy_world := w1, sy_held := [sy_rinfo st], sy_phase := ph\<rparr>"
  have first: "own_run pf racfg c refs st ?st"
    by (rule run_act [OF assms(2) act.reads [OF assms(3) read]])
  show ?thesis
  proof (cases ph)
    case Idle
    with assms(1,3) read first show ?thesis
      by (intro exI [where x = "[sy_rinfo st]"] exI [where x = "sy_started st"]) (simp add: nd_receive_read)
  next
    case (InPrefixes q sr fs)
    with nd_read_phase [OF read] have fs: "fs = ndc_prefixes (ncl_cfg c)" by auto
    obtain b where b: "accepts (ncl_cfg c) (sy_rinfo st) (bs (so_target q)) = Ret b"
        "ev = (if b then NDStart q sr else NDIgnore)" "w1 = w"
      using assms(1) read InPrefixes by (auto simp: nd_receive_read split: go.splits)
    have ok: "\<not> crashed ?st" using assms(2) InPrefixes by (simp add: crashed_def)
    have "own_run pf racfg c refs ?st (?st\<lparr>sy_phase := if b then Accepted q sr else Idle\<rparr>)"
      by (rule test_run [OF ok]) (use InPrefixes fs b(1) in simp_all)
    note tested = run_trans [OF first this]
    show ?thesis
    proof (cases b)
      case False
      with tested b assms(3) show ?thesis
        by (intro exI [where x = "[sy_rinfo st]"] exI [where x = "sy_started st"]) simp
    next
      case True
      let ?acc = "?st\<lparr>sy_phase := Accepted q sr\<rparr>"
      have "\<not> crashed ?acc" using crashed_phase [OF ok] by blast
      from run_act [OF this act.starts] have "own_run pf racfg c refs ?acc (?acc\<lparr>sy_phase := Idle,
          sy_jobs := sy_jobs ?acc @ [Pending q sr], sy_started := (q, sr, sy_held ?acc) # sy_started ?acc\<rparr>)" by simp
      from run_trans [OF _ this, of st] tested True b assms(3) show ?thesis
        by (intro exI [where x = "[sy_rinfo st]"] exI [where x = "(q, sr, [sy_rinfo st]) # sy_started st"]) simp
    qed
  qed (use assms(1,4) read nd_read_phase [OF read] in \<open>auto simp: nd_receive_read\<close>)
qed

lemma loop_run:
  assumes "nd_loop pf (ncl_cfg c) refs sched w = (Ret None, jobs, w')"
    and "\<forall>x\<in>set sched. fst x = sy_rinfo st" "\<not> crashed st" "sy_phase st = Idle" "sy_world st = w"
  shows "\<exists>held started. own_run pf racfg c refs st
    (st\<lparr>sy_world := w', sy_held := held, sy_phase := Idle, sy_jobs := sy_jobs st @ map pend jobs, sy_started := started\<rparr>)"
  using assms
proof (induction sched arbitrary: st w jobs)
  case Nil
  then have "st\<lparr>sy_world := w', sy_held := sy_held st, sy_phase := Idle, sy_jobs := sy_jobs st @ map pend jobs, sy_started := sy_started st\<rparr> = st"
    by auto
  then show ?case by (metis run_refl)
next
  case (Cons x sched)
  obtain rinfo spare where x: "x = (rinfo, spare)" by fastforce
  with Cons.prems(2) have rinfo: "rinfo = sy_rinfo st" by simp
  obtain ev w1 where ev: "nd_receive pf (ncl_cfg c) refs (sy_rinfo st) spare (sy_world st) = (Ret ev, w1)"
      "\<And>e. ev \<noteq> NDFail e"
    using Cons.prems(1,5) x rinfo by (auto split: prod.splits go.splits nd_event.splits)
  let ?new = "case ev of NDStart q sr \<Rightarrow> [(q, sr)] | _ \<Rightarrow> []"
  obtain jobs' where rest: "nd_loop pf (ncl_cfg c) refs sched w1 = (Ret None, jobs', w')" "jobs = ?new @ jobs'"
    using Cons.prems(1,5) x rinfo ev by (auto split: prod.splits nd_event.splits)
  have new: "(case ev of NDStart q sr \<Rightarrow> [Pending q sr] | _ \<Rightarrow> []) = map pend ?new"
    by (cases ev) (simp_all add: pend_def)
  obtain held started where run: "own_run pf racfg c refs st (st\<lparr>sy_world := w1, sy_held := held, sy_phase := Idle,
      sy_jobs := sy_jobs st @ map pend ?new, sy_started := started\<rparr>)" (is "own_run _ _ _ _ _ ?st")
    using receive_run [OF ev(1) Cons.prems(3,4) ev(2), of racfg] new by auto
  have ok: "\<not> crashed ?st"
    using Cons.prems(3) by (auto simp: crashed_def pend_def)
  obtain held' started' where "own_run pf racfg c refs ?st (?st\<lparr>sy_world := w', sy_held := held', sy_phase := Idle,
      sy_jobs := sy_jobs ?st @ map pend jobs', sy_started := started'\<rparr>)"
    using Cons.IH [of w1 jobs' ?st, OF rest(1) _ ok] Cons.prems(2,4) by auto
  from run_trans [OF run this] rest(2) show ?case
    by (intro exI [where x = held'] exI [where x = started']) simp
qed

text \<open>The router advertisement worker: its solicitation and every round of its loop \<open>learn\<close>.\<close>

lemma soilicit_learns:
  assumes "soilicit pf b c w = (Ret None, c', w')" "rcl_routerInfo c = None"
  shows "\<exists>w1. learn pf c b None w1 = (Ret (rcl_routerInfo c'), w')"
proof -
  obtain w1 rinfo where "receive pf c b True w1 = (Ret (Inr rinfo), w')" "net_IP (ri_prefix rinfo) \<noteq> None"
      "rcl_routerInfo c' = Some rinfo"
    using assms unfolding soilicit_def
    by (auto simp: Let_def split: option.splits prod.splits go.splits sum.splits if_splits)
  then show ?thesis by (intro exI [where x = w1]) (auto simp: learn_def)
qed

lemma listen_step_learns:
  assumes "listen_step pf b st = (Ret None, st')"
  shows "learn pf (rt_client st) b (rcl_routerInfo (rt_client st)) (rt_world st) =
      (Ret (rcl_routerInfo (rt_client st')), rt_world st')"
  using assms unfolding listen_step_def learn_def
  by (auto simp: Let_def client_reconcile_def split: option.splits prod.splits go.splits sum.splits if_splits)

lemma listen_step_router:
  assumes "listen_step pf b st = (Ret None, st')"
  shows "rt_router st' = rt_router st \<or>
     (\<exists>l. reconcile (rcl_cfg (rt_client st)) (rcl_ros (rt_client st)) (rcl_routerInfo (rt_client st')) (rt_router st) =
        (Ret l, rt_router st'))"
  using assms unfolding listen_step_def
  by (auto simp: Let_def client_reconcile_def split: option.splits prod.splits go.splits sum.splits if_splits)

lemma listen_run:
  assumes "listen pf sels rt = (Ret None, rt')" "\<not> crashed st" "rcl_cfg (rt_client rt) = racfg"
    and "sy_rinfo st = rcl_routerInfo (rt_client rt)" "sy_world st = rt_world rt" "sy_router st = rt_router rt"
  shows "\<exists>held. own_run pf racfg c refs st
    (st\<lparr>sy_rinfo := rcl_routerInfo (rt_client rt'), sy_held := held, sy_world := rt_world rt', sy_router := rt_router rt'\<rparr>)"
  using assms
proof (induction sels arbitrary: rt st)
  case Nil
  then have "st\<lparr>sy_rinfo := rcl_routerInfo (rt_client rt'), sy_held := sy_held st, sy_world := rt_world rt',
      sy_router := rt_router rt'\<rparr> = st" by auto
  then show ?case by (metis run_refl)
next
  case (Cons sel sels)
  obtain rt1 where step: "listen_step pf sel rt = (Ret None, rt1)" and rest: "listen pf sels rt1 = (Ret None, rt')"
    using Cons.prems(1) by (auto split: prod.splits go.splits option.splits)
  let ?held = "rcl_routerInfo (rt_client rt1) # sy_held st"
  let ?st1 = "st\<lparr>sy_rinfo := rcl_routerInfo (rt_client rt1), sy_world := rt_world rt1, sy_held := ?held\<rparr>"
  let ?st2 = "st\<lparr>sy_rinfo := rcl_routerInfo (rt_client rt1), sy_held := ?held, sy_world := rt_world rt1, sy_router := rt_router rt1\<rparr>"
  have "act pf racfg c refs st ?st1"
    by (rule act.learns [where rc = "rt_client rt" and canceled = sel]) (use Cons.prems(3-5) listen_step_learns [OF step] in simp_all)
  note first = run_act [OF Cons.prems(2) this]
  have ok: "\<not> crashed ?st1" "\<not> crashed ?st2" using Cons.prems(2) by (simp_all add: crashed_def)
  have "own_run pf racfg c refs ?st1 ?st2"
  proof (cases "rt_router rt1 = rt_router rt")
    case True
    then have "?st2 = ?st1" using Cons.prems(6) by simp
    then show ?thesis by (simp only: run_refl)
  next
    case False
    with listen_step_router [OF step] obtain l where
      "reconcile racfg (rcl_ros (rt_client rt)) (rcl_routerInfo (rt_client rt1)) (rt_router rt) = (Ret l, rt_router rt1)"
      using Cons.prems(3) by auto
    then have "act pf racfg c refs ?st1 (?st1\<lparr>sy_router := rt_router rt1\<rparr>)"
      by (intro act.reconciles [where rc = "rt_client rt"]) (use Cons.prems(3,6) in simp_all)
    note run_act [OF ok(1) this]
    moreover have "?st1\<lparr>sy_router := rt_router rt1\<rparr> = ?st2" by (cases st) simp
    ultimately show ?thesis by (simp only:)
  qed
  note second = run_trans [OF first this]
  have "rcl_cfg (rt_client rt1) = racfg" using kept_listen_step [OF step] Cons.prems(3) by (simp add: kept_def)
  from Cons.IH [OF rest ok(2) this] obtain held where "own_run pf racfg c refs ?st2 (?st2\<lparr>sy_rinfo := rcl_routerInfo (rt_client rt'),
      sy_held := held, sy_world := rt_world rt', sy_router := rt_router rt'\<rparr>)" by auto
  from run_trans [OF second this] show ?case by (intro exI [where x = held]) simp
qed

end
