(* ===== verification/SystemProps.thy ===== *)
theory SystemProps
  imports SystemRuns DaemonProps
begin

text \<open>
  Properties of the workers side by side: what is behind every goroutine that answers, in any
  interleaving; that the functions of the workers are runs of the system; and two races.
\<close>

section \<open>What is behind a goroutine\<close>

lemma in_nets_covers: "in_nets rinfo fs t \<longleftrightarrow> (\<exists>f\<in>set fs. covers rinfo f t)"
  by (simp add: in_nets_def covers_def)

definition shaped :: "RouterInfo option \<Rightarrow> bool" where
  "shaped rinfo \<longleftrightarrow> (\<forall>ri. rinfo = Some ri \<longrightarrow> rinfo_shape ri)"

lemma resolves: "wf_fip f \<Longrightarrow> shaped rinfo \<Longrightarrow> ResolveFIP rinfo f \<noteq> Panic"
  by (rule ra.returns) (simp_all add: shaped_def)

text \<open>A step of the test in terms of \<open>covers\<close>.\<close>

lemma check_covers:
  assumes "wf_fip f" "shaped rinfo"
  shows "check cfg rinfo (InPrefixes q sr (f # fs)) =
      (if covers rinfo f (bs (so_target q)) then InExcludes q sr (ndc_excludes cfg) else InPrefixes q sr fs)"
    and "check cfg rinfo (InExcludes q sr (f # fs)) =
      (if covers rinfo f (bs (so_target q)) then Idle else InExcludes q sr fs)"
  using resolves [OF assms] by (auto simp: covers_def split: go.splits option.splits)

text \<open>
  The moments \<open>is\<close> justify an answer for \<open>t\<close>: at one of them a network contained it, and
  each excluded network did not at one of them.
\<close>

definition justified :: "NDConfig \<Rightarrow> bytes \<Rightarrow> RouterInfo option list \<Rightarrow> bool" where
  "justified cfg t is \<longleftrightarrow> list_all shaped is \<and> (\<exists>i\<in>set is. in_nets i (ndc_prefixes cfg) t) \<and>
     (\<forall>f\<in>set (ndc_excludes cfg). \<exists>i\<in>set is. \<not> covers i f t)"

definition phase_ok :: "NDConfig \<Rightarrow> RouterInfo option list \<Rightarrow> nd_phase \<Rightarrow> bool" where
  "phase_ok cfg is ph \<longleftrightarrow> (case ph of
     InPrefixes q sr fs \<Rightarrow> set fs \<subseteq> set (ndc_prefixes cfg)
   | InExcludes q sr fs \<Rightarrow> (\<exists>i\<in>set is. in_nets i (ndc_prefixes cfg) (bs (so_target q))) \<and>
       (\<exists>gs. ndc_excludes cfg = gs @ fs \<and> (\<forall>f\<in>set gs. \<exists>i\<in>set is. \<not> covers i f (bs (so_target q))))
   | Accepted q sr \<Rightarrow> justified cfg (bs (so_target q)) is
   | _ \<Rightarrow> True)"

fun job_for :: "job \<Rightarrow> (solicitation \<times> SockRef) option" where
  "job_for (Pending q ref) = Some (q, ref)"
| "job_for (Waiting q ref socks remain) = Some (q, ref)"
| "job_for (Found q ref) = Some (q, ref)"
| "job_for j = None"

definition jobs_ok :: "NDConfig \<Rightarrow> ('k, 'r) system \<Rightarrow> bool" where
  "jobs_ok cfg st \<longleftrightarrow>
     (\<forall>(q, ref, is)\<in>set (sy_started st). justified cfg (bs (so_target q)) is) \<and>
     (\<forall>j\<in>set (sy_jobs st). \<forall>q ref. job_for j = Some (q, ref) \<longrightarrow> (\<exists>is. (q, ref, is) \<in> set (sy_started st)))"

definition sys_ok :: "NDConfig \<Rightarrow> ('k, 'r) system \<Rightarrow> bool" where
  "sys_ok cfg st \<longleftrightarrow> shaped (sy_rinfo st) \<and> list_all shaped (sy_held st) \<and>
     (if sy_held st = [] then sy_phase st = Idle else hd (sy_held st) = sy_rinfo st) \<and>
     phase_ok cfg (sy_held st) (sy_phase st) \<and> jobs_ok cfg st"

lemma sys_init_ok: "sys_ok cfg (sys_init w r)"
  by (simp add: sys_ok_def sys_init_def shaped_def phase_ok_def jobs_ok_def)

lemma phase_ok_Idle [simp]: "phase_ok cfg is Idle"
  by (simp add: phase_ok_def)

lemma phase_ok_mono: "phase_ok cfg is ph \<Longrightarrow> set is \<subseteq> set is' \<Longrightarrow> list_all shaped is' \<Longrightarrow> phase_ok cfg is' ph"
  unfolding phase_ok_def justified_def by (cases ph) (simp_all, (blast | meson subset_iff)+)

lemma learn_shaped: "learn pf rc b rinfo w = (Ret rinfo', w') \<Longrightarrow> shaped rinfo \<Longrightarrow> shaped rinfo'"
  unfolding learn_def
  by (auto simp: shaped_def split: prod.splits go.splits sum.splits option.splits if_splits dest: receive_shape)

text \<open>The test keeps its part of the invariant, and never panics.\<close>

lemma check_ok:
  assumes "wf_nd racfg cfg" "list_all shaped is" "shaped i" "i \<in> set is" "phase_ok cfg is ph"
  shows "phase_ok cfg is (check cfg i ph)" and "check cfg i ph = Panicked \<Longrightarrow> ph = Panicked"
proof -
  have wf: "f \<in> set (ndc_prefixes cfg) \<Longrightarrow> wf_fip f" "f \<in> set (ndc_excludes cfg) \<Longrightarrow> wf_fip f" for f
    using assms(1) by (auto simp: wf_nd_def)
  have "phase_ok cfg is (check cfg i ph) \<and> (check cfg i ph = Panicked \<longrightarrow> ph = Panicked)"
  proof (cases ph)
    case (InPrefixes q sr fs)
    show ?thesis
    proof (cases fs)
      case Nil
      then show ?thesis using InPrefixes by (simp add: phase_ok_def)
    next
      case (Cons f gs)
      then have f: "f \<in> set (ndc_prefixes cfg)" using assms(5) InPrefixes by (simp add: phase_ok_def)
      show ?thesis
        using InPrefixes Cons check_covers(1) [OF wf(1) [OF f] assms(3)] f assms(4,5)
        by (auto simp: phase_ok_def in_nets_covers)
    qed
  next
    case (InExcludes q sr fs)
    show ?thesis
    proof (cases fs)
      case Nil
      then show ?thesis using InExcludes assms(2,5) by (simp add: phase_ok_def justified_def)
    next
      case (Cons f gs)
      obtain hs where hs: "ndc_excludes cfg = hs @ fs" "\<forall>f\<in>set hs. \<exists>i\<in>set is. \<not> covers i f (bs (so_target q))"
        and pre: "\<exists>i\<in>set is. in_nets i (ndc_prefixes cfg) (bs (so_target q))"
        using assms(5) InExcludes by (auto simp: phase_ok_def)
      have f: "f \<in> set (ndc_excludes cfg)" using hs(1) Cons by simp
      have "phase_ok cfg is (InExcludes q sr gs)" if "\<not> covers i f (bs (so_target q))"
        unfolding phase_ok_def nd_phase.case using pre hs Cons that assms(4)
        by (intro conjI exI [where x = "hs @ [f]"]) auto
      then show ?thesis
        using InExcludes Cons check_covers(2) [OF wf(2) [OF f] assms(3)] by simp
    qed
  qed (use assms(5) in simp_all)
  then show "phase_ok cfg is (check cfg i ph)" "check cfg i ph = Panicked \<Longrightarrow> ph = Panicked" by blast+
qed

lemma job_step_for:
  "job_step pf ord c e j w r = Some (j', w', r') \<Longrightarrow> job_for j' = None \<or> job_for j' = job_for j"
  by (cases j) (auto simp: job_step.simps(2) job_start_def job_answer_def Let_def split: if_splits go.splits prod.splits option.splits sum.splits)

lemma jobs_update:
  assumes "jobs_ok cfg st" "i < length (sy_jobs st)" "job_for j = None \<or> job_for j = job_for (sy_jobs st ! i)"
  shows "jobs_ok cfg (st\<lparr>sy_jobs := (sy_jobs st)[i := j], sy_world := w, sy_router := r\<rparr>)"
proof -
  have "\<exists>is. (q, ref, is) \<in> set (sy_started st)"
    if "j' \<in> set ((sy_jobs st)[i := j])" "job_for j' = Some (q, ref)" for j' q ref
  proof -
    from that(1) set_update_subset_insert [of "sy_jobs st" i j] have "j' = j \<or> j' \<in> set (sy_jobs st)" by blast
    with that(2) assms(3) nth_mem [OF assms(2)] obtain j'' where "j'' \<in> set (sy_jobs st)" "job_for j'' = Some (q, ref)"
      by auto
    with assms(1) show ?thesis by (auto simp: jobs_ok_def)
  qed
  with assms(1) show ?thesis by (simp add: jobs_ok_def)
qed

lemma act_ok:
  assumes "wf_nd ra (ncl_cfg c)" "sys_ok (ncl_cfg c) st" "act pf racfg c refs st st'"
  shows "sys_ok (ncl_cfg c) st'"
  using assms(3)
proof cases
  case (learns rc canceled rinfo w)
  have s: "shaped rinfo" using learn_shaped [OF learns(3)] assms(2) by (simp add: sys_ok_def)
  have "phase_ok (ncl_cfg c) (rinfo # sy_held st) (sy_phase st)"
    by (rule phase_ok_mono [of _ "sy_held st"]) (use assms(2) s in \<open>auto simp: sys_ok_def\<close>)
  with s assms(2) learns(1) show ?thesis by (simp add: sys_ok_def jobs_ok_def)
next
  case (reconciles rc l r)
  with assms(2) show ?thesis by (simp add: sys_ok_def jobs_ok_def)
next
  case (reads spare ph w)
  have "phase_ok (ncl_cfg c) [sy_rinfo st] ph"
    using nd_read_phase [OF reads(3)] by (auto simp: phase_ok_def)
  with reads(1) assms(2) show ?thesis by (simp add: sys_ok_def jobs_ok_def)
next
  case checks
  show ?thesis
  proof (cases "sy_held st = []")
    case True
    with checks assms(2) show ?thesis by (simp add: sys_ok_def jobs_ok_def)
  next
    case False
    then have "sy_rinfo st \<in> set (sy_held st)" using assms(2) by (metis sys_ok_def hd_in_set)
    with check_ok(1) [OF assms(1), of "sy_held st" "sy_rinfo st" "sy_phase st"] assms(2) False checks
    show ?thesis by (simp add: sys_ok_def jobs_ok_def)
  qed
next
  case (starts q ref)
  then have "justified (ncl_cfg c) (bs (so_target q)) (sy_held st)"
    using assms(2) by (simp add: sys_ok_def phase_ok_def)
  with starts assms(2) have "jobs_ok (ncl_cfg c) st'"
    by (auto simp: sys_ok_def jobs_ok_def) blast+
  with starts(1) assms(2) show ?thesis by (simp add: sys_ok_def split: if_splits)
next
  case (works i ord e j w r)
  have "jobs_ok (ncl_cfg c) st'"
    unfolding works(1) by (rule jobs_update [OF _ works(2) job_step_for [OF works(3)]]) (use assms(2) in \<open>simp add: sys_ok_def\<close>)
  with works(1) assms(2) show ?thesis by (simp add: sys_ok_def)
qed

lemma run_ok:
  assumes "wf_nd ra (ncl_cfg c)" "sys_run pf racfg c refs st st'" "sys_ok (ncl_cfg c) st"
  shows "sys_ok (ncl_cfg c) st'"
  using assms(2,3)
  by (rule run_invariant) (rule act_ok [OF assms(1)], assumption, assumption, auto simp: elsewhere_def sys_ok_def jobs_ok_def)

text \<open>Moments without a change are one call of \<open>accepts\<close>; a fixed network does not depend on them.\<close>

lemma justified_steady:
  assumes "wf_nd ra cfg" "justified cfg t is" "set is = {i}"
  shows "accepts cfg i t = Ret True"
proof -
  have "shaped i" using assms(2,3) by (auto simp: justified_def list_all_iff)
  then have "accepts cfg i t = Ret (in_nets i (ndc_prefixes cfg) t \<and> \<not> in_nets i (ndc_excludes cfg) t)"
    by (intro accepts_spec [OF assms(1)]) (simp add: shaped_def)
  with assms(2,3) show ?thesis by (auto simp: justified_def in_nets_covers)
qed

lemma justified_static:
  assumes "wf_nd ra cfg" "justified cfg t is" "f \<in> set (ndc_excludes cfg)" "\<not> fip_raPrefix f"
  shows "\<not> covers i f t"
proof -
  have "wf_fip f" using assms(1,3) by (simp add: wf_nd_def)
  then obtain n where "\<And>rinfo. ResolveFIP rinfo f = Ret (Some n)"
    using ra.static_resolves [OF _ assms(4)] by metis
  then have "covers i f t \<longleftrightarrow> covers j f t" for j by (simp add: covers_def)
  with assms(2,3) show ?thesis by (auto simp: justified_def)
qed

section \<open>Properties\<close>

text \<open>C5: in every interleaving with changes of the router information, the kernel and the router: a goroutine
  that looks for a target or answers it was started for it by the loop; since the solicitation
  was read there was a moment at which a configured network contained the target, and for every
  excluded network a moment at which it did not. If the router information did not change in between,
  \<open>accepts\<close> holds, and a target in an excluded network that does not depend on the router is
  never answered.\<close>

theorem answers_justified:
  assumes "wf_nd ra (ncl_cfg c)" "sys_run pf racfg c refs (sys_init w r) st"
    and "j \<in> set (sy_jobs st)" "job_for j = Some (q, ref)"
  shows "(\<exists>is. (q, ref, is) \<in> set (sy_started st) \<and> (\<exists>i\<in>set is. in_nets i (ndc_prefixes (ncl_cfg c)) (bs (so_target q))) \<and>
       (\<forall>f\<in>set (ndc_excludes (ncl_cfg c)). \<exists>i\<in>set is. \<not> covers i f (bs (so_target q))) \<and>
       (\<forall>i. set is = {i} \<longrightarrow> accepts (ncl_cfg c) i (bs (so_target q)) = Ret True)) \<and>
     (\<forall>f\<in>set (ndc_excludes (ncl_cfg c)). \<not> fip_raPrefix f \<longrightarrow> (\<forall>i. \<not> covers i f (bs (so_target q))))"
proof -
  have "sys_ok (ncl_cfg c) st" by (rule run_ok [OF assms(1,2) sys_init_ok])
  then obtain hs where hs: "(q, ref, hs) \<in> set (sy_started st)" "justified (ncl_cfg c) (bs (so_target q)) hs"
    using assms(3,4) by (fastforce simp: sys_ok_def jobs_ok_def)
  with justified_steady [OF assms(1)] justified_static [OF assms(1)] show ?thesis
    by (auto simp: justified_def intro!: exI [where x = hs])
qed

text \<open>No interleaving makes the test of a solicitation panic, although the router information may change
  between any two of its looks: in every state that can be reached each of them resolves its network.\<close>

theorem check_never_panics:
  assumes "wf_nd ra (ncl_cfg c)" "sys_run pf racfg c refs (sys_init w r) st" "sy_phase st \<noteq> Panicked"
  shows "check (ncl_cfg c) (sy_rinfo st) (sy_phase st) \<noteq> Panicked"
proof (cases "sy_held st = []")
  case True
  have "sys_ok (ncl_cfg c) st" by (rule run_ok [OF assms(1,2) sys_init_ok])
  with True show ?thesis by (simp add: sys_ok_def)
next
  case False
  have ok: "sys_ok (ncl_cfg c) st" by (rule run_ok [OF assms(1,2) sys_init_ok])
  with False have "sy_rinfo st \<in> set (sy_held st)" by (metis sys_ok_def hd_in_set)
  with check_ok(2) [OF assms(1), of "sy_held st" "sy_rinfo st" "sy_phase st"] ok assms(3) show ?thesis
    by (auto simp: sys_ok_def)
qed

text \<open>The functions of the workers are runs of the system: if the router advertisement client goes through
  rounds of its loop, then the proxy through rounds of its own, and then one of the goroutines it has
  started to its end, the system has a run to the state the functions compute.\<close>

theorem workers_are_runs:
  assumes "listen pf sels rt = (Ret None, rt1)" "rcl_cfg (rt_client rt) = racfg"
    and "sy_rinfo st = rcl_routerInfo (rt_client rt)" "sy_world st = rt_world rt" "sy_router st = rt_router rt"
    and "\<not> crashed st" "sy_phase st = Idle" "sy_jobs st = []"
    and "nd_loop pf (ncl_cfg c) refs sched (rt_world rt1) = (Ret None, jobs, w2)"
    and "\<forall>x\<in>set sched. fst x = rcl_routerInfo (rt_client rt1)"
    and "k < length jobs" "processNd pf ord c (fst (jobs ! k)) (snd (jobs ! k)) es w2 (rt_router rt1) = (Some x, w3, r3)"
  shows "\<exists>st'. own_run pf racfg c refs st st' \<and> sy_rinfo st' = rcl_routerInfo (rt_client rt1) \<and> sy_world st' = w3 \<and>
     sy_router st' = r3 \<and> sy_jobs st' = (map pend jobs)[k := job_end x]"
proof -
  obtain held where run1: "own_run pf racfg c refs st (st\<lparr>sy_rinfo := rcl_routerInfo (rt_client rt1), sy_held := held,
      sy_world := rt_world rt1, sy_router := rt_router rt1\<rparr>)" (is "own_run _ _ _ _ _ ?st1")
    using listen_run [OF assms(1,6,2-5)] by blast
  have st1: "\<not> crashed ?st1" "sy_phase ?st1 = Idle" "sy_world ?st1 = rt_world rt1" "sy_jobs ?st1 = []"
      "sy_router ?st1 = rt_router rt1"
    using assms(6-8) by (simp_all add: crashed_def)
  obtain held2 started where run2: "own_run pf racfg c refs ?st1 (?st1\<lparr>sy_world := w2, sy_held := held2, sy_phase := Idle,
      sy_jobs := sy_jobs ?st1 @ map pend jobs, sy_started := started\<rparr>)" (is "own_run _ _ _ _ _ ?st2")
    using loop_run [where racfg = racfg, OF assms(9) _ st1(1-3)] assms(10) by auto
  have st2: "\<not> crashed ?st2" "k < length (sy_jobs ?st2)" "sy_jobs ?st2 ! k = Pending (fst (jobs ! k)) (snd (jobs ! k))"
    using assms(11) st1(4) by (auto simp: crashed_def pend_def)
  have "processNd pf ord c (fst (jobs ! k)) (snd (jobs ! k)) es (sy_world ?st2) (sy_router ?st2) = (Some x, w3, r3)"
    using assms(12) by simp
  note run = run_trans [OF run1 run_trans [OF run2 goroutine_run [OF this st2]]]
  show ?thesis
    by (intro exI conjI, rule run) (use st1(4) in simp_all)
qed

text \<open>C23: the test of a solicitation is not made under one state of the router information. If the prefix
  changes between the look at the networks and the look at the excluded ones, an address that is
  excluded under the old prefix and outside the networks under the new one is answered,
  although \<open>accepts\<close> rejects it before and after the change.\<close>

theorem test_is_not_atomic:
  fixes rc :: "'r RAClient" and st :: "('k, 'r) system"
  assumes "wf_nd ra (ncl_cfg c)" "ndc_prefixes (ncl_cfg c) = [fp]" "ndc_excludes (ncl_cfg c) = [fe]"
    and "\<not> crashed st" "sy_phase st = Idle" "sy_rinfo st = Some old" "rinfo_shape old"
    and "nd_read pf (ncl_cfg c) refs spare (sy_world st) = (InPrefixes q sr [fp], w1)"
    and "rcl_cfg rc = racfg" "learn pf rc False (Some old) w1 = (Ret (Some new), w2)"
    and "covers (Some old) fp (bs (so_target q))" "covers (Some old) fe (bs (so_target q))"
    and "\<not> covers (Some new) fp (bs (so_target q))" "\<not> covers (Some new) fe (bs (so_target q))"
  shows "accepts (ncl_cfg c) (Some old) (bs (so_target q)) = Ret False \<and>
     accepts (ncl_cfg c) (Some new) (bs (so_target q)) = Ret False \<and>
     (\<exists>st'. own_run pf racfg c refs st st' \<and> Pending q sr \<in> set (sy_jobs st'))"
proof -
  have shape: "shaped (Some old)" "shaped (Some new)"
    using assms(7) learn_shaped [OF assms(10)] by (auto simp: shaped_def)
  have rejects: "accepts (ncl_cfg c) i (bs (so_target q)) = Ret (covers i fp (bs (so_target q)) \<and> \<not> covers i fe (bs (so_target q)))"
    if "shaped i" for i
    using accepts_spec [OF assms(1), of i] that assms(2,3) by (simp add: shaped_def in_nets_covers)
  have wf: "wf_fip fp" "wf_fip fe" using assms(1-3) by (simp_all add: wf_nd_def)
  let ?s1 = "st\<lparr>sy_world := w1, sy_held := [sy_rinfo st], sy_phase := InPrefixes q sr [fp]\<rparr>"
  let ?s2 = "?s1\<lparr>sy_phase := InExcludes q sr [fe]\<rparr>"
  let ?s3 = "?s2\<lparr>sy_rinfo := Some new, sy_world := w2, sy_held := Some new # sy_held ?s2\<rparr>"
  have ok: "\<not> crashed ?s1" "\<not> crashed ?s2" "\<not> crashed ?s3" "\<not> crashed (?s3\<lparr>sy_phase := InExcludes q sr []\<rparr>)"
    "\<not> crashed (?s3\<lparr>sy_phase := Accepted q sr\<rparr>)"
    using assms(4) by (simp_all add: crashed_def)
  note run = run_act [OF assms(4) act.reads [OF assms(5,8)], of racfg]
  have "check (ncl_cfg c) (sy_rinfo ?s1) (sy_phase ?s1) = InExcludes q sr [fe]"
    using check_covers(1) [OF wf(1) shape(1), of "ncl_cfg c" q sr "[]"] assms(3,6,11) by simp
  with check_run [OF ok(1), of pf racfg c refs] have "own_run pf racfg c refs ?s1 ?s2" by simp
  note run = run_trans [OF run this]
  have "learn pf rc False (sy_rinfo ?s2) (sy_world ?s2) = (Ret (Some new), w2)" using assms(6,10) by simp
  note run = run_trans [OF run run_act [OF ok(2) act.learns [OF assms(9) this]]]
  have "check (ncl_cfg c) (sy_rinfo ?s3) (sy_phase ?s3) = InExcludes q sr []"
    using check_covers(2) [OF wf(2) shape(2), of "ncl_cfg c" q sr "[]"] assms(14) by simp
  with check_run [OF ok(3), of pf racfg c refs] have "own_run pf racfg c refs ?s3 (?s3\<lparr>sy_phase := InExcludes q sr []\<rparr>)"
    by (simp only:)
  note run = run_trans [OF run this]
  have "own_run pf racfg c refs (?s3\<lparr>sy_phase := InExcludes q sr []\<rparr>) (?s3\<lparr>sy_phase := Accepted q sr\<rparr>)"
    using check_run [OF ok(4), of pf racfg c refs] by simp
  note run = run_trans [OF run this]
  have "sy_phase (?s3\<lparr>sy_phase := Accepted q sr\<rparr>) = Accepted q sr" by simp
  note run = run_trans [OF run run_act [OF ok(5) act.starts [OF this]]]
  have "\<exists>st'. own_run pf racfg c refs st st' \<and> Pending q sr \<in> set (sy_jobs st')"
    by (intro exI conjI, rule run) simp_all
  with rejects [OF shape(1)] rejects [OF shape(2)] assms(12,13) show ?thesis by simp
qed

text \<open>C22: two goroutines that wait for advertisements read from the same sockets, and what one of them reads and
  has no use for is lost to the other: whether the target of the second is found depends on which of the two
  reads its advertisement, and in one interleaving it is given up without an answer.\<close>

theorem advertisement_stolen:
  assumes "\<not> crashed st" "i < length (sy_jobs st)" "k < length (sy_jobs st)" "i \<noteq> k"
    and "sy_jobs st ! i = Waiting qi refi socks (Some ti)" "sy_jobs st ! k = Waiting qk refk socks (Some tk)"
    and "0 < ti" "0 < tk" "e < ti"
    and "ReadMultiSocksOnce (pf_iw pf) (pf_sys pf) socks (Some ti) (sy_world st) = ((n, p, None), w1)"
    and "ReadMultiSocksOnce (pf_iw pf) (pf_sys pf) socks (Some tk) (sy_world st) = ((n, p, None), w1)" "n \<noteq> -1"
    and "useful_na pf (so_target qi) p = None" "useful_na pf (so_target qk) p = Some (Some hw)"
    and "ReadMultiSocksOnce (pf_iw pf) (pf_sys pf) socks (Some tk) w1 = ((-1, p', None), w2)"
  shows "(\<exists>st'. own_run pf racfg c refs st st' \<and> sy_jobs st' ! k = Found qk refk) \<and>
     (\<exists>st'. own_run pf racfg c refs st st' \<and> sy_jobs st' ! k = Done \<and>
        sy_jobs st' ! i = Waiting qi refi socks (Some (ti - e)) \<and> sy_world st' = w2)"
proof
  let ?step = "job_step pf id c"
  have "?step e (sy_jobs st ! k) (sy_world st) (sy_router st) = Some (Found qk refk, w1, sy_router st)"
    using assms(6,8,11,12,14) by (simp add: job_step_wait wait_na.simps(2) wait_end_def)
  from run_act [OF assms(1) act.works [OF assms(3) this]]
  show "\<exists>st'. own_run pf racfg c refs st st' \<and> sy_jobs st' ! k = Found qk refk"
    by (intro exI conjI) (assumption, simp add: assms(3))
next
  let ?step = "job_step pf id c"
  let ?s1 = "st\<lparr>sy_jobs := (sy_jobs st)[i := Waiting qi refi socks (Some (ti - e))], sy_world := w1, sy_router := sy_router st\<rparr>"
  have "?step e (sy_jobs st ! i) (sy_world st) (sy_router st) =
      Some (Waiting qi refi socks (Some (ti - e)), w1, sy_router st)"
    using assms(5,7,9,10,12,13) by (simp add: job_step_wait wait_na.simps(2))
  note run = run_act [OF assms(1) act.works [OF assms(2) this], of racfg refs]
  have ok: "\<not> crashed ?s1" "k < length (sy_jobs ?s1)" "sy_jobs ?s1 ! k = Waiting qk refk socks (Some tk)"
    using assms(1,3,4,6) set_update_subset_insert [of "sy_jobs st" i] by (auto simp: crashed_def)
  have "?step e (sy_jobs ?s1 ! k) (sy_world ?s1) (sy_router ?s1) = Some (Done, w2, sy_router st)"
    unfolding ok(3) using assms(8,15) by (simp add: job_step_wait wait_na.simps(2) wait_end_def)
  note run = run_trans [OF run run_act [OF ok(1) act.works [OF ok(2) this]]]
  show "\<exists>st'. own_run pf racfg c refs st st' \<and> sy_jobs st' ! k = Done \<and>
      sy_jobs st' ! i = Waiting qi refi socks (Some (ti - e)) \<and> sy_world st' = w2"
    by (intro exI conjI, rule run) (use assms(2-4) in simp_all)
qed

text \<open>
  The witnesses: the proxy for the bare \<open>ra-prefix\<close> that excludes one address under it, at first
  with another prefix than the one the advertisements hold. The proxy reads socket 0 and the router
  advertisement client socket 1.
\<close>

lemma covers_eval [code]: "covers rinfo f t = (case ResolveFIP rinfo f of Ret (Some n) \<Rightarrow> Contains n t | _ \<Rightarrow> False)"
  by (auto simp: covers_def split: go.splits option.splits)

definition other_info :: RouterInfo where
  "other_info =
     \<lparr>ri_prefix = \<lparr>net_IP = Some ([0x20, 1, 0xd, 0xb9] @ replicate 12 0), net_Mask = CIDRMask (int 64) 128\<rparr>, ri_gateway = None\<rparr>"

definition other_target :: bytes where
  "other_target = [0x20, 1, 0xd, 0xb9] @ replicate 11 0 @ [1]"

definition learned :: RouterInfo where
  "learned =
     \<lparr>ri_prefix = \<lparr>net_IP = Some sample_prefix, net_Mask = CIDRMask (int 64) 128\<rparr>, ri_gateway = Some sample_gateway\<rparr>"

definition listener :: "unit RAClient" where
  "listener = \<lparr>rcl_cfg = sample_ra, rcl_ros = Some quiet, rcl_extSock = Some 1, rcl_routerInfo = Some other_info\<rparr>"

definition sample_proxy :: "unit NDClient" where
  "sample_proxy = NewNDClient (sample_nd ''static'' 128) (Some quiet)"

definition other_q :: "bytes \<Rightarrow> solicitation" where
  "other_q t = \<lparr>so_target = Some t, so_spare = [], so_srcMAC = Some (replicate 6 4), so_srcIP = Some sample_gateway\<rparr>"

definition event_on :: "int \<Rightarrow> epoll_event" where
  "event_on fd = \<lparr>ev_events = EPOLLIN, ev_fd = fd\<rparr>"

lemmas read_eval = ReadMultiSocksOnce_def ReadOnce_def ReadOnceChan_def epollOnce_def epoll_rounds.simps ref_sys_def
  ref_world_def event_on_def ev_failed_def pick_sock_def EPOLLERR_def EPOLLIN_def EPOLLHUP_def wrap_def readImmediate_def

text \<open>The kernel with these events to come and packets queued, and no descriptors but those of the two sockets.\<close>

definition ref_ready :: "epoll_event list list \<Rightarrow> (int \<Rightarrow> bytes list) \<Rightarrow> ref_kernel world \<Rightarrow> bool" where
  "ref_ready evs que w \<longleftrightarrow> w_heap w = w_heap (ref_world [] []) \<and> rk_events (w_kern w) = evs \<and>
     rk_fds (w_kern w) = {3, 4} \<and> 5 \<le> rk_fresh (w_kern w) \<and> rk_queue (w_kern w) = que"

lemma ref_world_ready: "ref_ready evs (\<lambda>_. ps) (ref_world evs ps)"
  by (simp add: ref_ready_def ref_world_def)

lemma proxy_reads:
  assumes "ref_ready ([event_on 3] # evs) que w" "que 3 = t # ps" "t \<noteq> []" "length t \<le> 2048"
  shows "\<exists>w'. nd_read ref_pf (sample_nd ''static'' 128) [sample_ref] [] w =
     (InPrefixes (other_q t) sample_ref (ndc_prefixes (sample_nd ''static'' 128)), w') \<and> ref_ready evs (que(3 := ps)) w'"
  using assms by (auto simp: ref_ready_def nd_read_def read_eval sample_ref_def go_index_def parseICMPv6_def ref_pf_def
      fixed_codec_def other_q_def)

lemma client_learns:
  assumes "ref_ready ([event_on 4] # evs) que w" "que 4 = t # ps" "t \<noteq> []" "hd t \<noteq> 0" "length t \<le> 2048"
    and "rcl_extSock rc = Some 1"
  shows "\<exists>w'. receive ref_pf rc False b w = (Ret (Inr learned), w') \<and> ref_ready evs (que(4 := ps)) w'"
  using assms by (auto simp: ref_ready_def receive_def read_eval parseICMPv6_def ref_pf_def fixed_codec_def learned_def
      new_option_def prefix_data_def read_options_result sample_simps prefix_option_def readable_def option_prefix_def)

lemma learned_shape: "rinfo_shape learned" "rinfo_shape other_info"
  unfolding rinfo_shape_def learned_def other_info_def
  by (intro disjI2 exI [where x = sample_prefix] exI [where x = 64], simp add: sample_simps,
      intro disjI2 exI [where x = "[0x20, 1, 0xd, 0xb9] @ replicate 12 0"] exI [where x = 64], simp)

lemma learned_differs: "info_changed learned other_info"
  by (simp add: info_changed_def learned_def other_info_def sample_gateway_def IP_Equal_def To4_def)

lemma proxy_prefixes:
  "ndc_prefixes (sample_nd ''static'' 128) = [\<lparr>fip_raPrefix = True, fip_ip = None, fip_cidr = -1\<rparr>]"
  "ndc_excludes (sample_nd ''static'' 128) = [sample_fip]" "ncl_cfg sample_proxy = sample_nd ''static'' 128"
  by (simp_all add: sample_nd_def sample_proxy_def NewNDClient_def sample_fip_def)

lemma proxy_wf: "wf_nd sample_ra (ncl_cfg sample_proxy)"
  by (simp add: proxy_prefixes(3) sample_nd_wf)

lemma other_covers:
  "covers (Some other_info) \<lparr>fip_raPrefix = True, fip_ip = None, fip_cidr = -1\<rparr> other_target"
  "covers (Some other_info) sample_fip other_target"
  "\<not> covers (Some learned) \<lparr>fip_raPrefix = True, fip_ip = None, fip_cidr = -1\<rparr> other_target"
  "\<not> covers (Some learned) sample_fip other_target"
  "accepts (sample_nd ''static'' 128) (Some learned) sample_target = Ret True"
  by code_simp+

definition idle_system :: "epoll_event list list \<Rightarrow> bytes list \<Rightarrow> (ref_kernel, unit) system" where
  "idle_system evs ps = (sys_init (ref_world evs ps) ())\<lparr>sy_rinfo := Some other_info\<rparr>"

lemma idle_simps: "\<not> crashed (idle_system evs ps)" "sy_phase (idle_system evs ps) = Idle"
  "sy_rinfo (idle_system evs ps) = Some other_info" "sy_world (idle_system evs ps) = ref_world evs ps"
  "sy_router (idle_system evs ps) = ()" "sy_jobs (idle_system evs ps) = []"
  by (simp_all add: idle_system_def sys_init_def crashed_def)

theorem test_is_not_atomic_witness:
  "accepts (sample_nd ''static'' 128) (Some other_info) other_target = Ret False \<and>
   accepts (sample_nd ''static'' 128) (Some learned) other_target = Ret False \<and>
   (\<exists>st'. own_run ref_pf sample_ra sample_proxy [sample_ref]
       (idle_system [[event_on 3], [event_on 4]] [other_target]) st' \<and> Pending (other_q other_target) sample_ref \<in> set (sy_jobs st'))"
proof -
  have t: "other_target \<noteq> []" "length other_target \<le> 2048" "hd other_target \<noteq> 0" "bs (so_target (other_q other_target)) = other_target"
    by (simp_all add: other_target_def other_q_def)
  obtain w1 where read: "nd_read ref_pf (sample_nd ''static'' 128) [sample_ref] [] (ref_world [[event_on 3], [event_on 4]] [other_target]) =
      (InPrefixes (other_q other_target) sample_ref (ndc_prefixes (sample_nd ''static'' 128)), w1)"
    and w1: "ref_ready [[event_on 4]] ((\<lambda>_. [other_target])(3 := [])) w1"
    using proxy_reads [OF ref_world_ready _ t(1,2), of "[other_target]" "[]" "[[event_on 4]]"] by auto
  have "\<exists>w2. receive ref_pf listener False False w1 = (Ret (Inr learned), w2)"
    using client_learns [OF w1 _ t(1,3,2), of "[]" listener False] by (auto simp: listener_def)
  then obtain w2 where learn: "learn ref_pf listener False (Some other_info) w1 = (Ret (Some learned), w2)"
    using learned_differs by (auto simp: learn_def)
  have cfg: "rcl_cfg listener = sample_ra" by (simp add: listener_def)
  from test_is_not_atomic [OF proxy_wf _ _ idle_simps(1,2,3) learned_shape(2) _ cfg learn, of _ _ "[sample_ref]" "[]"
      "[[event_on 3], [event_on 4]]" "[other_target]" "other_q other_target" sample_ref]
    read other_covers t(4)
  show ?thesis by (simp add: proxy_prefixes idle_simps)
qed

lemma target_simps: "sample_target \<noteq> []" "length sample_target \<le> 2048" "hd sample_target \<noteq> 0"
  by code_simp+

text \<open>The client learns the prefix, then the proxy accepts a solicitation.\<close>

lemma sample_loop:
  assumes "ref_ready [[event_on 3]] que w" "que 3 = [sample_target]"
  shows "\<exists>w'. nd_loop ref_pf (ncl_cfg sample_proxy) [sample_ref] [(Some learned, [])] w =
     (Ret None, [(other_q sample_target, sample_ref)], w')"
proof -
  obtain w' where "nd_read ref_pf (sample_nd ''static'' 128) [sample_ref] [] w =
      (InPrefixes (other_q sample_target) sample_ref (ndc_prefixes (sample_nd ''static'' 128)), w')"
    using proxy_reads [OF assms(1,2) target_simps(1,2)] by auto
  then show ?thesis
    using other_covers(5) by (auto simp: proxy_prefixes(3) nd_receive_read other_q_def)
qed

lemma sample_learns:
  assumes "rcl_extSock rc = Some 1"
  shows "\<exists>w. receive ref_pf rc False b (ref_world [[event_on 4], [event_on 3]] [sample_target]) = (Ret (Inr learned), w) \<and>
    ref_ready [[event_on 3]] ((\<lambda>_. [sample_target])(4 := [])) w"
  using client_learns [OF ref_world_ready _ target_simps(1,3,2) assms] by auto

lemma sample_run:
  "\<exists>st. own_run ref_pf sample_ra sample_proxy [sample_ref] (sys_init (ref_world [[event_on 4], [event_on 3]] [sample_target]) ()) st \<and>
     sy_jobs st = [Pending (other_q sample_target) sample_ref] \<and> sy_phase st = Idle"
proof -
  let ?w = "ref_world [[event_on 4], [event_on 3]] [sample_target]"
  let ?st = "sys_init ?w () :: (ref_kernel, unit) system"
  obtain w1 where rec: "receive ref_pf listener False True ?w = (Ret (Inr learned), w1)"
      and w1: "ref_ready [[event_on 3]] ((\<lambda>_. [sample_target])(4 := [])) w1"
    using sample_learns [of listener True] by (auto simp: listener_def)
  have ok: "\<not> crashed ?st" by (simp add: crashed_def sys_init_def)
  have "rcl_cfg listener = sample_ra" by (simp add: listener_def)
  moreover have "learn ref_pf listener False (sy_rinfo ?st) (sy_world ?st) = (Ret (Some learned), w1)"
    using rec by (simp add: learn_def sys_init_def learned_def)
  ultimately have run: "own_run ref_pf sample_ra sample_proxy [sample_ref] ?st
      (?st\<lparr>sy_rinfo := Some learned, sy_world := w1, sy_held := Some learned # sy_held ?st\<rparr>)" (is "own_run _ _ _ _ _ ?s1")
    by (intro run_act [OF ok] act.learns)
  obtain w2 where loop: "nd_loop ref_pf (ncl_cfg sample_proxy) [sample_ref] [(Some learned, [])] w1 =
      (Ret None, [(other_q sample_target, sample_ref)], w2)"
    using sample_loop [OF w1] by auto
  have s1: "\<not> crashed ?s1" "sy_phase ?s1 = Idle" "sy_world ?s1 = w1" "sy_jobs ?s1 = []" "sy_rinfo ?s1 = Some learned"
    by (simp_all add: crashed_def sys_init_def)
  from loop_run [OF loop _ s1(1-3), of sample_ra] s1(5) obtain held started where
    "own_run ref_pf sample_ra sample_proxy [sample_ref] ?s1 (?s1\<lparr>sy_world := w2, sy_held := held, sy_phase := Idle,
      sy_jobs := sy_jobs ?s1 @ map pend [(other_q sample_target, sample_ref)], sy_started := started\<rparr>)" by auto
  note run = run_trans [OF run this]
  show ?thesis
    by (intro exI conjI, rule run) (use s1(4) in \<open>simp_all add: pend_def\<close>)
qed

theorem answers_justified_witness:
  "\<exists>st. own_run ref_pf sample_ra sample_proxy [sample_ref] (sys_init (ref_world [[event_on 4], [event_on 3]] [sample_target]) ()) st \<and>
     sy_jobs st = [Pending (other_q sample_target) sample_ref] \<and>
     (\<exists>hs. (other_q sample_target, sample_ref, hs) \<in> set (sy_started st) \<and>
        (\<exists>i\<in>set hs. in_nets i (ndc_prefixes (ncl_cfg sample_proxy)) (bs (so_target (other_q sample_target)))))"
proof -
  obtain st where run: "own_run ref_pf sample_ra sample_proxy [sample_ref]
      (sys_init (ref_world [[event_on 4], [event_on 3]] [sample_target]) ()) st"
    and jobs: "sy_jobs st = [Pending (other_q sample_target) sample_ref]"
    using sample_run by auto
  from answers_justified [OF proxy_wf own_run_sys [OF run], of "Pending (other_q sample_target) sample_ref"] run jobs show ?thesis by auto
qed

theorem check_never_panics_witness:
  "\<exists>w. nd_read ref_pf (ncl_cfg sample_proxy) [sample_ref] [] (ref_world [[event_on 3]] [sample_target]) =
       (InPrefixes (other_q sample_target) sample_ref (ndc_prefixes (ncl_cfg sample_proxy)), w) \<and>
     check (ncl_cfg sample_proxy) None
       (InPrefixes (other_q sample_target) sample_ref (ndc_prefixes (ncl_cfg sample_proxy))) \<noteq> Panicked"
proof -
  let ?st = "sys_init (ref_world [[event_on 3]] [sample_target]) () :: (ref_kernel, unit) system"
  let ?ph = "InPrefixes (other_q sample_target) sample_ref (ndc_prefixes (ncl_cfg sample_proxy))"
  obtain w where read: "nd_read ref_pf (ncl_cfg sample_proxy) [sample_ref] [] (sy_world ?st) = (?ph, w)"
    using proxy_reads [OF ref_world_ready _ target_simps(1,2), of "[sample_target]" "[]" "[]"]
    by (auto simp: proxy_prefixes(3) sys_init_def)
  have "own_run ref_pf sample_ra sample_proxy [sample_ref] ?st
      (?st\<lparr>sy_world := w, sy_held := [sy_rinfo ?st], sy_phase := ?ph\<rparr>)"
    by (rule run_act [OF _ act.reads [OF _ read]]) (simp_all add: sys_init_def crashed_def)
  from check_never_panics [OF proxy_wf own_run_sys [OF this]] read show ?thesis by (auto simp: sys_init_def)
qed

theorem workers_are_runs_witness:
  "\<exists>w rt1 w2 w3. listen ref_pf [False] \<lparr>rt_client = listener, rt_world = ref_world [[event_on 4], [event_on 3]] [sample_target],
       rt_router = ()\<rparr> = (Ret None, rt1) \<and>
     rcl_routerInfo (rt_client rt1) = Some learned \<and>
     processNd ref_pf id sample_proxy (other_q sample_target) sample_ref [] w2 () = (Some (Ret ()), w3, ()) \<and>
     (\<exists>st'. own_run ref_pf sample_ra sample_proxy [sample_ref] (idle_system [[event_on 4], [event_on 3]] [sample_target]) st' \<and>
        sy_rinfo st' = Some learned \<and> sy_world st' = w3 \<and> sy_jobs st' = [Done])"
proof -
  let ?w = "ref_world [[event_on 4], [event_on 3]] [sample_target]"
  let ?rt = "\<lparr>rt_client = listener, rt_world = ?w, rt_router = ()\<rparr>"
  obtain w1 where rec: "receive ref_pf listener False False ?w = (Ret (Inr learned), w1)"
      and w1: "ref_ready [[event_on 3]] ((\<lambda>_. [sample_target])(4 := [])) w1"
    using sample_learns [of listener False] by (auto simp: listener_def)
  have "fst (reconcile sample_ra (Some quiet) (Some learned) ()) \<noteq> Panic"
    by (rule reconcile_returns [OF sample_ra_wf learned_shape(1) _ quiet_parsable]) simp
  then obtain l where "reconcile sample_ra (Some quiet) (Some learned) () = (Ret l, ())"
    by (cases "reconcile sample_ra (Some quiet) (Some learned) ()"; cases "fst (reconcile sample_ra (Some quiet) (Some learned) ())") auto
  then obtain rt1 where listen: "listen ref_pf [False] ?rt = (Ret None, rt1)"
      and rt1: "rt_world rt1 = w1" "rcl_routerInfo (rt_client rt1) = Some learned"
    using rec learned_differs by (auto simp: listen_step_def Let_def client_reconcile_def listener_def)
  obtain w2 where loop: "nd_loop ref_pf (ncl_cfg sample_proxy) [sample_ref] [(Some learned, [])] (rt_world rt1) =
      (Ret None, [(other_q sample_target, sample_ref)], w2)"
    using sample_loop [OF w1] rt1(1) by auto
  obtain w3 where answer: "processNd ref_pf id sample_proxy (other_q sample_target) sample_ref [] w2 (rt_router rt1) = (Some (Ret ()), w3, ())"
    by (simp add: processNd_def find_neighbor_def sample_proxy_def NewNDClient_def sample_nd_def advertised_mac_def
        sample_ref_def zero_mac_def Let_def)
  have cfg: "rcl_cfg (rt_client ?rt) = sample_ra" by (simp add: listener_def)
  note idle = idle_simps [of "[[event_on 4], [event_on 3]]" "[sample_target]"]
  from workers_are_runs [where k = 0 and ord = id and es = "[]" and x = "Ret ()" and ?w3.0 = w3 and ?r3.0 = "()",
      OF listen cfg _ _ _ idle(1,2,6) loop] answer rt1
  have "\<exists>st'. own_run ref_pf sample_ra sample_proxy [sample_ref] (idle_system [[event_on 4], [event_on 3]] [sample_target]) st' \<and>
      sy_rinfo st' = Some learned \<and> sy_world st' = w3 \<and> sy_jobs st' = [Done]"
    by (simp add: idle_simps listener_def job_end_def)
  with listen rt1(2) answer show ?thesis by auto
qed

theorem advertisement_stolen_witness:
  "\<exists>st w2. sy_jobs st = [Waiting (other_q sample_target) sample_ref [0] (Some 1000), Waiting (other_q other_target) sample_ref [0] (Some 1000)] \<and>
     (\<exists>st'. own_run ref_pf sample_ra sample_proxy [sample_ref] st st' \<and> sy_jobs st' ! 1 = Found (other_q other_target) sample_ref) \<and>
     (\<exists>st'. own_run ref_pf sample_ra sample_proxy [sample_ref] st st' \<and> sy_jobs st' ! 1 = Done \<and>
        sy_jobs st' ! 0 = Waiting (other_q sample_target) sample_ref [0] (Some (1000 - 5)) \<and> sy_world st' = w2)"
proof -
  let ?jobs = "[Waiting (other_q sample_target) sample_ref [0] (Some 1000), Waiting (other_q other_target) sample_ref [0] (Some 1000)]"
  let ?st = "(idle_system [[event_on 3]] [other_target])\<lparr>sy_jobs := ?jobs\<rparr>"
  have t: "other_target \<noteq> []" "take 2048 other_target = other_target" "\<not> IP_Equal other_target sample_target"
    by code_simp+
  have "\<exists>w1 w2. ReadMultiSocksOnce 64 ref_sys [0] (Some 1000) (ref_world [[event_on 3]] [other_target]) = ((0, Some other_target, None), w1) \<and>
      ReadMultiSocksOnce 64 ref_sys [0] (Some 1000) w1 = ((-1, None, None), w2)"
    using t(2) by (simp add: read_eval)
  then obtain w1 w2 where reads: "ReadMultiSocksOnce (pf_iw ref_pf) (pf_sys ref_pf) [0] (Some 1000) (sy_world ?st) = ((0, Some other_target, None), w1)"
      "ReadMultiSocksOnce (pf_iw ref_pf) (pf_sys ref_pf) [0] (Some 1000) w1 = ((-1, None, None), w2)"
    by (auto simp: idle_simps)
  have useful: "useful_na ref_pf (so_target (other_q sample_target)) (Some other_target) = None"
      "useful_na ref_pf (so_target (other_q other_target)) (Some other_target) = Some (Some (replicate 6 4))"
    using t by (simp_all add: ref_useful other_q_def IP_Equal_def)
  have "\<not> crashed ?st" by (simp add: crashed_def idle_simps)
  from advertisement_stolen [OF this _ _ _ _ _ _ _ _ reads(1,1) _ useful reads(2), of 0 1 sample_ref sample_ref 5]
  show ?thesis by (intro exI [where x = ?st] exI [where x = w2]) simp
qed
end
