(* ===== verification/Spec2Isabelle.thy ===== *)
theory Spec2Isabelle
  imports Filters ConfigProps RosProps RosPool LinkProps SockProps Packet RAProps NDProps DaemonProps SystemProps
begin

text \<open>
  A model of \<open>routeros-fletsv6-companion\<close>, a daemon that runs beside a RouterOS router on a network
  which hands out a single IPv6 prefix by router advertisement. It has two workers. The router
  advertisement client listens for advertisements on a raw socket and configures the router through
  the RouterOS API: the default route, addresses made of the prefix and a configured suffix, and
  prefix pools. The neighbour discovery proxy listens for neighbour solicitations from outside for
  addresses under the prefix, finds out whether an internal host has the address (by itself or
  through the router), and answers in its place.

  \<^bold>\<open>Theories and sources.\<close> In the order of their imports:

  \<^item> \<open>Prelude\<close>: bytes, slices (\<open>None\<close> is \<open>nil\<close>), Go's panic as a value (\<open>'a go\<close>), indexing and
    slicing with their checks, truncated division, integers of a width.
  \<^item> \<open>GoText\<close>, \<open>GoNet\<close>, \<open>GoNetText\<close>: the parts of Go's \<open>strings\<close>, \<open>strconv\<close>, \<open>fmt\<close> and \<open>net\<close>
    that the program uses, and that addresses and networks survive printing and parsing.
  \<^item> \<open>Util\<close>: \<open>util.go\<close>, byte orders, networks and masks, multicast addresses.
  \<^item> \<open>Filters\<close>: the packet filters of \<open>sock.go\<close> and \<open>bpfWithDot1Q\<close> of \<open>util.go\<close>. The machine that
    runs them is a parameter with the documented meaning of the instructions.
  \<^item> \<open>Resolve\<close>: \<open>FlexibleIP\<close>, \<open>RouterInfo\<close> and \<open>ResolveFIP\<close> of \<open>ra.go\<close>, with the interface
    \<open>resolver\<close> on which the proxy relies.
  \<^item> \<open>Config\<close>, \<open>ConfigProps\<close>: \<open>config.go\<close> with the configuration records of the other files: all
    loaders over an environment (a function from names to values).
  \<^item> \<open>Ros\<close>, \<open>Menu\<close>, \<open>RosProps\<close>: the operations of \<open>ros.go\<close> on the router over \<open>RunArgs\<close> as a
    parameter; the menus of a router and the specification that the writing operations refine. A
    menu keeps an entry as it is written, except that the last 64 bits of an \<open>eui-64\<close> address are
    what the router calculates (\<open>address_keep\<close>, from the interfaces' hardware addresses).
  \<^item> \<open>RosPool\<close>: the connections of \<open>ros.go\<close> (pool, \<open>RunArgs\<close>, keepalive) as a step relation whose
    steps are critical sections and events, with the interface \<open>store\<close> of both ends of the pool.
  \<^item> \<open>Link\<close>, \<open>LinkProps\<close>: \<open>link.go\<close> over the netlink library as a parameter.
  \<^item> \<open>Sock\<close>, \<open>SockProps\<close>: the sockets of \<open>sock.go\<close> and \<open>cgo.go\<close> over a record of system calls.
    Sockets are shared and marked invalid through pointers, so they live in a heap.
  \<^item> \<open>Packet\<close>: \<open>packet.go\<close> over the encoder and decoder of the package gopacket as parameters. A
    decoder finds its way by the fields that announce the next layer: \<open>standard_codec\<close> says
    nothing of packets that announce other layers than those it is for.
  \<^item> \<open>RA\<close>, \<open>RAProps\<close>: the router advertisement client of \<open>ra.go\<close>.
  \<^item> \<open>ND\<close>, \<open>NDProps\<close>: the neighbour discovery proxy of \<open>nd.go\<close>.
  \<^item> \<open>Daemon\<close>, \<open>DaemonProps\<close>: the logger, the dumps of the configurations and \<open>main.go\<close>.
  \<^item> \<open>System\<close>, \<open>SystemRuns\<close>, \<open>SystemProps\<close>: the two workers and the goroutines of the proxy as a step
    relation: the loop looks at one network at a time with the router information of the moment, and a
    goroutine is cut at its accesses to the shared sockets. \<open>act\<close> is the program's own steps,
    \<open>elsewhere\<close> those of the environment: what holds in every interleaving is shown over runs of
    both (\<open>sys_run\<close>), what the program can bring about over runs of its own steps (\<open>own_run\<close>).

  \<^bold>\<open>Conventions.\<close> Functions and types have the names of the source; record fields carry a prefix for
  their type. An operation takes the state it changes and returns it with its result: an error is
  the left side of a sum or an option, a panic is \<open>Panic\<close> and ends the process. Loops are recursive
  functions on the data they run over, \<open>epollOnce\<close> is recursive in the number of sockets left, and
  the loops that drain a socket are partial functions, whose value \<open>None\<close> is not returning. The
  width of \<open>int\<close> is a parameter \<open>iw\<close>, because the program is built for 32 and 64 bits.

  The workers run for ever: \<open>RA_Work\<close> and \<open>ND_Work\<close> take a schedule, a list of rounds with the
  outcomes that the program does not determine (which case of a \<open>select\<close> is taken, whether the
  context is done, the order in which \<open>range\<close> visits a map, the router information at the time of a
  packet, the time a wait takes), and the result says whether the worker has ended within it. The
  schedule is no bound of the model: the properties hold for every one. The wait of \<open>wait_na\<close>
  returns within any schedule whose times add up to the timeout (\<open>wait_na_terminates\<close>).

  \<^bold>\<open>What is shown.\<close>

  \<^item> Addresses: \<open>ResolveFIP\<close> gives the prefix bits followed by the suffix bits, and never panics on
    what the loaders and advertisements can produce; membership is agreement of prefix bits.
  \<^item> Configuration: what each loader accepts and the invariant of what it returns; the matcher of
    assignments is equivalent to the language of the regular expression.
  \<^item> Filters: which frames each program accepts; the VLAN variant is the original behind the tag.
  \<^item> The router: each writing operation refines the specification of \<open>Menu\<close> (an entry as wanted, at
    most one entry added, entries of others untouched, nothing to do the second time), also when
    commands fail half-way; a whole reconciliation puts every assignment in force
    (\<open>reconcile_converges\<close>), if no two have the same address text on one interface. An \<open>eui-64\<close>
    address is never found as wanted and is written again each time (\<open>eui64_never_settles\<close>).
  \<^item> Connections: no connection has two owners in any interleaving; the keepalive leaks
    connections, and a reply can be lost.
  \<^item> Sockets and interfaces: \<open>epollOnce\<close> ends and reports what it should, except that a hangup looks
    like a timeout; a VLAN device is the wanted one after \<open>PrepareVLAN\<close>.
  \<^item> Workers: invariants of the router advertisement client over every run and the absence of
    panics under hypotheses on the router and the decoder; the proxy answers exactly the
    solicitations it should, with the right packet; and the ways in which the workers stop working:
    an advertisement without a prefix, a start without interfaces, a hangup, a wait without a
    timeout.
  \<^item> Workers side by side: every answer is justified in every interleaving, the workers' functions are runs
    of the system's own steps, and two races: the test of a solicitation is not atomic, and goroutines take
    advertisements from each other.
  \<^item> The program: what \<open>main\<close> starts fulfils the hypotheses of the workers' properties, except for
    the mode \<open>proxy-ros:strict\<close> without a RouterOS client.

  Properties of code under a hypothesis on a parameter (a kernel, a router, a codec) have a witness
  on a reference instance that fulfils it: \<open>menu_keeping\<close>, \<open>ref_router\<close>, \<open>ref_links\<close>, \<open>ref_sys\<close>,
  \<open>ref_codec\<close>, \<open>layer_codec\<close>, \<open>ref_pf\<close>.

  \<^bold>\<open>Not modelled.\<close> The RouterOS, netlink and gopacket libraries, the C library and the kernel are
  parameters, for their code is not in the repository. The text of log messages and errors is left
  out, except for the formats of the logger and the dumps. In \<open>System\<close> a call of
  \<open>receive\<close>, a round of a wait and a lookup through RouterOS are single steps, and the initialisation and
  the restarts of the workers are left to their functions in \<open>RA\<close> and \<open>ND\<close>. \<open>ReadOnceChan\<close> is the
  result its goroutine sends; that a read which lost the \<open>select\<close> still consumes a packet does not matter, as
  the context is done then. Durations appear
  as numbers where the program computes with them, but time does not pass by itself.
  \<open>misctest.go\<close> holds manual tests that nothing calls.
\<close>

end
